(* ===== verification/Prelude.thy ===== *)
theory Prelude
  imports Complex_Main "HOL-Library.Multiset"
begin

text \<open>
  The prelude of the development: the collections of simplification facts the components
  extend, and the generic facts on lists, options and ordered pages that several components
  share. Nothing here is about the program; everything here is used by more than one theory.
\<close>

named_theorems pg_simps \<open>unfolding of database round trips and transactions\<close>
named_theorems frame_simps \<open>what an operation leaves alone\<close>

type_synonym time = int
type_synonym duration = int

section \<open>Lists\<close>

lemma find_append:
  "find P (xs @ ys) = (case find P xs of None \<Rightarrow> find P ys | Some x \<Rightarrow> Some x)"
  by (induction xs) auto

lemma find_SomeD: "find P xs = Some x \<Longrightarrow> x \<in> set xs \<and> P x"
  by (auto simp: find_Some_iff)

lemma find_None_filter: "find P xs = None \<longleftrightarrow> filter P xs = []"
  by (auto simp: find_None_iff filter_empty_conv)

lemma find_as_filter: "find P xs = (case filter P xs of [] \<Rightarrow> None | x # _ \<Rightarrow> Some x)"
  by (induction xs) auto

lemma find_filter_other: "find (\<lambda>x. k x = b) (filter (\<lambda>x. k x \<noteq> a) xs) =
    (if a = b then None else find (\<lambda>x. k x = b) xs)"
  by (induction xs) auto

lemma find_distinct_key:
  assumes "distinct (map k xs)" and "x \<in> set xs"
  shows "find (\<lambda>y. k y = k x) xs = Some x"
  using assms by (induction xs) force+

lemma find_map_same_key:
  assumes "\<And>x. k (f x) = k x"
  shows "find (\<lambda>x. k x = a) (map f xs) = map_option f (find (\<lambda>x. k x = a) xs)"
  using assms by (induction xs) auto

lemma distinct_map_filter_key: "distinct (map k xs) \<Longrightarrow> distinct (map k (filter P xs))"
  by (rule distinct_map_filter)

section \<open>Pages of a list that is strictly descending in a key\<close>

text \<open>
  A keyset page is the first \<open>n\<close> rows below a key. Over rows that are strictly descending
  in the key, restarting below the last row of a page continues exactly after that page.
\<close>

abbreviation desc_on :: "('r \<Rightarrow> 'k::linorder) \<Rightarrow> 'r list \<Rightarrow> bool" where
  "desc_on key rows \<equiv> sorted_wrt (\<lambda>a b. key b < key a) rows"

lemma desc_on_filter: "desc_on key xs \<Longrightarrow> desc_on key (filter P xs)"
  by (rule sorted_wrt_filter)

lemma desc_on_rev_sort_key:
  assumes "distinct (map key xs)"
  shows "desc_on key (rev (sort_key key xs))"
proof -
  have "sorted (map key (sort_key key xs))" by simp
  moreover have "distinct (map key (sort_key key xs))"
    using assms by (metis distinct_map distinct_sort set_sort)
  ultimately have "sorted_wrt (<) (map key (sort_key key xs))"
    by (simp add: strict_sorted_iff)
  then show ?thesis
    by (simp add: sorted_wrt_rev sorted_wrt_map)
qed

lemma desc_filter_below:
  assumes "desc_on key rows" and "i < length rows"
  shows "filter (\<lambda>r. key r < key (rows ! i)) rows = drop (Suc i) rows"
  using assms
proof (induction rows arbitrary: i)
  case Nil
  then show ?case by simp
next
  case (Cons r rows)
  show ?case
  proof (cases i)
    case 0
    then have "filter (\<lambda>x. key x < key r) rows = rows"
      using Cons.prems(1) by (simp add: filter_id_conv)
    with 0 show ?thesis by simp
  next
    case (Suc j)
    with Cons.prems have "key (rows ! j) < key r" by simp
    with Suc Cons show ?thesis by (auto dest: order.asym)
  qed
qed

lemma desc_filter_below_page:
  assumes "desc_on key rows" and "rows \<noteq> []" and "0 < n"
  shows "filter (\<lambda>r. key r < key (last (take n rows))) rows = drop n rows"
proof -
  let ?i = "min n (length rows) - 1"
  from assms have i: "?i < length rows" by (cases rows) auto
  have "last (take n rows) = rows ! ?i"
    using assms by (subst last_conv_nth) (auto simp: min.commute)
  moreover have "drop (Suc ?i) rows = drop n rows"
    using assms by (cases "n \<le> length rows") auto
  ultimately show ?thesis
    using desc_filter_below [OF assms(1) i] by simp
qed

end
