(* ===== verification/Go_Lib.thy ===== *)
theory Go_Lib
  imports Prelude
begin

text \<open>
  What the sources use of the Go language and its standard library: \<^verbatim>\<open>float64\<close> values
  as far as they are compared and added, \<^verbatim>\<open>strings.Split\<close>, \<^verbatim>\<open>strings.Contains\<close>,
  \<^verbatim>\<open>strings.TrimPrefix\<close>, \<^verbatim>\<open>strconv.Itoa\<close>, \<^verbatim>\<open>strconv.Atoi\<close> and the
  arithmetic of \<^verbatim>\<open>time.Time\<close> and \<^verbatim>\<open>time.Duration\<close>.

  A \<^verbatim>\<open>string\<close> is its list of UTF-8 bytes, as in Go; Cyrillic literals are written by
  their code points with \<open>u8\<close>. A \<^verbatim>\<open>time.Time\<close> is the number of nanoseconds
  since Go's zero time 0001-01-01 00:00:00 UTC, so the zero value is 0; only the instant is
  modelled, not the location a time is displayed in.
\<close>

section \<open>Strings\<close>

text \<open>UTF-8 encoding of the code points below 0x800, which holds all of Cyrillic.\<close>

fun u8 :: "nat list \<Rightarrow> string" where
  "u8 [] = []"
| "u8 (n # ns) = (if n < 128 then [char_of n] else [char_of (192 + n div 64), char_of (128 + n mod 64)]) @ u8 ns"

lemma char_eq_char_of: "c = char_of (n :: nat) \<longleftrightarrow> take_bit 8 n = of_char c"
  by (simp add: eq_commute [of c] char_of_eq_iff)

lemma u8_eq_Nil [simp]: "u8 ns = [] \<longleftrightarrow> ns = []"
  by (cases ns) auto

text \<open>\<^verbatim>\<open>strings.Split(s, sep)\<close> for a separator of one byte.\<close>

fun split_on :: "char \<Rightarrow> string \<Rightarrow> string list" where
  "split_on c [] = [[]]"
| "split_on c (x # xs) =
     (if x = c then [] # split_on c xs
      else (case split_on c xs of [] \<Rightarrow> [[x]] | y # ys \<Rightarrow> (x # y) # ys))"

fun join_with :: "char \<Rightarrow> string list \<Rightarrow> string" where
  "join_with c [] = []"
| "join_with c [s] = s"
| "join_with c (s # t # ss) = s @ c # join_with c (t # ss)"

lemma split_on_ne_Nil [simp]: "split_on c s \<noteq> []"
  by (induction s) (auto split: list.splits)

lemma split_on_no_sep: "c \<notin> set s \<Longrightarrow> split_on c s = [s]"
  by (induction s) auto

lemma split_on_append_sep:
  "c \<notin> set s \<Longrightarrow> split_on c (s @ c # t) = s # split_on c t"
  by (induction s) auto

lemma split_on_join:
  assumes "ss \<noteq> []" and "\<And>s. s \<in> set ss \<Longrightarrow> c \<notin> set s"
  shows "split_on c (join_with c ss) = ss"
  using assms
  by (induction c ss rule: join_with.induct) (auto simp: split_on_no_sep split_on_append_sep)

lemma join_split_on: "join_with c (split_on c s) = s"
proof (induction s)
  case (Cons x s)
  then show ?case
    by (cases "split_on c s"; cases "tl (split_on c s)") auto
qed simp

lemma split_on_parts_no_sep: "s \<in> set (split_on c t) \<Longrightarrow> c \<notin> set s"
proof (induction t arbitrary: s)
  case (Cons x t)
  then show ?case
    by (cases "split_on c t") (auto split: if_splits)
qed simp

text \<open>\<^verbatim>\<open>strings.HasPrefix\<close>, \<^verbatim>\<open>strings.TrimPrefix\<close> and \<^verbatim>\<open>strings.Contains\<close>.\<close>

fun has_prefix :: "string \<Rightarrow> string \<Rightarrow> bool" where
  "has_prefix s [] = True"
| "has_prefix [] (p # ps) = False"
| "has_prefix (c # s) (p # ps) = (c = p \<and> has_prefix s ps)"

definition trim_prefix :: "string \<Rightarrow> string \<Rightarrow> string" where
  "trim_prefix s p = (if has_prefix s p then drop (length p) s else s)"

fun contains :: "string \<Rightarrow> string \<Rightarrow> bool" where
  "contains [] p = (p = [])"
| "contains (c # s) p = (has_prefix (c # s) p \<or> contains s p)"

lemma has_prefix_iff: "has_prefix s p \<longleftrightarrow> (\<exists>t. s = p @ t)"
  by (induction s p rule: has_prefix.induct) auto

lemma contains_iff: "contains s p \<longleftrightarrow> (\<exists>a b. s = a @ p @ b)"
proof (induction s p rule: contains.induct)
  case (1 p)
  then show ?case by auto
next
  case (2 c s p)
  have "(\<exists>a b. c # s = a @ p @ b) \<longleftrightarrow> (\<exists>b. c # s = p @ b) \<or> (\<exists>a b. s = a @ p @ b)"
    by (metis append_Cons append_Nil append_eq_Cons_conv)
  with 2 show ?case by (simp add: has_prefix_iff)
qed

section \<open>Decimal integers\<close>

definition digit :: "nat \<Rightarrow> char" where
  "digit d = char_of (48 + d)"

definition digit_val :: "char \<Rightarrow> nat option" where
  "digit_val c = (let n = of_char c in if 48 \<le> n \<and> n \<le> (57::nat) then Some (n - 48) else None)"

fun nat_digits :: "nat \<Rightarrow> string" where
  "nat_digits n = (if n < 10 then [digit n] else nat_digits (n div 10) @ [digit (n mod 10)])"

declare nat_digits.simps [simp del]

fun digits_val :: "nat \<Rightarrow> string \<Rightarrow> nat option" where
  "digits_val acc [] = Some acc"
| "digits_val acc (c # cs) =
     (case digit_val c of None \<Rightarrow> None | Some d \<Rightarrow> digits_val (10 * acc + d) cs)"

definition int64_ok :: "int \<Rightarrow> bool" where
  "int64_ok n \<longleftrightarrow> - (2 ^ 63) \<le> n \<and> n < 2 ^ 63"

text \<open>\<^verbatim>\<open>strconv.Itoa\<close> and \<^verbatim>\<open>strconv.Atoi\<close>: an optional sign, at least one digit,
  nothing else, and the value within \<^verbatim>\<open>int64\<close>.\<close>

definition Itoa :: "int \<Rightarrow> string" where
  "Itoa n = (if n < 0 then CHR ''-'' # nat_digits (nat (- n)) else nat_digits (nat n))"

definition Atoi :: "string \<Rightarrow> int option" where
  "Atoi s =
     (let neg = (case s of [] \<Rightarrow> False | c # _ \<Rightarrow> c = CHR ''-'');
          body = (case s of [] \<Rightarrow> [] | c # cs \<Rightarrow> if c = CHR ''-'' \<or> c = CHR ''+'' then cs else s)
      in if body = [] then None
         else (case digits_val 0 body of
                 None \<Rightarrow> None
               | Some m \<Rightarrow> (let v = (if neg then - int m else int m)
                            in if int64_ok v then Some v else None)))"

lemma digit_val_digit [simp]: "d < 10 \<Longrightarrow> digit_val (digit d) = Some d"
  by (simp add: digit_val_def digit_def)

lemma digits_val_append:
  "digits_val acc (s @ t) = (case digits_val acc s of None \<Rightarrow> None | Some m \<Rightarrow> digits_val m t)"
  by (induction s arbitrary: acc) (auto split: option.splits)

lemma digits_val_nat_digits: "digits_val 0 (nat_digits n) = Some n"
proof (induction n rule: nat_digits.induct)
  case (1 n)
  then show ?case
    by (subst nat_digits.simps) (auto simp: digits_val_append)
qed

lemma nat_digits_ne_Nil [simp]: "nat_digits n \<noteq> []"
  by (subst nat_digits.simps) simp

lemma digit_not_sign:
  "d < 10 \<Longrightarrow> digit d \<noteq> CHR ''-'' \<and> digit d \<noteq> CHR ''+'' \<and> digit d \<noteq> CHR '',''"
proof -
  assume d: "d < 10"
  have "digit_val CHR ''-'' = None" "digit_val CHR ''+'' = None" "digit_val CHR '','' = None"
    by (simp_all add: digit_val_def)
  with digit_val_digit [OF d] show ?thesis by (metis option.distinct(1))
qed

lemma set_nat_digits: "c \<in> set (nat_digits n) \<Longrightarrow> \<exists>d < 10. c = digit d"
proof (induction n rule: nat_digits.induct)
  case (1 n)
  show ?case
  proof (cases "n < 10")
    case True
    with 1 show ?thesis by (auto simp: nat_digits.simps [of n])
  next
    case False
    with 1 have "c \<in> set (nat_digits (n div 10)) \<or> c = digit (n mod 10)"
      by (auto simp: nat_digits.simps [of n])
    moreover have "n mod 10 < 10" by simp
    ultimately show ?thesis using 1 False by blast
  qed
qed

lemma nat_digits_Cons:
  obtains d ds where "nat_digits n = digit d # ds" and "d < 10"
proof (cases "nat_digits n")
  case (Cons c cs)
  with set_nat_digits [of c n] that show ?thesis by auto
qed simp

lemma Itoa_ne_Nil [simp]: "Itoa n \<noteq> []"
  by (simp add: Itoa_def)

lemma Atoi_Itoa: "int64_ok n \<Longrightarrow> Atoi (Itoa n) = Some n"
proof (cases "n < 0")
  case True
  assume "int64_ok n"
  with True show ?thesis
    by (simp add: Atoi_def Itoa_def digits_val_nat_digits Let_def)
next
  case False
  assume ok: "int64_ok n"
  obtain d ds where ds: "nat_digits (nat n) = digit d # ds" "d < 10"
    by (rule nat_digits_Cons)
  then have "digits_val 0 (digit d # ds) = Some (nat n)"
    by (metis digits_val_nat_digits)
  with ds False ok digit_not_sign [OF ds(2)] show ?thesis
    by (simp add: Atoi_def Itoa_def Let_def del: digits_val.simps)
qed

lemma comma_notin_Itoa: "CHR '','' \<notin> set (Itoa n)"
  by (auto simp: Itoa_def dest!: set_nat_digits dest: digit_not_sign)

lemma Itoa_inj: "Itoa m = Itoa n \<Longrightarrow> m = n"
proof -
  assume eq: "Itoa m = Itoa n"
  have digits: "nat_digits a = nat_digits b \<Longrightarrow> a = b" for a b by (metis digits_val_nat_digits option.inject)
  have "CHR ''-'' \<notin> set (nat_digits a)" for a using set_nat_digits [of "CHR ''-''" a] digit_not_sign by metis
  then have "CHR ''-'' # xs \<noteq> nat_digits a" "nat_digits a \<noteq> CHR ''-'' # xs" for xs a by (metis list.set_intros(1))+
  with eq show ?thesis by (auto simp: Itoa_def dest: digits split: if_splits)
qed

section \<open>Floating point\<close>

text \<open>
  A \<^verbatim>\<open>float64\<close> is a finite number, an infinity or not-a-number. The sources compare
  weights with small constants and add the whole-number prices 0, 1, 5 and 20, whose sums are
  exact in double precision below \<open>2 ^ 53\<close>; no other arithmetic is done, so no
  rounding is modelled.
\<close>

datatype float64 = Fin rat | PosInf | NegInf | NaN

fun f_less :: "float64 \<Rightarrow> float64 \<Rightarrow> bool" where
  "f_less (Fin a) (Fin b) = (a < b)"
| "f_less NegInf (Fin b) = True"
| "f_less NegInf PosInf = True"
| "f_less (Fin a) PosInf = True"
| "f_less a b = False"

fun f_add :: "float64 \<Rightarrow> float64 \<Rightarrow> float64" where
  "f_add (Fin a) (Fin b) = Fin (a + b)"
| "f_add PosInf (Fin b) = PosInf"
| "f_add (Fin a) PosInf = PosInf"
| "f_add PosInf PosInf = PosInf"
| "f_add NegInf (Fin b) = NegInf"
| "f_add (Fin a) NegInf = NegInf"
| "f_add NegInf NegInf = NegInf"
| "f_add a b = NaN"

definition f_finite :: "float64 \<Rightarrow> bool" where
  "f_finite a = (case a of Fin _ \<Rightarrow> True | _ \<Rightarrow> False)"

section \<open>Time\<close>

abbreviation millisecond :: duration where "millisecond \<equiv> 1000000"
abbreviation second :: duration where "second \<equiv> 1000000000"
abbreviation minute :: duration where "minute \<equiv> 60000000000"
abbreviation hour :: duration where "hour \<equiv> 3600000000000"

text \<open>\<^verbatim>\<open>Time.Sub\<close> saturates at the bounds of the 64-bit \<^verbatim>\<open>Duration\<close>.\<close>

definition time_Sub :: "time \<Rightarrow> time \<Rightarrow> duration" where
  "time_Sub t u = max (- (2 ^ 63)) (min (2 ^ 63 - 1) (t - u))"

lemma time_Sub_gt: "- (2 ^ 63) \<le> d \<Longrightarrow> d < 2 ^ 63 - 1 \<Longrightarrow> d < time_Sub t u \<longleftrightarrow> d < t - u"
  by (auto simp: time_Sub_def)

end
