(* ===== verification/Go_Json.thy ===== *)
theory Go_Json
  imports Go_Lib
begin

text \<open>
  What the sources use of \<^verbatim>\<open>encoding/json\<close>. A marshalled document is kept as its tree: the
  byte text of a tree is not modelled. Marshalling fails where \<^verbatim>\<open>json.Marshal\<close> does: on a
  number that is not finite and on a time whose year is not between 0 and 9999.
\<close>

datatype json =
    JNull
  | JString string
  | JNumber rat
  | JTime time
  | JObject "(string \<times> json) list"

text \<open>The first instants of the years 0 and 10000.\<close>

definition json_min_time :: time where
  "json_min_time = - (366 * (24 * hour))"

definition json_max_time :: time where
  "json_max_time = 3652059 * (24 * hour)"

definition marshal_time :: "time \<Rightarrow> json option" where
  "marshal_time t = (if json_min_time \<le> t \<and> t < json_max_time then Some (JTime t) else None)"

fun marshal_time_ptr :: "time option \<Rightarrow> json option" where
  "marshal_time_ptr None = Some JNull"
| "marshal_time_ptr (Some t) = marshal_time t"

fun marshal_float :: "float64 \<Rightarrow> json option" where
  "marshal_float (Fin q) = Some (JNumber q)"
| "marshal_float _ = None"

text \<open>A field of an object, and the objects all of whose fields can be marshalled.\<close>

fun marshal_fields :: "(string \<times> json option) list \<Rightarrow> (string \<times> json) list option" where
  "marshal_fields [] = Some []"
| "marshal_fields ((k, v) # fs) =
     (case v of None \<Rightarrow> None
      | Some j \<Rightarrow> (case marshal_fields fs of None \<Rightarrow> None | Some js \<Rightarrow> Some ((k, j) # js)))"

definition marshal_object :: "(string \<times> json option) list \<Rightarrow> json option" where
  "marshal_object fs = map_option JObject (marshal_fields fs)"

text \<open>Unmarshalling into a struct field: an absent field or a null leaves the zero value, a
  value of another kind is an error.\<close>

definition field_string :: "string \<Rightarrow> (string \<times> json) list \<Rightarrow> string option" where
  "field_string k fs = (case map_of fs k of None \<Rightarrow> Some [] | Some JNull \<Rightarrow> Some []
     | Some (JString s) \<Rightarrow> Some s | _ \<Rightarrow> None)"

definition field_float :: "string \<Rightarrow> (string \<times> json) list \<Rightarrow> float64 option" where
  "field_float k fs = (case map_of fs k of None \<Rightarrow> Some (Fin 0) | Some JNull \<Rightarrow> Some (Fin 0)
     | Some (JNumber q) \<Rightarrow> Some (Fin q) | _ \<Rightarrow> None)"

definition field_time :: "string \<Rightarrow> (string \<times> json) list \<Rightarrow> time option" where
  "field_time k fs = (case map_of fs k of None \<Rightarrow> Some 0 | Some JNull \<Rightarrow> Some 0
     | Some (JTime t) \<Rightarrow> Some t | _ \<Rightarrow> None)"

definition field_time_ptr :: "string \<Rightarrow> (string \<times> json) list \<Rightarrow> time option option" where
  "field_time_ptr k fs = (case map_of fs k of None \<Rightarrow> Some None | Some JNull \<Rightarrow> Some None
     | Some (JTime t) \<Rightarrow> Some (Some t) | _ \<Rightarrow> None)"

lemmas field_defs = field_string_def field_float_def field_time_def field_time_ptr_def

end
