(* ===== verification/Domain.thy ===== *)
theory Domain
  imports Go_Json
begin

text \<open>
  The package \<^verbatim>\<open>internal/domain\<close>: orders and their status, the errors the program
  distinguishes, users, audit events and audit tasks. An error of the program is a value of
  \<open>goerror\<close>; \<open>errors_Is\<close> walks the chain of wrapped errors as
  \<^verbatim>\<open>errors.Is\<close> does, and a call that may dereference a nil pointer returns a
  value of \<open>go\<close>.
\<close>

section \<open>Errors\<close>

text \<open>
  The package-level error values, the struct error \<^verbatim>\<open>ErrUserDoesntOwnOrder\<close>, the
  errors of libraries (\<open>ErrNoRows\<close> is \<^verbatim>\<open>pgx.ErrNoRows\<close>, any other is known by
  its text only), and what \<^verbatim>\<open>fmt.Errorf\<close> makes of them: a new text, a wrapped error
  followed by a text, or a text followed by a wrapped error.
\<close>

datatype goerror =
    ErrExpiredOrder
  | ErrDuplicateOrder
  | ErrNotExpiredOrder
  | ErrNotFoundOrder
  | ErrNullOrderIDs
  | ErrNotStoredOrder
  | ErrNotIssuedOrder
  | ErrUserNoOrders
  | ErrUserNoActiveOrders
  | ErrRefundPeriodExpired
  | ErrInvalidWeight
  | ErrWrongJSON
  | ErrDatabase
  | ErrCache
  | ErrUserAlreadyExists
  | ErrInvalidCredentials
  | ErrEmptyPassword
  | ErrHashPassword
  | ErrTokenGeneration
  | ErrUserDoesntOwnOrder string string
  | ErrNoRows
  | ErrDriver string
  | ErrText string
  | WrapSuf goerror string
  | WrapPre string goerror

datatype 'a go = Ret 'a | Panic

definition unwrap :: "goerror \<Rightarrow> goerror option" where
  "unwrap e = (case e of WrapSuf e' _ \<Rightarrow> Some e' | WrapPre _ e' \<Rightarrow> Some e' | _ \<Rightarrow> None)"

lemma unwrap_size [termination_simp]: "unwrap e = Some e' \<Longrightarrow> size e' < size e"
  by (auto simp: unwrap_def split: goerror.splits)

fun errors_Is :: "goerror \<Rightarrow> goerror \<Rightarrow> bool" where
  "errors_Is e t = (e = t \<or> (case unwrap e of None \<Rightarrow> False | Some e' \<Rightarrow> errors_Is e' t))"

declare errors_Is.simps [simp del]

text \<open>The texts of the error values of \<^verbatim>\<open>order.go\<close> and of \<^verbatim>\<open>auth.go\<close>, by code points.\<close>

definition order_error_text :: "goerror \<Rightarrow> string option" where
  "order_error_text e = (case e of
       ErrExpiredOrder \<Rightarrow> Some (u8 [1089, 1088, 1086, 1082, 32, 1093, 1088, 1072, 1085,
      1077, 1085, 1080, 1103, 32, 1079, 1072, 1082, 1072, 1079, 1072, 32, 1091, 1078, 1077, 32,
      1087, 1088, 1086, 1096, 1077, 1083])
     | ErrDuplicateOrder \<Rightarrow> Some (u8 [1079, 1072, 1082, 1072, 1079, 32, 1089, 32, 1090,
      1072, 1082, 1080, 1084, 32, 73, 68, 32, 1091, 1078, 1077, 32, 1077, 1089, 1090, 1100])
     | ErrNotExpiredOrder \<Rightarrow> Some (u8 [1091, 32, 1101, 1090, 1086, 1075, 1086, 32, 1079,
      1072, 1082, 1072, 1079, 1072, 32, 1077, 1097, 1077, 32, 1085, 1077, 32, 1080, 1089, 1090,
      1077, 1082, 32, 1089, 1088, 1086, 1082, 32, 1093, 1088, 1072, 1085, 1077, 1085, 1080,
      1103])
     | ErrNotFoundOrder \<Rightarrow> Some (u8 [1079, 1072, 1082, 1072, 1079, 1072, 32, 1089, 32, 1090,
      1072, 1082, 1080, 1084, 32, 73, 68, 32, 1085, 1077, 32, 1089, 1091, 1097, 1077, 1089,
      1090, 1074, 1091, 1077, 1090])
     | ErrNullOrderIDs \<Rightarrow> Some (u8 [1089, 1087, 1080, 1089, 1086, 1082, 32, 105, 100, 32,
      1079, 1072, 1082, 1072, 1079, 1086, 1074, 32, 1087, 1091, 1089, 1090])
     | ErrNotStoredOrder \<Rightarrow> Some (u8 [1079, 1072, 1082, 1072, 1079, 1072, 32, 1085, 1077,
      1090, 32, 1085, 1072, 32, 1089, 1082, 1083, 1072, 1076, 1077])
     | ErrNotIssuedOrder \<Rightarrow> Some (u8 [1079, 1072, 1082, 1072, 1079, 32, 1077, 1097, 1105,
      32, 1085, 1077, 32, 1073, 1099, 1083, 32, 1074, 1099, 1076, 1072, 1085])
     | ErrUserNoOrders \<Rightarrow> Some (u8 [1074, 1074, 1077, 1076, 1077, 1085, 1085, 1099, 1077,
      32, 1079, 1072, 1082, 1072, 1079, 1099, 32, 1085, 1077, 32, 1075, 1086, 1090, 1086, 1074,
      1099, 32, 1082, 32, 1074, 1099, 1076, 1072, 1095, 1077, 32, 1080, 1083, 1080, 32, 1074,
      1086, 1079, 1074, 1088, 1072, 1090, 1091])
     | ErrUserNoActiveOrders \<Rightarrow> Some (u8 [1091, 32, 1087, 1086, 1083, 1100, 1079, 1086,
      1074, 1072, 1090, 1077, 1083, 1103, 32, 1085, 1077, 1090, 32, 1072, 1082, 1090, 1080,
      1074, 1085, 1099, 1093, 32, 1079, 1072, 1082, 1072, 1079, 1086, 1074])
     | ErrRefundPeriodExpired \<Rightarrow> Some (u8 [1087, 1088, 1086, 1096, 1083, 1086, 32, 52, 56,
      32, 1089, 1091, 1090, 1086, 1082, 32, 1089, 32, 1084, 1086, 1084, 1077, 1085, 1090, 1072,
      32, 1074, 1099, 1076, 1072, 1095, 1080, 32, 1079, 1072, 1082, 1072, 1079, 1072])
     | ErrInvalidWeight \<Rightarrow> Some (u8 [1089, 1083, 1080, 1096, 1082, 1086, 1084, 32, 1073,
      1086, 1083, 1100, 1096, 1086, 1081, 32, 1074, 1077, 1089, 32, 1076, 1083, 1103, 32, 1101,
      1090, 1086, 1081, 32, 1091, 1087, 1072, 1082, 1086, 1074, 1082, 1080])
     | ErrWrongJSON \<Rightarrow> Some (u8 [1090, 1077, 1083, 1086, 32, 1079, 1072, 1087, 1088, 1086,
      1089, 1072, 32, 1089, 1086, 1076, 1077, 1088, 1078, 1080, 1090, 32, 1086, 1096, 1080,
      1073, 1082, 1080])
     | ErrDatabase \<Rightarrow> Some (u8 [1086, 1096, 1080, 1073, 1082, 1072, 32, 1073, 1072, 1079,
      1099, 32, 1076, 1072, 1085, 1085, 1099, 1093])
     | ErrCache \<Rightarrow> Some (u8 [1086, 1096, 1080, 1073, 1082, 1072, 32, 1082, 1101, 1096,
      1072])
     | ErrUserDoesntOwnOrder orderID userID \<Rightarrow> Some (u8 [1047, 1072, 1082, 1072, 1079, 32] @
      orderID @ u8 [32, 1085, 1077, 32, 1087, 1088, 1080, 1085, 1072, 1076, 1083, 1077, 1078,
      1080, 1090, 32, 1087, 1086, 1083, 1100, 1079, 1086, 1074, 1072, 1090, 1077, 1083, 1102,
      32] @ userID)
     | _ \<Rightarrow> None)"

definition auth_error_text :: "goerror \<Rightarrow> string option" where
  "auth_error_text e = (case e of
       ErrUserAlreadyExists \<Rightarrow> Some (u8 [1087, 1086, 1083, 1100, 1079, 1086, 1074, 1072,
      1090, 1077, 1083, 1100, 32, 1089, 32, 1090, 1072, 1082, 1080, 1084, 32, 101, 109, 97, 105,
      108, 32, 1091, 1078, 1077, 32, 1079, 1072, 1088, 1077, 1075, 1080, 1089, 1090, 1088, 1080,
      1088, 1086, 1074, 1072, 1085])
     | ErrInvalidCredentials \<Rightarrow> Some (u8 [101, 109, 97, 105, 108, 32, 1080, 1083, 1080, 32,
      1087, 1072, 1088, 1086, 1083, 1100, 32, 1085, 1077, 1074, 1077, 1088, 1085, 1099])
     | ErrEmptyPassword \<Rightarrow> Some (u8 [1087, 1072, 1088, 1086, 1083, 1100, 32, 1085, 1077, 32,
      1084, 1086, 1078, 1077, 1090, 32, 1073, 1099, 1090, 1100, 32, 1087, 1091, 1089, 1090,
      1099, 1084])
     | ErrHashPassword \<Rightarrow> Some (u8 [1086, 1096, 1080, 1073, 1082, 1072, 32, 1093, 1077,
      1096, 1080, 1088, 1086, 1074, 1072, 1085, 1080, 1103, 32, 1087, 1072, 1088, 1086, 1083,
      1103])
     | ErrTokenGeneration \<Rightarrow> Some (u8 [1086, 1096, 1080, 1073, 1082, 1072, 32, 1075, 1077,
      1085, 1077, 1088, 1072, 1094, 1080, 1080, 32, 1090, 1086, 1082, 1077, 1085, 1072])
     | _ \<Rightarrow> None)"

text \<open>The method \<^verbatim>\<open>Error()\<close> of an error value.\<close>

fun Error :: "goerror \<Rightarrow> string" where
  "Error e = (case e of
       ErrNoRows \<Rightarrow> ''no rows in result set''
     | ErrDriver s \<Rightarrow> s
     | ErrText s \<Rightarrow> s
     | WrapSuf e' s \<Rightarrow> Error e' @ '': '' @ s
     | WrapPre s e' \<Rightarrow> s @ '': '' @ Error e'
     | _ \<Rightarrow> (case order_error_text e of Some s \<Rightarrow> s
               | None \<Rightarrow> (case auth_error_text e of Some s \<Rightarrow> s | None \<Rightarrow> [])))"

declare Error.simps [simp del]

section \<open>Orders\<close>

text \<open>
  \<^verbatim>\<open>OrderStatus\<close> is a string type with three constants; \<open>StatusNone\<close> is its zero
  value, the empty string. A \<^verbatim>\<open>*time.Time\<close> is an optional time.
\<close>

datatype order_status = StatusNone | StatusStored | StatusIssued | StatusRefunded

fun status_string :: "order_status \<Rightarrow> string" where
  "status_string StatusNone = []"
| "status_string StatusStored = ''stored''"
| "status_string StatusIssued = ''issued''"
| "status_string StatusRefunded = ''refunded''"

record order =
  ID :: string
  RecipientID :: string
  Expiry :: time
  StoredAt :: "time option"
  IssuedAt :: "time option"
  RefundedAt :: "time option"
  BasePrice :: float64
  PackagePrice :: float64
  Weight :: float64
  Packaging :: string

record processed_orders =
  UserID :: string
  OrderIDs :: "string list"
  Failed :: "string list"
  ProcError :: "goerror option"

definition Status :: "order \<Rightarrow> order_status" where
  "Status o1 =
     (let latestTime = 0; status = StatusNone;
          (latestTime, status) =
            (case RefundedAt o1 of
               Some t \<Rightarrow> if t > latestTime then (t, StatusRefunded) else (latestTime, status)
             | None \<Rightarrow> (latestTime, status));
          (latestTime, status) =
            (case IssuedAt o1 of
               Some t \<Rightarrow> if t > latestTime then (t, StatusIssued) else (latestTime, status)
             | None \<Rightarrow> (latestTime, status));
          status =
            (case StoredAt o1 of
               Some t \<Rightarrow> if t > latestTime then StatusStored else status
             | None \<Rightarrow> status)
      in status)"

definition LastUpdated :: "order \<Rightarrow> time" where
  "LastUpdated o1 =
     (let times = (case StoredAt o1 of Some t \<Rightarrow> [t] | None \<Rightarrow> [])
                @ (case IssuedAt o1 of Some t \<Rightarrow> [t] | None \<Rightarrow> [])
                @ (case RefundedAt o1 of Some t \<Rightarrow> [t] | None \<Rightarrow> [])
      in case times of
           [] \<Rightarrow> 0
         | t0 # ts \<Rightarrow> fold (\<lambda>t maxTime. if t > maxTime then t else maxTime) ts t0)"

section \<open>Users, audit events and audit tasks\<close>

record user =
  Email :: string
  Password :: string

definition JwtSecret :: string where
  "JwtSecret = ''OZONROUTE256GOJUNIOR''"

definition TokenExpiration :: duration where
  "TokenExpiration = 24 * hour"

datatype event_type = EventStatusChange | EventAPIRequest | EventAPIResponse

datatype task_status =
  StatusCreated | StatusProcessing | StatusFailed | StatusNoAttemptsLeft | StatusFinished

text \<open>
  The dynamic values the program puts into an event's \<^verbatim>\<open>map[string]any\<close>: strings, numbers
  and order statuses, which are of another dynamic type than \<^verbatim>\<open>string\<close>.
\<close>

datatype any = AnyString string | AnyInt int | AnyStatus order_status

record event =
  EvType :: event_type
  EvData :: "(string \<times> any) list"
  EvTime :: time

record audit_task =
  TaskID :: int
  AuditLog :: json
  TaskStatus :: task_status
  AttemptNumber :: int
  CreatedAt :: time
  UpdatedAt :: time
  FinishedAt :: time
  NextRetry :: time

definition NewEvent :: "event_type \<Rightarrow> (string \<times> any) list \<Rightarrow> time \<Rightarrow> event" where
  "NewEvent t data now = \<lparr>EvType = t, EvData = data, EvTime = now\<rparr>"

section \<open>The status as a point of the life cycle\<close>

text \<open>The order of the life cycle: no status, stored, issued, refunded.\<close>

fun status_rank :: "order_status \<Rightarrow> nat" where
  "status_rank StatusNone = 0"
| "status_rank StatusStored = 1"
| "status_rank StatusIssued = 2"
| "status_rank StatusRefunded = 3"

lemma status_rank_inj: "status_rank a = status_rank b \<Longrightarrow> a = b"
  by (cases a; cases b) auto

instantiation order_status :: linorder
begin

definition less_eq_order_status :: "order_status \<Rightarrow> order_status \<Rightarrow> bool" where
  "less_eq_order_status a b \<longleftrightarrow> status_rank a \<le> status_rank b"

definition less_order_status :: "order_status \<Rightarrow> order_status \<Rightarrow> bool" where
  "less_order_status a b \<longleftrightarrow> status_rank a < status_rank b"

instance
  by standard (auto simp: less_eq_order_status_def less_order_status_def dest: status_rank_inj)

end

text \<open>
  The time line of an order: the time stamps are after Go's zero time, an issued order was
  stored before, a refunded order was issued before, and no step precedes the one before it.
\<close>

definition timeline :: "order \<Rightarrow> bool" where
  "timeline o1 \<longleftrightarrow>
     (case StoredAt o1 of
        None \<Rightarrow> False
      | Some s \<Rightarrow> 0 < s \<and>
          (case IssuedAt o1 of
             None \<Rightarrow> RefundedAt o1 = None
           | Some i \<Rightarrow> s \<le> i \<and> (case RefundedAt o1 of None \<Rightarrow> True | Some r \<Rightarrow> i \<le> r)))"

lemma Status_timeline:
  assumes "timeline o1"
  shows "Status o1 =
    (if RefundedAt o1 \<noteq> None then StatusRefunded
     else if IssuedAt o1 \<noteq> None then StatusIssued else StatusStored)"
  using assms by (auto simp: timeline_def Status_def Let_def split: option.splits)

lemma Status_stored_only:
  "Status o1 = StatusStored \<Longrightarrow> \<exists>t > 0. StoredAt o1 = Some t"
  by (auto simp: Status_def Let_def split: option.splits if_splits)

lemma Status_issued_only:
  "Status o1 = StatusIssued \<Longrightarrow> \<exists>t > 0. IssuedAt o1 = Some t"
  by (auto simp: Status_def Let_def split: option.splits if_splits)

text \<open>What SQL computes as the greatest of the three columns, null counting as year 1.\<close>

definition greatest3 :: "time option \<Rightarrow> time option \<Rightarrow> time option \<Rightarrow> time" where
  "greatest3 a b c =
     max (case a of None \<Rightarrow> 0 | Some t \<Rightarrow> t)
       (max (case b of None \<Rightarrow> 0 | Some t \<Rightarrow> t) (case c of None \<Rightarrow> 0 | Some t \<Rightarrow> t))"

lemma LastUpdated_greatest3:
  assumes "\<And>t. StoredAt o1 = Some t \<Longrightarrow> 0 \<le> t" "\<And>t. IssuedAt o1 = Some t \<Longrightarrow> 0 \<le> t"
    "\<And>t. RefundedAt o1 = Some t \<Longrightarrow> 0 \<le> t"
  shows "LastUpdated o1 = greatest3 (StoredAt o1) (IssuedAt o1) (RefundedAt o1)"
  using assms
  by (auto simp: LastUpdated_def greatest3_def max_def split: option.splits)

section \<open>Facts about errors\<close>

lemma errors_Is_refl [simp]: "errors_Is e e"
  by (simp add: errors_Is.simps)

lemma errors_Is_WrapSuf [simp]:
  "errors_Is (WrapSuf e s) t \<longleftrightarrow> WrapSuf e s = t \<or> errors_Is e t"
  by (simp add: errors_Is.simps [of "WrapSuf e s"] unwrap_def)

lemma errors_Is_WrapPre [simp]:
  "errors_Is (WrapPre s e) t \<longleftrightarrow> WrapPre s e = t \<or> errors_Is e t"
  by (simp add: errors_Is.simps [of "WrapPre s e"] unwrap_def)

lemma errors_Is_flat: "unwrap e = None \<Longrightarrow> errors_Is e t \<longleftrightarrow> e = t"
  by (simp add: errors_Is.simps [of e])

lemma unwrap_simps [simp]:
  "unwrap ErrDatabase = None" "unwrap ErrNotFoundOrder = None" "unwrap ErrNoRows = None"
  "unwrap (ErrDriver s) = None" "unwrap (ErrText s) = None" "unwrap ErrInvalidCredentials = None"
  "unwrap ErrDuplicateOrder = None" "unwrap ErrInvalidWeight = None" "unwrap ErrExpiredOrder = None"
  by (simp_all add: unwrap_def)

end
