(* ===== verification/Pg.thy ===== *)
theory Pg
  imports Domain
begin

text \<open>
  The database as the storage packages use it: the tables the migrations create, and what one
  round trip to the server can do. The SQL statements of the sources are translated where they
  stand, in the theories of the storage packages; this theory holds the state they work on.

  The server itself is not part of the program. What it may do beyond executing a statement is
  a parameter: \<open>script\<close> says, round trip by round trip, whether the server answers, refuses
  with an error, or breaks off a result after some rows; and \<open>pg_env\<close> holds how it
  rounds \<^verbatim>\<open>TIMESTAMP\<close> and \<^verbatim>\<open>NUMERIC(10, 2)\<close> values and in which order it
  returns rows nobody asked it to sort. A theorem that holds for every script holds for every
  pattern of failures.
\<close>

section \<open>Tables\<close>

record order_row =
  row_id :: int
  order_id :: string
  recipient_id :: string
  expiry :: time
  stored_at :: "time option"
  issued_at :: "time option"
  refunded_at :: "time option"
  base_price :: float64
  weight :: float64
  packaging :: string

record task_row =
  task_id :: int
  audit_log :: json
  task_state :: task_status
  attempt_number :: int
  created_at :: time
  updated_at :: time
  finished_at :: "time option"
  next_retry :: "time option"

datatype reply = Done | Refused string | CutShort nat string

record pg =
  orders :: "order_row list"
  orders_id_seq :: int
  packaging_types :: "(string \<times> float64) list"
  users :: "(string \<times> string) list"
  audit_tasks :: "task_row list"
  tasks_id_seq :: int
  script :: "reply list"

record pg_env =
  pg_timestamp :: "time \<Rightarrow> time"
  pg_numeric :: "float64 \<Rightarrow> float64"
  scan_orders :: "order_row list \<Rightarrow> order_row list"
  scan_tasks :: "task_row list \<Rightarrow> task_row list"

text \<open>
  What is documented of the server: a time stamp keeps the microseconds of a time, and a scan
  returns every row of a table once, in some order.
\<close>

definition pg_env_ok :: "pg_env \<Rightarrow> bool" where
  "pg_env_ok E \<longleftrightarrow>
     (\<forall>t. pg_timestamp E t = t - t mod 1000) \<and>
     (\<forall>rows. mset (scan_orders E rows) = mset rows) \<and>
     (\<forall>rows. mset (scan_tasks E rows) = mset rows)"

section \<open>Round trips and transactions\<close>

text \<open>The next reply of the script, and a statement that returns no rows.\<close>

definition next_reply :: "pg \<Rightarrow> reply \<times> pg" where
  "next_reply w = (case script w of [] \<Rightarrow> (Done, w) | r # rs \<Rightarrow> (r, w\<lparr>script := rs\<rparr>))"

definition db_call :: "pg \<Rightarrow> goerror option \<times> pg" where
  "db_call w = (case next_reply w of
      (Done, w') \<Rightarrow> (None, w')
    | (Refused s, w') \<Rightarrow> (Some (ErrDriver s), w')
    | (CutShort _ s, w') \<Rightarrow> (Some (ErrDriver s), w'))"

text \<open>
  A query for rows. \<^verbatim>\<open>Query\<close> either fails at once (\<open>Inl\<close>) or gives the rows that
  arrive and what \<^verbatim>\<open>rows.Err()\<close> then reports.
\<close>

definition db_query :: "'a list \<Rightarrow> pg \<Rightarrow> (goerror + 'a list \<times> goerror option) \<times> pg" where
  "db_query rows w = (case next_reply w of
      (Done, w') \<Rightarrow> (Inr (rows, None), w')
    | (Refused s, w') \<Rightarrow> (Inl (ErrDriver s), w')
    | (CutShort n s, w') \<Rightarrow> (Inr (take n rows, Some (ErrDriver s)), w'))"

text \<open>
  The end of a transaction that began in \<open>w0\<close>. A rollback restores the tables but not the
  sequences, which PostgreSQL never rolls back; a commit the server refuses is a rollback.
\<close>

definition rollback :: "pg \<Rightarrow> pg \<Rightarrow> pg" where
  "rollback w0 w = w0\<lparr>orders_id_seq := orders_id_seq w, tasks_id_seq := tasks_id_seq w, script := script w\<rparr>"

definition commit :: "pg \<Rightarrow> pg \<Rightarrow> goerror option \<times> pg" where
  "commit w0 w = (case db_call w of
      (None, w') \<Rightarrow> (None, w')
    | (Some e, w') \<Rightarrow> (Some e, rollback w0 w'))"

section \<open>Column types\<close>

text \<open>
  The length of a \<^verbatim>\<open>VARCHAR\<close> value counts characters, that is the bytes of its UTF-8 text
  that do not continue a character. A \<^verbatim>\<open>NUMERIC(10, 2)\<close> column takes what is below
  \<open>10 ^ 8\<close> after rounding, and no infinity.
\<close>

definition char_length :: "string \<Rightarrow> nat" where
  "char_length s = length (filter (\<lambda>c. of_char c div 64 \<noteq> (2 :: nat)) s)"

definition numeric_fits :: "pg_env \<Rightarrow> float64 \<Rightarrow> bool" where
  "numeric_fits E x = (case pg_numeric E x of Fin q \<Rightarrow> \<bar>q\<bar> < 10 ^ 8 | NaN \<Rightarrow> True | _ \<Rightarrow> False)"

section \<open>Facts\<close>

lemma next_reply_frame [frame_simps]:
  "orders (snd (next_reply w)) = orders w"
  "orders_id_seq (snd (next_reply w)) = orders_id_seq w"
  "packaging_types (snd (next_reply w)) = packaging_types w"
  "users (snd (next_reply w)) = users w"
  "audit_tasks (snd (next_reply w)) = audit_tasks w"
  "tasks_id_seq (snd (next_reply w)) = tasks_id_seq w"
  by (auto simp: next_reply_def split: list.splits)

text \<open>Only the script changes in a bare round trip.\<close>

definition same_tables :: "pg \<Rightarrow> pg \<Rightarrow> bool" where
  "same_tables w w' \<longleftrightarrow> orders w' = orders w \<and> packaging_types w' = packaging_types w \<and>
     users w' = users w \<and> audit_tasks w' = audit_tasks w"

lemma same_tables_refl [simp]: "same_tables w w"
  by (simp add: same_tables_def)

lemma same_tables_trans [trans]: "same_tables a b \<Longrightarrow> same_tables b c \<Longrightarrow> same_tables a c"
  by (simp add: same_tables_def)

lemma same_tables_rollback [simp]: "same_tables w0 (rollback w0 w)"
  by (simp add: same_tables_def rollback_def)

lemma rollback_frame [frame_simps]:
  "orders (rollback w0 w) = orders w0" "packaging_types (rollback w0 w) = packaging_types w0"
  "users (rollback w0 w) = users w0" "audit_tasks (rollback w0 w) = audit_tasks w0"
  "orders_id_seq (rollback w0 w) = orders_id_seq w" "tasks_id_seq (rollback w0 w) = tasks_id_seq w"
  by (simp_all add: rollback_def)

lemma db_call_frame:
  assumes "db_call w = (r, w')"
  shows "orders w' = orders w" "packaging_types w' = packaging_types w" "users w' = users w"
    "audit_tasks w' = audit_tasks w" "orders_id_seq w' = orders_id_seq w"
    "tasks_id_seq w' = tasks_id_seq w"
  using assms
  by (auto simp: db_call_def next_reply_def split: list.splits reply.splits)

lemma db_call_same: "db_call w = (r, w') \<Longrightarrow> same_tables w w'"
  by (simp add: same_tables_def db_call_frame)

lemma db_query_frame:
  assumes "db_query rows w = (r, w')"
  shows "orders w' = orders w" "packaging_types w' = packaging_types w" "users w' = users w"
    "audit_tasks w' = audit_tasks w" "orders_id_seq w' = orders_id_seq w"
    "tasks_id_seq w' = tasks_id_seq w"
  using assms
  by (auto simp: db_query_def next_reply_def split: list.splits reply.splits)

lemma db_query_same: "db_query rows w = (r, w') \<Longrightarrow> same_tables w w'"
  by (simp add: same_tables_def db_query_frame)

lemma db_query_prefix: "db_query rows w = (Inr (rs, e), w') \<Longrightarrow> \<exists>n. rs = take n rows"
proof -
  assume "db_query rows w = (Inr (rs, e), w')"
  then have "rs = rows \<or> (\<exists>n. rs = take n rows)"
    by (auto simp: db_query_def split: prod.splits reply.splits)
  then show ?thesis by (metis take_all order_refl)
qed

lemma db_call_no_faults [pg_simps]: "script w = [] \<Longrightarrow> db_call w = (None, w)"
  by (simp add: db_call_def next_reply_def)

lemma db_query_no_faults [pg_simps]: "script w = [] \<Longrightarrow> db_query rows w = (Inr (rows, None), w)"
  by (simp add: db_query_def next_reply_def)

lemma commit_no_faults [pg_simps]: "script w = [] \<Longrightarrow> commit w0 w = (None, w)"
  by (simp add: commit_def pg_simps)

lemma commit_None: "commit w0 w = (None, w') \<Longrightarrow> db_call w = (None, w')"
  by (auto simp: commit_def split: prod.splits option.splits)

lemma commit_Some: "commit w0 w = (Some e, w') \<Longrightarrow> same_tables w0 w'"
  by (auto simp: commit_def split: prod.splits option.splits)

lemma commit_seq:
  "commit w0 w = (r, w') \<Longrightarrow> orders_id_seq w' = orders_id_seq w \<and> tasks_id_seq w' = tasks_id_seq w"
proof (cases "db_call w")
  case (Pair q w1)
  assume "commit w0 w = (r, w')"
  with Pair have "w' = w1 \<or> w' = rollback w0 w1"
    by (auto simp: commit_def split: option.splits)
  with db_call_frame(5,6) [OF Pair] show ?thesis by (auto simp: rollback_def)
qed

lemma db_call_driver: "db_call w = (Some e, w') \<Longrightarrow> \<exists>s. e = ErrDriver s"
  by (auto simp: db_call_def split: prod.splits reply.splits)

lemma commit_driver: "commit w0 w = (Some e, w') \<Longrightarrow> \<exists>s. e = ErrDriver s"
  by (auto simp: commit_def dest: db_call_driver split: prod.splits option.splits)

lemma pg_timestamp_props:
  assumes "pg_env_ok E"
  shows "s \<le> t \<Longrightarrow> pg_timestamp E s \<le> pg_timestamp E t"
    and "pg_timestamp E (pg_timestamp E t) = pg_timestamp E t"
    and "1000 \<le> t \<Longrightarrow> 0 < pg_timestamp E t"
    and "pg_timestamp E t \<le> t"
proof -
  have eq: "pg_timestamp E x = 1000 * (x div 1000)" for x
    using assms by (simp add: pg_env_ok_def minus_mod_eq_mult_div)
  show "s \<le> t \<Longrightarrow> pg_timestamp E s \<le> pg_timestamp E t"
    by (simp add: eq zdiv_mono1)
  show "pg_timestamp E (pg_timestamp E t) = pg_timestamp E t" by (simp add: eq)
  show "1000 \<le> t \<Longrightarrow> 0 < pg_timestamp E t" 
    using zdiv_mono1 [of 1000 t 1000] by (simp add: eq)
  show "pg_timestamp E t \<le> t"
    using assms pos_mod_sign [of 1000 t] by (simp add: pg_env_ok_def)
qed

section \<open>A sample server\<close>

text \<open>An environment that meets \<open>pg_env_ok\<close>, and a database with empty tables.\<close>

definition sample_env :: pg_env where
  "sample_env = \<lparr>pg_timestamp = (\<lambda>t. t - t mod 1000), pg_numeric = (\<lambda>x. x),
     scan_orders = rev, scan_tasks = rev\<rparr>"

definition sample_db :: pg where
  "sample_db = \<lparr>orders = [], orders_id_seq = 1, packaging_types = [], users = [], audit_tasks = [],
     tasks_id_seq = 1, script = []\<rparr>"

lemma sample_env_ok [simp]: "pg_env_ok sample_env"
  by (simp add: pg_env_ok_def sample_env_def)

end
