(* ===== verification/Order_Storage.thy ===== *)
theory Order_Storage
  imports Pg
begin

text \<open>
  The interface \<^verbatim>\<open>storage.OrderStorage\<close> and its PostgreSQL implementation
  \<^verbatim>\<open>internal/storage/postgres/orderstorage\<close>, with \<^verbatim>\<open>storageutils.ScanOrder\<close>.
  A Go interface is a record of its methods; what its users rely on is the locale
  \<open>order_store\<close>: a store is a finite map from order ids to orders, and every method
  reads or changes that map in one step or leaves it alone. The PostgreSQL implementation is
  shown to be such a store under every pattern of server failures.
\<close>

section \<open>The interface\<close>

record 'w order_storage =
  os_SaveOrder :: "order \<Rightarrow> 'w \<Rightarrow> goerror option \<times> 'w"
  os_FindOrderByID :: "string \<Rightarrow> 'w \<Rightarrow> (goerror + order) \<times> 'w"
  os_FindOrdersByIDs :: "string list \<Rightarrow> 'w \<Rightarrow> (goerror + order list) \<times> 'w"
  os_DeleteOrder :: "string \<Rightarrow> 'w \<Rightarrow> goerror option \<times> 'w"

section \<open>Reading a row\<close>

text \<open>\<^verbatim>\<open>QueryRow\<close>: the first row of the result, or \<^verbatim>\<open>pgx.ErrNoRows\<close>.\<close>

definition query_row :: "'a list \<Rightarrow> pg \<Rightarrow> (goerror + 'a) \<times> pg" where
  "query_row rows w = (case db_call w of
      (Some e, w') \<Rightarrow> (Inl e, w')
    | (None, w') \<Rightarrow> (case rows of [] \<Rightarrow> (Inl ErrNoRows, w') | r # _ \<Rightarrow> (Inr r, w')))"

definition scan_error_text :: string where
  "scan_error_text = u8 [1085, 1077, 32, 1089, 1084, 1086, 1075, 32, 1086, 1090, 1089, 1082, 1072, 1085, 1080,
     1090, 1100, 32, 1079, 1072, 1082, 1072, 1079]"

text \<open>The nine columns of a row, in the order of the scan; no query reads the package price.\<close>

definition row_order :: "order_row \<Rightarrow> order" where
  "row_order r = \<lparr>ID = order_id r, RecipientID = recipient_id r, Expiry = expiry r,
     StoredAt = stored_at r, IssuedAt = issued_at r, RefundedAt = refunded_at r,
     BasePrice = base_price r, PackagePrice = Fin 0, Weight = weight r, Packaging = packaging r\<rparr>"

fun ScanOrder :: "goerror + order_row \<Rightarrow> goerror + order" where
  "ScanOrder (Inl e) =
     (if errors_Is e ErrNoRows then Inl ErrNotFoundOrder else Inl (WrapPre scan_error_text e))"
| "ScanOrder (Inr r) = Inr (row_order r)"

section \<open>Statements on the table of orders\<close>

text \<open>The limits of the columns: \<^verbatim>\<open>packaging_types.id VARCHAR(36)\<close>,
  \<^verbatim>\<open>orders.packaging VARCHAR(50)\<close>, ids of 36 characters.\<close>

definition packaging_fits :: "pg_env \<Rightarrow> string \<Rightarrow> float64 \<Rightarrow> bool" where
  "packaging_fits E i price \<longleftrightarrow> char_length i \<le> 36 \<and> numeric_fits E price"

definition order_fits :: "pg_env \<Rightarrow> order \<Rightarrow> bool" where
  "order_fits E o1 \<longleftrightarrow> char_length (ID o1) \<le> 36 \<and> char_length (RecipientID o1) \<le> 36 \<and>
     numeric_fits E (BasePrice o1) \<and> numeric_fits E (Weight o1) \<and> char_length (Packaging o1) \<le> 50"

definition too_long :: goerror where
  "too_long = ErrDriver ''value does not fit the column''"

definition insert_packaging :: "pg_env \<Rightarrow> string \<Rightarrow> float64 \<Rightarrow> pg \<Rightarrow> goerror option \<times> pg" where
  "insert_packaging E i price w = (case db_call w of
      (Some e, w') \<Rightarrow> (Some e, w')
    | (None, w') \<Rightarrow>
        (if \<not> packaging_fits E i price then (Some too_long, w')
         else if i \<in> fst ` set (packaging_types w') then (None, w')
         else (None, w'\<lparr>packaging_types := packaging_types w' @ [(i, pg_numeric E price)]\<rparr>)))"

text \<open>
  The new row takes the next number of the sequence, which stays taken if the unique index on
  the order id or the foreign key on the packaging then refuses the row.
\<close>

definition new_row :: "pg_env \<Rightarrow> int \<Rightarrow> order \<Rightarrow> order_row" where
  "new_row E n o1 = \<lparr>row_id = n, order_id = ID o1, recipient_id = RecipientID o1,
     expiry = pg_timestamp E (Expiry o1), stored_at = map_option (pg_timestamp E) (StoredAt o1),
     issued_at = map_option (pg_timestamp E) (IssuedAt o1),
     refunded_at = map_option (pg_timestamp E) (RefundedAt o1),
     base_price = pg_numeric E (BasePrice o1), weight = pg_numeric E (Weight o1),
     packaging = Packaging o1\<rparr>"

definition insert_order :: "pg_env \<Rightarrow> order \<Rightarrow> pg \<Rightarrow> goerror option \<times> pg" where
  "insert_order E o1 w = (case db_call w of
      (Some e, w') \<Rightarrow> (Some e, w')
    | (None, w1) \<Rightarrow>
        (if \<not> order_fits E o1 then (Some too_long, w1)
         else
           (let n = orders_id_seq w1; w2 = w1\<lparr>orders_id_seq := n + 1\<rparr>
            in if ID o1 \<in> order_id ` set (orders w2)
               then (Some (ErrDriver ''duplicate key value violates unique constraint''), w2)
               else if Packaging o1 \<notin> fst ` set (packaging_types w2)
               then (Some (ErrDriver ''insert violates foreign key constraint''), w2)
               else (None, w2\<lparr>orders := orders w2 @ [new_row E n o1]\<rparr>))))"

definition delete_order :: "string \<Rightarrow> pg \<Rightarrow> (goerror + nat) \<times> pg" where
  "delete_order i w = (case db_call w of
      (Some e, w') \<Rightarrow> (Inl e, w')
    | (None, w') \<Rightarrow> (Inr (length (filter (\<lambda>r. order_id r = i) (orders w'))),
                     w'\<lparr>orders := filter (\<lambda>r. order_id r \<noteq> i) (orders w')\<rparr>))"

section \<open>The methods\<close>

definition OrderStorage_SaveOrder :: "pg_env \<Rightarrow> order \<Rightarrow> pg \<Rightarrow> goerror option \<times> pg" where
  "OrderStorage_SaveOrder E o1 w = (case db_call w of
      (Some e, w1) \<Rightarrow> (Some e, w1)
    | (None, w1) \<Rightarrow> (case insert_packaging E (Packaging o1) (PackagePrice o1) w1 of
        (Some e, w2) \<Rightarrow> (Some e, rollback w1 w2)
      | (None, w2) \<Rightarrow> (case insert_order E o1 w2 of
          (Some e, w3) \<Rightarrow> (Some e, rollback w1 w3)
        | (None, w3) \<Rightarrow> commit w1 w3)))"

definition OrderStorage_DeleteOrder :: "string \<Rightarrow> pg \<Rightarrow> goerror option \<times> pg" where
  "OrderStorage_DeleteOrder i w = (case db_call w of
      (Some e, w1) \<Rightarrow> (Some e, w1)
    | (None, w1) \<Rightarrow> (case delete_order i w1 of
        (Inl e, w2) \<Rightarrow> (Some e, rollback w1 w2)
      | (Inr rowsAffected, w2) \<Rightarrow>
          (if rowsAffected = 0 then (Some ErrNotFoundOrder, rollback w1 w2)
           else commit w1 w2)))"

definition OrderStorage_FindOrderByID :: "string \<Rightarrow> pg \<Rightarrow> (goerror + order) \<times> pg" where
  "OrderStorage_FindOrderByID i w =
     (let (row, w') = query_row (filter (\<lambda>r. order_id r = i) (orders w)) w
      in (ScanOrder row, w'))"

definition OrderStorage_FindOrdersByIDs ::
    "pg_env \<Rightarrow> string list \<Rightarrow> pg \<Rightarrow> (goerror + order list) \<times> pg" where
  "OrderStorage_FindOrdersByIDs E ids w =
     (case db_query (filter (\<lambda>r. order_id r \<in> set ids) (scan_orders E (orders w))) w of
        (Inl e, w') \<Rightarrow> (Inl e, w')
      | (Inr (rows, rowsErr), w') \<Rightarrow>
          (case rowsErr of
             Some e \<Rightarrow> (Inl e, w')
           | None \<Rightarrow> (Inr (map row_order rows), w')))"

definition pg_order_storage :: "pg_env \<Rightarrow> pg order_storage" where
  "pg_order_storage E = \<lparr>os_SaveOrder = OrderStorage_SaveOrder E,
     os_FindOrderByID = OrderStorage_FindOrderByID,
     os_FindOrdersByIDs = OrderStorage_FindOrdersByIDs E,
     os_DeleteOrder = OrderStorage_DeleteOrder\<rparr>"

section \<open>The contract\<close>

text \<open>
  A store holds orders by id (\<open>stored\<close>); an order is read back as \<open>kept\<close> says; the
  methods keep the state \<open>valid\<close>.
\<close>

locale order_store =
  fixes S :: "'w order_storage"
    and stored :: "'w \<Rightarrow> string \<Rightarrow> order option"
    and kept :: "order \<Rightarrow> order"
    and valid :: "'w \<Rightarrow> bool"
  assumes find_law: "valid w \<Longrightarrow> os_FindOrderByID S i w = (r, w') \<Longrightarrow>
      valid w' \<and> stored w' = stored w \<and>
      (case r of Inr o1 \<Rightarrow> stored w i = Some o1
       | Inl e \<Rightarrow> errors_Is e ErrNotFoundOrder \<longrightarrow> stored w i = None)"
    and stored_id: "stored w i = Some o1 \<Longrightarrow> ID o1 = i"
    and save_law: "valid w \<Longrightarrow> os_SaveOrder S o1 w = (q, w') \<Longrightarrow>
      valid w' \<and>
      (case q of None \<Rightarrow> stored w (ID o1) = None \<and> stored w' = (stored w)(ID o1 \<mapsto> kept o1)
       | Some e \<Rightarrow> stored w' = stored w)"
    and delete_law: "valid w \<Longrightarrow> os_DeleteOrder S i w = (q, w') \<Longrightarrow>
      valid w' \<and>
      (case q of None \<Rightarrow> stored w i \<noteq> None \<and> stored w' = (stored w)(i := None)
       | Some e \<Rightarrow> stored w' = stored w \<and> (errors_Is e ErrNotFoundOrder \<longrightarrow> stored w i = None))"

section \<open>The PostgreSQL store keeps it\<close>

definition stored_orders :: "pg \<Rightarrow> string \<Rightarrow> order option" where
  "stored_orders w i = map_option row_order (find (\<lambda>r. order_id r = i) (orders w))"

definition pg_kept :: "pg_env \<Rightarrow> order \<Rightarrow> order" where
  "pg_kept E o1 = o1\<lparr>Expiry := pg_timestamp E (Expiry o1),
     StoredAt := map_option (pg_timestamp E) (StoredAt o1),
     IssuedAt := map_option (pg_timestamp E) (IssuedAt o1),
     RefundedAt := map_option (pg_timestamp E) (RefundedAt o1),
     BasePrice := pg_numeric E (BasePrice o1), PackagePrice := Fin 0,
     Weight := pg_numeric E (Weight o1)\<rparr>"

text \<open>
  The invariant of the table: order ids and row numbers are unique, row numbers are below the
  sequence, and every packaging has its row in the table of packaging types.
\<close>

definition orders_ok :: "pg \<Rightarrow> bool" where
  "orders_ok w \<longleftrightarrow> distinct (map order_id (orders w)) \<and> distinct (map row_id (orders w)) \<and>
     (\<forall>r \<in> set (orders w). row_id r < orders_id_seq w \<and> packaging r \<in> fst ` set (packaging_types w))"

lemma row_order_new_row [simp]: "row_order (new_row E n o1) = pg_kept E o1"
  by (simp add: row_order_def new_row_def pg_kept_def)

lemma row_order_fields [simp]:
  "ID (row_order r) = order_id r" "RecipientID (row_order r) = recipient_id r"
  "Expiry (row_order r) = expiry r" "StoredAt (row_order r) = stored_at r"
  "IssuedAt (row_order r) = issued_at r" "RefundedAt (row_order r) = refunded_at r"
  by (simp_all add: row_order_def)

lemma new_row_fields [simp]:
  "order_id (new_row E n o1) = ID o1" "row_id (new_row E n o1) = n"
  "packaging (new_row E n o1) = Packaging o1"
  by (simp_all add: new_row_def)

lemma orders_ok_frame:
  assumes "same_tables w w'" and "orders_id_seq w \<le> orders_id_seq w'" and "orders_ok w"
  shows "orders_ok w'"
  using assms by (fastforce simp: orders_ok_def same_tables_def)

lemma stored_orders_frame: "same_tables w w' \<Longrightarrow> stored_orders w' = stored_orders w"
  by (simp add: stored_orders_def same_tables_def fun_eq_iff)

lemma stored_orders_None: "stored_orders w i = None \<longleftrightarrow> i \<notin> order_id ` set (orders w)"
  by (auto simp: stored_orders_def find_None_iff)

lemma stored_orders_rows:
  "orders_ok w \<Longrightarrow> r \<in> set (orders w) \<Longrightarrow> stored_orders w (order_id r) = Some (row_order r)"
  by (simp add: stored_orders_def orders_ok_def find_distinct_key)

lemma stored_orders_Some:
  "stored_orders w i = Some o1 \<Longrightarrow> \<exists>r \<in> set (orders w). order_id r = i \<and> o1 = row_order r"
  by (auto simp: stored_orders_def dest: find_SomeD)

lemma stored_orders_append:
  assumes "orders w' = orders w @ [r]" and "order_id r \<notin> order_id ` set (orders w)"
  shows "stored_orders w' = (stored_orders w)(order_id r \<mapsto> row_order r)"
proof -
  from assms(2) have "find (\<lambda>x. order_id x = order_id r) (orders w) = None"
    by (auto simp: find_None_iff image_iff)
  then show ?thesis
    by (auto simp: stored_orders_def assms(1) fun_eq_iff find_append split: option.splits)
qed

lemma query_row_same: "query_row rows w = (r, w') \<Longrightarrow> same_tables w w' \<and> orders_id_seq w' = orders_id_seq w"
  by (auto simp: query_row_def db_call_same db_call_frame(5) split: prod.splits option.splits list.splits)

text \<open>What a method does when it reports success, and that it does nothing when it reports
  an error.\<close>

lemma FindOrderByID_result:
  assumes "OrderStorage_FindOrderByID i w = (r, w')"
  shows "same_tables w w' \<and> orders_id_seq w' = orders_id_seq w \<and>
    (r = (case stored_orders w i of None \<Rightarrow> Inl ErrNotFoundOrder | Some o1 \<Rightarrow> Inr o1) \<or>
     (\<exists>s. r = Inl (WrapPre scan_error_text (ErrDriver s))))"
proof -
  obtain q where q: "query_row (filter (\<lambda>r. order_id r = i) (orders w)) w = (q, w')" "r = ScanOrder q"
    using assms by (auto simp: OrderStorage_FindOrderByID_def split: prod.splits)
  have "q = (case find (\<lambda>r. order_id r = i) (orders w) of None \<Rightarrow> Inl ErrNoRows | Some r \<Rightarrow> Inr r) \<or>
    (\<exists>s. q = Inl (ErrDriver s))"
    using q(1) by (auto simp: query_row_def find_as_filter dest: db_call_driver
        split: prod.splits option.splits list.splits)
  with q query_row_same [OF q(1)] show ?thesis
    by (auto simp: stored_orders_def errors_Is_flat split: option.splits)
qed

lemma insert_packaging_None:
  assumes "insert_packaging E i price w = (None, w')"
  shows "orders w' = orders w \<and> users w' = users w \<and> audit_tasks w' = audit_tasks w \<and>
    orders_id_seq w' = orders_id_seq w \<and> tasks_id_seq w' = tasks_id_seq w \<and>
    packaging_types w' = (if i \<in> fst ` set (packaging_types w) then packaging_types w
       else packaging_types w @ [(i, pg_numeric E price)])"
  using assms db_call_frame [of w]
  by (auto simp: insert_packaging_def image_iff split: prod.splits option.splits if_splits)

lemma insert_order_None:
  assumes "insert_order E o1 w = (None, w')"
  shows "ID o1 \<notin> order_id ` set (orders w) \<and> Packaging o1 \<in> fst ` set (packaging_types w) \<and>
    orders w' = orders w @ [new_row E (orders_id_seq w) o1] \<and> users w' = users w \<and>
    audit_tasks w' = audit_tasks w \<and> packaging_types w' = packaging_types w \<and>
    orders_id_seq w' = orders_id_seq w + 1 \<and> tasks_id_seq w' = tasks_id_seq w"
  using assms db_call_frame [of w]
  by (auto simp: insert_order_def Let_def split: prod.splits option.splits if_splits)

lemma insert_order_seq:
  "insert_order E o1 w = (q, w') \<Longrightarrow> orders_id_seq w \<le> orders_id_seq w' \<and> tasks_id_seq w' = tasks_id_seq w"
  using db_call_frame [of w]
  by (auto simp: insert_order_def Let_def split: prod.splits option.splits if_splits)

lemma insert_packaging_seq:
  "insert_packaging E i price w = (q, w') \<Longrightarrow>
     orders_id_seq w' = orders_id_seq w \<and> tasks_id_seq w' = tasks_id_seq w"
  using db_call_frame [of w]
  by (auto simp: insert_packaging_def split: prod.splits option.splits if_splits)

lemma SaveOrder_None:
  assumes "OrderStorage_SaveOrder E o1 w = (None, w')"
  shows "ID o1 \<notin> order_id ` set (orders w) \<and>
    orders w' = orders w @ [new_row E (orders_id_seq w) o1] \<and>
    orders_id_seq w' = orders_id_seq w + 1 \<and>
    packaging_types w' = (if Packaging o1 \<in> fst ` set (packaging_types w) then packaging_types w
       else packaging_types w @ [(Packaging o1, pg_numeric E (PackagePrice o1))]) \<and>
    users w' = users w \<and> audit_tasks w' = audit_tasks w \<and> tasks_id_seq w' = tasks_id_seq w"
proof -
  from assms obtain w1 w2 w3 where steps: "db_call w = (None, w1)"
    "insert_packaging E (Packaging o1) (PackagePrice o1) w1 = (None, w2)"
    "insert_order E o1 w2 = (None, w3)" "commit w1 w3 = (None, w')"
    by (auto simp: OrderStorage_SaveOrder_def split: prod.splits option.splits)
  then show ?thesis
    using db_call_frame [OF steps(1)] insert_packaging_None [OF steps(2)]
      insert_order_None [OF steps(3)] db_call_frame [OF commit_None [OF steps(4)]]
    by simp
qed

lemma SaveOrder_Some:
  assumes "OrderStorage_SaveOrder E o1 w = (Some e, w')"
  shows "same_tables w w' \<and> orders_id_seq w \<le> orders_id_seq w' \<and> tasks_id_seq w' = tasks_id_seq w"
proof -
  obtain q w1 where c: "db_call w = (q, w1)" by fastforce
  note f = db_call_frame [OF c] db_call_same [OF c]
  show ?thesis
  proof (cases q)
    case None
    obtain q2 w2 where p: "insert_packaging E (Packaging o1) (PackagePrice o1) w1 = (q2, w2)"
      by fastforce
    obtain q3 w3 where i: "insert_order E o1 w2 = (q3, w3)" by fastforce
    have "same_tables w1 w' \<and> orders_id_seq w1 \<le> orders_id_seq w' \<and> tasks_id_seq w' = tasks_id_seq w1"
      using assms c None p i insert_packaging_seq [OF p] insert_order_seq [OF i]
      by (auto simp: OrderStorage_SaveOrder_def frame_simps split: option.splits
          dest: commit_Some commit_seq)
    with f show ?thesis by (auto intro: same_tables_trans)
  qed (use assms c f in \<open>auto simp: OrderStorage_SaveOrder_def\<close>)
qed

lemma DeleteOrder_None:
  assumes "OrderStorage_DeleteOrder i w = (None, w')"
  shows "i \<in> order_id ` set (orders w) \<and> orders w' = filter (\<lambda>r. order_id r \<noteq> i) (orders w) \<and>
    packaging_types w' = packaging_types w \<and> users w' = users w \<and> audit_tasks w' = audit_tasks w \<and>
    orders_id_seq w' = orders_id_seq w"
proof -
  from assms obtain w1 n w2 where steps: "db_call w = (None, w1)" "delete_order i w1 = (Inr n, w2)"
    "n \<noteq> 0" "commit w1 w2 = (None, w')"
    by (auto simp: OrderStorage_DeleteOrder_def split: prod.splits option.splits sum.splits if_splits)
  from steps(2) obtain w1' where d: "db_call w1 = (None, w1')"
    "n = length (filter (\<lambda>r. order_id r = i) (orders w1'))"
    "w2 = w1'\<lparr>orders := filter (\<lambda>r. order_id r \<noteq> i) (orders w1')\<rparr>"
    by (auto simp: delete_order_def split: prod.splits option.splits)
  have "i \<in> order_id ` set (orders w1')"
    using d(2) steps(3) by (auto simp: filter_empty_conv)
  then show ?thesis
    using d db_call_frame [OF steps(1)] db_call_frame [OF d(1)]
      db_call_frame [OF commit_None [OF steps(4)]] by simp
qed

lemma DeleteOrder_Some:
  assumes "OrderStorage_DeleteOrder i w = (Some e, w')"
  shows "same_tables w w' \<and> orders_id_seq w' = orders_id_seq w \<and>
    (errors_Is e ErrNotFoundOrder \<longrightarrow> i \<notin> order_id ` set (orders w))"
proof -
  obtain q w1 where c: "db_call w = (q, w1)" by fastforce
  obtain q2 w2 where d: "db_call w1 = (q2, w2)" by fastforce
  note f = db_call_frame [OF c] db_call_same [OF c] db_call_frame [OF d] db_call_same [OF d]
  show ?thesis
  proof (cases "q = None \<and> q2 = None")
    case False
    then have "same_tables w w' \<and> orders_id_seq w' = orders_id_seq w \<and> (\<exists>s. e = ErrDriver s)"
      using assms c d f db_call_driver [of w] db_call_driver [of w1]
      by (auto simp: OrderStorage_DeleteOrder_def delete_order_def frame_simps
          intro: same_tables_trans split: option.splits)
    then show ?thesis by (auto simp: errors_Is_flat)
  next
    case True
    let ?w3 = "w2\<lparr>orders := filter (\<lambda>r. order_id r \<noteq> i) (orders w)\<rparr>"
    have eq: "(if i \<notin> order_id ` set (orders w) then (Some ErrNotFoundOrder, rollback w1 ?w3)
        else commit w1 ?w3) = (Some e, w')"
      using assms c d f True
      by (auto simp: OrderStorage_DeleteOrder_def delete_order_def filter_empty_conv image_iff split: if_splits)
    show ?thesis
    proof (cases "i \<in> order_id ` set (orders w)")
      case True
      with eq have "commit w1 ?w3 = (Some e, w')" by simp
      with commit_driver [OF this] commit_Some [OF this] commit_seq [OF this] f show ?thesis
        by (auto simp: errors_Is_flat intro: same_tables_trans)
    qed (use eq f in \<open>auto simp: frame_simps intro: same_tables_trans\<close>)
  qed
qed

text \<open>Without server failures, a new order is saved and a stored one deleted.\<close>

lemma SaveOrder_calm:
  assumes "script w = []" "ID o1 \<notin> order_id ` set (orders w)"
    and "order_fits E o1" "packaging_fits E (Packaging o1) (PackagePrice o1)"
  shows "fst (OrderStorage_SaveOrder E o1 w) = None \<and> script (snd (OrderStorage_SaveOrder E o1 w)) = []"
  using assms
  by (auto simp: OrderStorage_SaveOrder_def insert_packaging_def insert_order_def pg_simps Let_def)

lemma SaveOrder_script:
  assumes "script w = []" "OrderStorage_SaveOrder E o1 w = (None, w')"
  shows "script w' = []"
  using assms
  by (auto simp: OrderStorage_SaveOrder_def insert_packaging_def insert_order_def pg_simps Let_def split: if_splits)

lemma SaveOrder_unfit:
  assumes "script w = []" "\<not> order_fits E o1 \<or> \<not> packaging_fits E (Packaging o1) (PackagePrice o1)"
  shows "fst (OrderStorage_SaveOrder E o1 w) = Some too_long"
  using assms
  by (auto simp: OrderStorage_SaveOrder_def insert_packaging_def insert_order_def pg_simps Let_def)

lemma DeleteOrder_calm:
  assumes "script w = []" "i \<in> order_id ` set (orders w)"
  shows "fst (OrderStorage_DeleteOrder i w) = None \<and> script (snd (OrderStorage_DeleteOrder i w)) = []"
  using assms
  by (auto simp: OrderStorage_DeleteOrder_def delete_order_def pg_simps filter_empty_conv)

lemma FindOrderByID_calm:
  assumes "script w = []"
  shows "OrderStorage_FindOrderByID i w =
    (case stored_orders w i of None \<Rightarrow> Inl ErrNotFoundOrder | Some o1 \<Rightarrow> Inr o1, w)"
  using assms
  by (auto simp: OrderStorage_FindOrderByID_def query_row_def pg_simps stored_orders_def find_as_filter
      errors_Is_flat split: list.splits option.splits)

section \<open>Interpretation\<close>

lemma orders_ok_save:
  assumes "orders_ok w" and "OrderStorage_SaveOrder E o1 w = (None, w')"
  shows "orders_ok w'"
  using assms(1) SaveOrder_None [OF assms(2)] by (fastforce simp: orders_ok_def)

lemma orders_ok_delete:
  assumes "orders_ok w" and "OrderStorage_DeleteOrder i w = (None, w')"
  shows "orders_ok w'"
  using assms(1) DeleteOrder_None [OF assms(2)]
  by (auto simp: orders_ok_def distinct_map_filter)

interpretation pg_orders: order_store "pg_order_storage E" stored_orders "pg_kept E" orders_ok for E
proof (unfold_locales, goal_cases)
  case (1 w i r w')
  then have "OrderStorage_FindOrderByID i w = (r, w')" by (simp add: pg_order_storage_def)
  from FindOrderByID_result [OF this] 1(1) show ?case
    by (auto simp: stored_orders_frame errors_Is_flat intro: orders_ok_frame split: option.splits)
next
  case (2 w i o1)
  from stored_orders_Some [OF this] show ?case by auto
next
  case (3 w o1 q w')
  then have s: "OrderStorage_SaveOrder E o1 w = (q, w')" by (simp add: pg_order_storage_def)
  show ?case
  proof (cases q)
    case None
    with s SaveOrder_None [of E o1 w w'] have "stored_orders w' = (stored_orders w)(ID o1 \<mapsto> pg_kept E o1)"
      using stored_orders_append [of w' w "new_row E (orders_id_seq w) o1"] by simp
    with None s 3(1) SaveOrder_None [of E o1 w w'] show ?thesis
      by (auto simp: stored_orders_None intro: orders_ok_save)
  next
    case (Some e)
    with s 3(1) SaveOrder_Some [of E o1 w e w'] show ?thesis
      by (auto simp: stored_orders_frame intro: orders_ok_frame)
  qed
next
  case (4 w i q w')
  then have d: "OrderStorage_DeleteOrder i w = (q, w')" by (simp add: pg_order_storage_def)
  show ?case
  proof (cases q)
    case None
    with d DeleteOrder_None [of i w w'] have "stored_orders w' = (stored_orders w)(i := None)"
      by (auto simp: stored_orders_def fun_eq_iff find_filter_other)
    with None d 4(1) DeleteOrder_None [of i w w'] show ?thesis
      by (auto intro: orders_ok_delete stored_orders_rows)
  next
    case (Some e)
    with d 4(1) DeleteOrder_Some [of i w e w'] show ?thesis
      by (auto simp: stored_orders_frame stored_orders_None intro: orders_ok_frame)
  qed
qed

section \<open>A sample order\<close>

definition sample_packaging :: string where
  "sample_packaging = u8 [1087, 1083, 1077, 1085, 1082, 1072]"

definition sample_order :: "string \<Rightarrow> string \<Rightarrow> order" where
  "sample_order i u = \<lparr>ID = i, RecipientID = u, Expiry = 900000, StoredAt = None, IssuedAt = None,
     RefundedAt = None, BasePrice = Fin 100, PackagePrice = Fin 0, Weight = Fin 2,
     Packaging = sample_packaging\<rparr>"

lemma orders_ok_sample [simp]: "orders_ok sample_db"
  by (simp add: orders_ok_def sample_db_def)

text \<open>A table with two orders of one user, stored at time 2000.\<close>

definition sample_row :: "int \<Rightarrow> string \<Rightarrow> string \<Rightarrow> order_row" where
  "sample_row n i u = new_row sample_env n ((sample_order i u)\<lparr>PackagePrice := Fin 1, StoredAt := Some 2000\<rparr>)"

definition sample_shop :: pg where
  "sample_shop = sample_db\<lparr>orders := [sample_row 1 ''a'' ''u'', sample_row 2 ''b'' ''u''],
     orders_id_seq := 3, packaging_types := [(sample_packaging, Fin 1)]\<rparr>"

lemma sample_row_fields [simp]:
  "row_id (sample_row n i u) = n" "order_id (sample_row n i u) = i" "recipient_id (sample_row n i u) = u"
  "expiry (sample_row n i u) = 900000" "stored_at (sample_row n i u) = Some 2000"
  "issued_at (sample_row n i u) = None" "refunded_at (sample_row n i u) = None"
  "packaging (sample_row n i u) = sample_packaging"
  by (simp_all add: sample_row_def new_row_def sample_order_def sample_env_def)

lemma Status_sample_row [simp]: "Status (row_order (sample_row n i u)) = StatusStored"
  by (simp add: Status_def)

lemma sample_shop_simps [simp]:
  "script sample_shop = []" "orders sample_shop = [sample_row 1 ''a'' ''u'', sample_row 2 ''b'' ''u'']"
  "orders_ok sample_shop"
  "stored_orders sample_shop ''a'' = Some (row_order (sample_row 1 ''a'' ''u''))"
  "stored_orders sample_shop ''b'' = Some (row_order (sample_row 2 ''b'' ''u''))"
  "stored_orders sample_shop ''c'' = None"
  by (simp_all add: sample_shop_def sample_db_def orders_ok_def stored_orders_def)

lemma sample_fits [simp]:
  "packaging_fits sample_env sample_packaging (Fin 1)"
  "order_fits sample_env (sample_order ''a'' ''u'')"
  "order_fits sample_env ((sample_order ''a'' ''u'')\<lparr>PackagePrice := p, StoredAt := t\<rparr>)"
  "order_fits sample_env ((sample_order ''b'' ''u'')\<lparr>PackagePrice := p, StoredAt := t\<rparr>)"
  by (simp_all add: packaging_fits_def order_fits_def numeric_fits_def sample_env_def char_length_def
      sample_packaging_def sample_order_def)

section \<open>Properties\<close>

text \<open>
  Saving an order is atomic under every pattern of server failures: when it reports
  success the order was not there before, exactly one row was added under the next row number and
  the packaging has its price row; when it reports an error, no table has changed.
\<close>

theorem SaveOrder_atomic:
  "(case OrderStorage_SaveOrder E o1 w of
      (None, w') \<Rightarrow> ID o1 \<notin> order_id ` set (orders w) \<and>
        orders w' = orders w @ [new_row E (orders_id_seq w) o1] \<and>
        stored_orders w' (ID o1) = Some (pg_kept E o1) \<and>
        Packaging o1 \<in> fst ` set (packaging_types w') \<and> users w' = users w \<and> audit_tasks w' = audit_tasks w
    | (Some e, w') \<Rightarrow> same_tables w w')"
proof -
  obtain q w' where s: "OrderStorage_SaveOrder E o1 w = (q, w')" by fastforce
  show ?thesis
  proof (cases q)
    case None
    with s have n: "OrderStorage_SaveOrder E o1 w = (None, w')" by simp
    note facts = SaveOrder_None [OF n]
    with stored_orders_append [of w' w "new_row E (orders_id_seq w) o1"]
    have "stored_orders w' (ID o1) = Some (pg_kept E o1)" by simp
    with facts n show ?thesis by auto
  next
    case (Some e)
    with s SaveOrder_Some [of E o1 w e w'] show ?thesis by simp
  qed
qed

end
