(* ===== verification/Packaging.thy ===== *)
theory Packaging
  imports Domain
begin

text \<open>
  The packaging strategies of \<^verbatim>\<open>internal/domain/packaging.go\<close> and the parser of packaging
  strings of \<^verbatim>\<open>internal/repository/repoutils\<close>. The interface
  \<^verbatim>\<open>PackagingStrategy\<close> has four implementations, the constructors of \<open>strategy\<close>;
  its methods are one function each. The parser is shown to accept exactly the sums of known
  types with at most one main type, and the price and the weight limit of what it returns are
  given in closed form.
\<close>

section \<open>Strategies\<close>

definition PackagingTypePackage :: string where
  "PackagingTypePackage = u8 [1087, 1072, 1082, 1077, 1090]"

definition PackagingTypeBox :: string where
  "PackagingTypeBox = u8 [1082, 1086, 1088, 1086, 1073, 1082, 1072]"

definition PackagingTypeFilm :: string where
  "PackagingTypeFilm = u8 [1087, 1083, 1077, 1085, 1082, 1072]"

datatype strategy =
  PackagingPackage | PackagingBox | PackagingFilm | CompositePackaging "strategy list"

fun CalculatePrice :: "strategy \<Rightarrow> float64" where
  "CalculatePrice PackagingPackage = Fin 5"
| "CalculatePrice PackagingBox = Fin 20"
| "CalculatePrice PackagingFilm = Fin 1"
| "CalculatePrice (CompositePackaging ss) =
     foldl (\<lambda>res s. f_add res (CalculatePrice s)) (Fin 0) ss"

fun CheckWeight :: "strategy \<Rightarrow> float64 \<Rightarrow> bool" where
  "CheckWeight PackagingPackage weight = f_less weight (Fin 10)"
| "CheckWeight PackagingBox weight = f_less weight (Fin 30)"
| "CheckWeight PackagingFilm weight = True"
| "CheckWeight (CompositePackaging ss) weight = list_all (\<lambda>s. CheckWeight s weight) ss"

fun IsMain :: "strategy \<Rightarrow> bool" where
  "IsMain PackagingPackage = True"
| "IsMain PackagingBox = True"
| "IsMain PackagingFilm = False"
| "IsMain (CompositePackaging ss) = list_ex IsMain ss"

section \<open>The parser\<close>

definition ErrUnknownPackaging :: goerror where
  "ErrUnknownPackaging = ErrText (u8 [1085, 1077, 1080, 1079, 1074, 1077, 1089, 1090, 1085, 1099, 1081, 32, 1090, 1080, 1087,
     32, 1091, 1087, 1072, 1082, 1086, 1074, 1082, 1080])"

definition ErrMainPackagings :: goerror where
  "ErrMainPackagings = ErrText (u8 [1085, 1077, 1083, 1100, 1079, 1103, 32, 1082, 1086, 1084, 1073, 1080, 1085, 1080, 1088,
     1086, 1074, 1072, 1090, 1100, 32, 1086, 1089, 1085, 1086, 1074, 1085, 1099, 1077, 32,
     1090, 1080, 1087, 1099, 32, 1091, 1087, 1072, 1082, 1086, 1074, 1082, 1080])"

text \<open>The switch over the packaging type.\<close>

definition packaging_of :: "string \<Rightarrow> strategy option" where
  "packaging_of pt =
     (if pt = PackagingTypePackage then Some PackagingPackage
      else if pt = PackagingTypeBox then Some PackagingBox
      else if pt = PackagingTypeFilm then Some PackagingFilm
      else None)"

text \<open>The loop over the parts, with the strategies found so far and their main count.\<close>

fun parse_parts :: "string list \<Rightarrow> strategy list \<Rightarrow> nat \<Rightarrow> goerror + strategy list" where
  "parse_parts [] strategies mainPackagingCount = Inr strategies"
| "parse_parts (t # ts) strategies mainPackagingCount =
     (case packaging_of t of
        None \<Rightarrow> Inl ErrUnknownPackaging
      | Some strategy \<Rightarrow>
          (let mainPackagingCount = (if IsMain strategy then mainPackagingCount + 1 else mainPackagingCount)
           in if mainPackagingCount > 1 then Inl ErrMainPackagings
              else parse_parts ts (strategies @ [strategy]) mainPackagingCount))"

definition ParsePackaging :: "string \<Rightarrow> goerror + strategy" where
  "ParsePackaging input =
     (case parse_parts (split_on (CHR ''+'') input) [] 0 of
        Inl e \<Rightarrow> Inl e
      | Inr strategies \<Rightarrow>
          (if length strategies = 1 then Inr (hd strategies)
           else Inr (CompositePackaging strategies)))"

section \<open>Facts\<close>

text \<open>How many parts of an input name a strategy, and how many a main one.\<close>

definition parts_of :: "string \<Rightarrow> string list" where
  "parts_of input = split_on (CHR ''+'') input"

definition main_part :: "string \<Rightarrow> bool" where
  "main_part t \<longleftrightarrow> t = PackagingTypePackage \<or> t = PackagingTypeBox"

definition known_part :: "string \<Rightarrow> bool" where
  "known_part t \<longleftrightarrow> main_part t \<or> t = PackagingTypeFilm"

lemma packaging_types_length:
  "length PackagingTypePackage = 10" "length PackagingTypeBox = 14" "length PackagingTypeFilm = 12"
  by (simp_all add: PackagingTypePackage_def PackagingTypeBox_def PackagingTypeFilm_def)

lemma packaging_types_distinct [simp]:
  "PackagingTypePackage \<noteq> PackagingTypeBox" "PackagingTypePackage \<noteq> PackagingTypeFilm"
  "PackagingTypeBox \<noteq> PackagingTypeFilm" "PackagingTypeBox \<noteq> PackagingTypePackage"
  "PackagingTypeFilm \<noteq> PackagingTypePackage" "PackagingTypeFilm \<noteq> PackagingTypeBox"
  using packaging_types_length by auto

lemma packaging_of_None: "packaging_of t = None \<longleftrightarrow> \<not> known_part t"
  by (auto simp: packaging_of_def known_part_def main_part_def)

lemma packaging_of_main: "packaging_of t = Some s \<Longrightarrow> IsMain s \<longleftrightarrow> main_part t"
  by (auto simp: packaging_of_def main_part_def split: if_splits)

lemma parse_parts_Inr:
  "k \<le> 1 \<Longrightarrow> parse_parts ts acc k = Inr ss \<longleftrightarrow>
     list_all known_part ts \<and> k + length (filter main_part ts) \<le> 1 \<and>
     ss = acc @ map (the \<circ> packaging_of) ts"
proof (induction ts arbitrary: acc k)
  case Nil
  then show ?case by auto
next
  case (Cons t ts)
  show ?case
  proof (cases "packaging_of t")
    case None
    moreover from this have "\<not> known_part t" by (simp add: packaging_of_None)
    ultimately show ?thesis by simp
  next
    case (Some s)
    then have "known_part t" "IsMain s = main_part t"
      using packaging_of_None packaging_of_main by force+
    with Some Cons show ?thesis by (auto simp: Let_def)
  qed
qed

lemma parse_parts_Inl: "parse_parts ts acc k = Inl e \<Longrightarrow> e \<in> {ErrUnknownPackaging, ErrMainPackagings}"
  by (induction ts acc k rule: parse_parts.induct) (auto simp: Let_def split: option.splits if_splits)

lemma CalculatePrice_parts:
  "list_all known_part ts \<Longrightarrow>
   foldl (\<lambda>res s. f_add res (CalculatePrice s)) (Fin p) (map (the \<circ> packaging_of) ts) =
   Fin (p + of_nat (5 * count_list ts PackagingTypePackage + 20 * count_list ts PackagingTypeBox
        + count_list ts PackagingTypeFilm))"
proof (induction ts arbitrary: p)
  case (Cons t ts)
  then have "known_part t" by simp
  then consider "t = PackagingTypePackage" | "t = PackagingTypeBox" | "t = PackagingTypeFilm"
    by (auto simp: known_part_def main_part_def)
  then show ?case
    by cases (use Cons in \<open>auto simp: packaging_of_def algebra_simps\<close>)
qed simp

lemma CheckWeight_parts:
  "list_all known_part ts \<Longrightarrow>
   list_all (\<lambda>s. CheckWeight s w) (map (the \<circ> packaging_of) ts) \<longleftrightarrow>
   (PackagingTypePackage \<notin> set ts \<or> f_less w (Fin 10)) \<and> (PackagingTypeBox \<notin> set ts \<or> f_less w (Fin 30))"
proof (induction ts)
  case (Cons t ts)
  then have "known_part t" by simp
  then consider "t = PackagingTypePackage" | "t = PackagingTypeBox" | "t = PackagingTypeFilm"
    by (auto simp: known_part_def main_part_def)
  then show ?case
    by cases (use Cons in \<open>auto simp: packaging_of_def\<close>)
qed simp

lemma IsMain_parts:
  "list_all known_part ts \<Longrightarrow> list_ex IsMain (map (the \<circ> packaging_of) ts) \<longleftrightarrow> list_ex main_part ts"
proof (induction ts)
  case (Cons t ts)
  then obtain s where "packaging_of t = Some s" using packaging_of_None [of t] by auto
  with packaging_of_main [OF this] Cons show ?case by simp
qed simp

lemma f_add_zero: "f_add (Fin 0) x = x"
  by (cases x) simp_all

lemma single_strategy:
  assumes "length ss = 1"
  shows "CalculatePrice (hd ss) = CalculatePrice (CompositePackaging ss)"
    and "CheckWeight (hd ss) w = CheckWeight (CompositePackaging ss) w"
    and "IsMain (hd ss) = IsMain (CompositePackaging ss)"
  using assms by (auto simp: length_Suc_conv f_add_zero)

lemma ParsePackaging_Inr:
  "ParsePackaging input = Inr s \<longleftrightarrow>
     list_all known_part (parts_of input) \<and> length (filter main_part (parts_of input)) \<le> 1 \<and>
     s = (let ss = map (the \<circ> packaging_of) (parts_of input)
          in if length ss = 1 then hd ss else CompositePackaging ss)"
proof (cases "parse_parts (parts_of input) [] 0")
  case (Inl e)
  then have "\<not> (list_all known_part (parts_of input) \<and> length (filter main_part (parts_of input)) \<le> 1)"
    using parse_parts_Inr [of 0 "parts_of input" "[]"] by auto
  with Inl show ?thesis by (auto simp: ParsePackaging_def parts_of_def)
next
  case (Inr ss)
  with parse_parts_Inr [of 0 "parts_of input" "[]" ss] show ?thesis
    by (auto simp: ParsePackaging_def parts_of_def Let_def)
qed

section \<open>Properties\<close>

lemma plus_notin_known: "known_part t \<Longrightarrow> CHR ''+'' \<notin> set t"
  by (auto simp: known_part_def main_part_def PackagingTypePackage_def PackagingTypeBox_def PackagingTypeFilm_def
      char_eq_char_of)

lemma parts_of_join:
  assumes "ts \<noteq> []" "list_all known_part ts"
  shows "parts_of (join_with (CHR ''+'') ts) = ts"
  using assms by (auto simp: parts_of_def list_all_iff intro!: split_on_join plus_notin_known)

text \<open>
  (C22) The parser accepts a packaging string exactly if it is a non-empty list of known packaging types
  joined by plus signs, with at most one main type (bag or box) among them; any other string is
  refused with one of the two error texts of the parser.
\<close>

theorem ParsePackaging_accepts:
  "(case ParsePackaging input of
      Inr s \<Rightarrow> \<exists>ts. ts \<noteq> [] \<and> input = join_with (CHR ''+'') ts \<and> list_all known_part ts \<and>
        length (filter main_part ts) \<le> 1
    | Inl e \<Rightarrow> \<not> (\<exists>ts. ts \<noteq> [] \<and> input = join_with (CHR ''+'') ts \<and> list_all known_part ts \<and>
        length (filter main_part ts) \<le> 1) \<and> e \<in> {ErrUnknownPackaging, ErrMainPackagings})"
proof (cases "ParsePackaging input")
  case (Inl e)
  then have "\<not> (list_all known_part (parts_of input) \<and> length (filter main_part (parts_of input)) \<le> 1)"
    using ParsePackaging_Inr [of input] by auto
  moreover have "e \<in> {ErrUnknownPackaging, ErrMainPackagings}"
    using Inl parse_parts_Inl [of "split_on (CHR ''+'') input" "[]" 0 e]
    by (auto simp: ParsePackaging_def split: sum.splits if_splits)
  ultimately show ?thesis using Inl by (auto simp: parts_of_join)
next
  case (Inr s)
  then have "list_all known_part (parts_of input) \<and> length (filter main_part (parts_of input)) \<le> 1"
    by (simp add: ParsePackaging_Inr)
  moreover have "input = join_with (CHR ''+'') (parts_of input)" "parts_of input \<noteq> []"
    by (simp_all add: parts_of_def join_split_on)
  ultimately show ?thesis using Inr by auto
qed

text \<open>
  (C23) What the parser returns prices and limits the parcel as the sum and the conjunction of its
  parts: 5 for each bag, 20 for each box and 1 for each film, a weight below 10 with a bag and below
  30 with a box, and no limit for film alone.
\<close>

theorem ParsePackaging_price_weight:
  assumes "ParsePackaging (join_with (CHR ''+'') ts) = Inr s" "ts \<noteq> []" "list_all known_part ts"
  shows "CalculatePrice s = Fin (of_nat (5 * count_list ts PackagingTypePackage
            + 20 * count_list ts PackagingTypeBox + count_list ts PackagingTypeFilm)) \<and>
    (CheckWeight s w \<longleftrightarrow> (PackagingTypePackage \<in> set ts \<longrightarrow> f_less w (Fin 10)) \<and>
            (PackagingTypeBox \<in> set ts \<longrightarrow> f_less w (Fin 30))) \<and>
    (IsMain s \<longleftrightarrow> list_ex main_part ts)"
proof -
  let ?ss = "map (the \<circ> packaging_of) ts"
  from assms have s: "s = (if length ?ss = 1 then hd ?ss else CompositePackaging ?ss)"
    by (auto simp: ParsePackaging_Inr parts_of_join Let_def)
  have eqs: "CalculatePrice s = CalculatePrice (CompositePackaging ?ss)"
    "CheckWeight s w = CheckWeight (CompositePackaging ?ss) w" "IsMain s = IsMain (CompositePackaging ?ss)"
    using single_strategy [of ?ss] by (auto simp: s)
  with CalculatePrice_parts [OF assms(3), of 0] CheckWeight_parts [OF assms(3), of w]
    IsMain_parts [OF assms(3)] show ?thesis by auto
qed

theorem ParsePackaging_price_weight_witness:
  "\<exists>s. ParsePackaging (join_with (CHR ''+'') [PackagingTypeBox, PackagingTypeFilm]) = Inr s \<and>
     CalculatePrice s = Fin 21 \<and> \<not> CheckWeight s (Fin 30) \<and> IsMain s"
proof -
  let ?ts = "[PackagingTypeBox, PackagingTypeFilm]"
  have known: "list_all known_part ?ts" by (simp add: known_part_def main_part_def)
  have "list_all known_part (parts_of (join_with (CHR ''+'') ?ts)) \<and>
      length (filter main_part (parts_of (join_with (CHR ''+'') ?ts))) \<le> 1"
    using parts_of_join [OF _ known] known by (simp add: main_part_def)
  then obtain s where s: "ParsePackaging (join_with (CHR ''+'') ?ts) = Inr s"
    by (auto simp: ParsePackaging_Inr)
  from ParsePackaging_price_weight [OF s _ known, of "Fin 30"] s show ?thesis
    by (intro exI [of _ s]) (simp add: main_part_def del: join_with.simps)
qed

end
