(* ===== verification/Order_Repo.thy ===== *)
theory Order_Repo
  imports Order_Storage Packaging
begin

text \<open>
  The order repository, \<^verbatim>\<open>internal/repository/orderrepo\<close>: taking an order in, giving an
  expired one back to the courier, and looking orders up. The methods take the store as the
  repository's field \<^verbatim>\<open>orderStorage\<close>, and one time argument for each call of
  \<^verbatim>\<open>time.Now()\<close>, in the order of the calls. Their lemmas are proved for every store that
  keeps the contract \<open>order_store\<close>, and hold of the PostgreSQL store by its interpretation.
\<close>

section \<open>The methods\<close>

definition orderRepository_AcceptOrder ::
    "'w order_storage \<Rightarrow> time \<Rightarrow> time \<Rightarrow> order \<Rightarrow> 'w \<Rightarrow> goerror option \<times> 'w" where
  "orderRepository_AcceptOrder S now1 now2 o1 w =
     (if Expiry o1 < now1 then (Some ErrExpiredOrder, w)
      else case os_FindOrderByID S (ID o1) w of
        (Inr existing, w1) \<Rightarrow> (Some ErrDuplicateOrder, w1)
      | (Inl e, w1) \<Rightarrow>
          (if \<not> errors_Is e ErrNotFoundOrder then (Some ErrDatabase, w1)
           else case ParsePackaging (Packaging o1) of
             Inl e2 \<Rightarrow> (Some e2, w1)
           | Inr pack \<Rightarrow>
               (if \<not> CheckWeight pack (Weight o1) then (Some ErrInvalidWeight, w1)
                else case os_SaveOrder S
                    (o1\<lparr>PackagePrice := CalculatePrice pack, StoredAt := Some now2\<rparr>) w1 of
                  (Some e3, w2) \<Rightarrow> (Some ErrDatabase, w2)
                | (None, w2) \<Rightarrow> (None, w2))))"

text \<open>
  Where the store does not find the order, \<^verbatim>\<open>order\<close> is a nil pointer and the call of its
  method \<^verbatim>\<open>Status\<close>, which has a value receiver, panics. Where \<^verbatim>\<open>DeleteOrder\<close>
  reports that the order is gone, \<^verbatim>\<open>return err\<close> returns the outer \<^verbatim>\<open>err\<close>, which is nil
  there.
\<close>

definition orderRepository_ReturnOrder ::
    "'w order_storage \<Rightarrow> time \<Rightarrow> string \<Rightarrow> 'w \<Rightarrow> goerror option go \<times> 'w" where
  "orderRepository_ReturnOrder S now i w =
     (case os_FindOrderByID S i w of
        (Inl e, w1) \<Rightarrow>
          (if \<not> errors_Is e ErrNotFoundOrder then (Ret (Some ErrDatabase), w1) else (Panic, w1))
      | (Inr o1, w1) \<Rightarrow>
          (if Status o1 \<noteq> StatusStored then (Ret (Some ErrNotStoredOrder), w1)
           else if Expiry o1 > now then (Ret (Some ErrNotExpiredOrder), w1)
           else case os_DeleteOrder S i w1 of
             (Some e, w2) \<Rightarrow>
               (if \<not> errors_Is e ErrNotFoundOrder then (Ret (Some ErrDatabase), w2)
                else (Ret None, w2))
           | (None, w2) \<Rightarrow> (Ret None, w2)))"

definition orderRepository_FindOrderByID ::
    "'w order_storage \<Rightarrow> string \<Rightarrow> 'w \<Rightarrow> (goerror + order) \<times> 'w" where
  "orderRepository_FindOrderByID S i w = os_FindOrderByID S i w"

definition orderRepository_FindOrdersByIDs ::
    "'w order_storage \<Rightarrow> string list \<Rightarrow> 'w \<Rightarrow> (goerror + order list) \<times> 'w" where
  "orderRepository_FindOrdersByIDs S ids w =
     (if ids = [] then (Inl ErrNullOrderIDs, w) else os_FindOrdersByIDs S ids w)"

section \<open>Lemmas for every store\<close>

text \<open>The order as the repository hands it to the store.\<close>

definition taken_in :: "strategy \<Rightarrow> time \<Rightarrow> order \<Rightarrow> order" where
  "taken_in p now o1 = o1\<lparr>PackagePrice := CalculatePrice p, StoredAt := Some now\<rparr>"

lemma ID_taken_in [simp]: "ID (taken_in p now o1) = ID o1"
  by (simp add: taken_in_def)

context order_store
begin

lemma accept_success:
  assumes "valid w" and "orderRepository_AcceptOrder S now1 now2 o1 w = (None, w')"
  shows "now1 \<le> Expiry o1 \<and> stored w (ID o1) = None \<and> valid w' \<and>
    (\<exists>p. ParsePackaging (Packaging o1) = Inr p \<and> CheckWeight p (Weight o1) \<and>
       stored w' = (stored w)(ID o1 \<mapsto> kept (taken_in p now2 o1)))"
proof -
  from assms(2) obtain e w1 p where a: "now1 \<le> Expiry o1"
    "os_FindOrderByID S (ID o1) w = (Inl e, w1)" "ParsePackaging (Packaging o1) = Inr p"
    "CheckWeight p (Weight o1)" "os_SaveOrder S (taken_in p now2 o1) w1 = (None, w')"
    by (auto simp: orderRepository_AcceptOrder_def taken_in_def
        split: if_splits prod.splits sum.splits option.splits)
  from find_law [OF assms(1) a(2)] have w1: "valid w1" "stored w1 = stored w" by simp_all
  from save_law [OF w1(1) a(5)] w1 a show ?thesis by auto
qed

lemma accept_error:
  assumes "valid w" and "orderRepository_AcceptOrder S now1 now2 o1 w = (Some e, w')"
  shows "stored w' = stored w \<and> valid w'"
proof (cases "Expiry o1 < now1")
  case True
  with assms show ?thesis by (simp add: orderRepository_AcceptOrder_def)
next
  case False
  obtain r w1 where f: "os_FindOrderByID S (ID o1) w = (r, w1)" by fastforce
  from find_law [OF assms(1) f] have w1: "valid w1" "stored w1 = stored w" by simp_all
  consider "w' = w1" | p e3 where "os_SaveOrder S (taken_in p now2 o1) w1 = (Some e3, w')"
    using assms(2) False f
    by (auto simp: orderRepository_AcceptOrder_def taken_in_def
        split: if_splits prod.splits sum.splits option.splits)
  then show ?thesis
    using w1 save_law [OF w1(1)] by cases fastforce+
qed

lemma return_success:
  assumes "valid w" and "orderRepository_ReturnOrder S now i w = (Ret None, w')"
  shows "\<exists>o1. stored w i = Some o1 \<and> Status o1 = StatusStored \<and> Expiry o1 \<le> now \<and>
    stored w' = (stored w)(i := None) \<and> valid w'"
proof -
  from assms(2) obtain o1 w1 q where a: "os_FindOrderByID S i w = (Inr o1, w1)"
    "Status o1 = StatusStored" "Expiry o1 \<le> now" "os_DeleteOrder S i w1 = (q, w')"
    "\<And>e. q = Some e \<Longrightarrow> errors_Is e ErrNotFoundOrder"
    by (auto simp: orderRepository_ReturnOrder_def
        split: if_splits prod.splits sum.splits option.splits)
  from find_law [OF assms(1) a(1)] have w1: "valid w1" "stored w1 = stored w" "stored w i = Some o1"
    by simp_all
  with delete_law [OF w1(1) a(4)] a show ?thesis by (auto split: option.splits)
qed

lemma return_error:
  assumes "valid w" and "orderRepository_ReturnOrder S now i w = (Ret (Some e), w')"
  shows "stored w' = stored w \<and> valid w'"
proof -
  obtain r w1 where f: "os_FindOrderByID S i w = (r, w1)" by fastforce
  from find_law [OF assms(1) f] have w1: "valid w1" "stored w1 = stored w" by simp_all
  consider "w' = w1" | e3 where "os_DeleteOrder S i w1 = (Some e3, w')"
    using assms(2) f
    by (auto simp: orderRepository_ReturnOrder_def
        split: if_splits prod.splits sum.splits option.splits)
  then show ?thesis
    using w1 delete_law [OF w1(1)] by cases fastforce+
qed

lemma return_panic:
  assumes "valid w" and "orderRepository_ReturnOrder S now i w = (Panic, w')"
  shows "stored w i = None \<and> stored w' = stored w \<and> valid w'"
proof -
  from assms(2) obtain e where f: "os_FindOrderByID S i w = (Inl e, w')" "errors_Is e ErrNotFoundOrder"
    by (auto simp: orderRepository_ReturnOrder_def
        split: if_splits prod.splits sum.splits option.splits)
  with find_law [OF assms(1) f(1)] show ?thesis by simp
qed

end

section \<open>The PostgreSQL store without failures\<close>

lemma accept_table:
  assumes "script w = []"
  shows "fst (orderRepository_AcceptOrder (pg_order_storage E) now1 now2 o1 w) =
    (if Expiry o1 < now1 then Some ErrExpiredOrder
     else if stored_orders w (ID o1) \<noteq> None then Some ErrDuplicateOrder
     else case ParsePackaging (Packaging o1) of
            Inl e \<Rightarrow> Some e
          | Inr p \<Rightarrow> if \<not> CheckWeight p (Weight o1) then Some ErrInvalidWeight
              else if order_fits E o1 \<and> packaging_fits E (Packaging o1) (CalculatePrice p) then None
              else Some ErrDatabase)"
proof -
  have save: "fst (OrderStorage_SaveOrder E (o1\<lparr>PackagePrice := CalculatePrice p, StoredAt := Some now2\<rparr>) w) =
      (if order_fits E o1 \<and> packaging_fits E (Packaging o1) (CalculatePrice p) then None else Some too_long)"
    if "stored_orders w (ID o1) = None" for p
    using that assms SaveOrder_calm [of w "taken_in p now2 o1" E] SaveOrder_unfit [of w E "taken_in p now2 o1"]
    by (auto simp: stored_orders_None taken_in_def order_fits_def)
  note accept = orderRepository_AcceptOrder_def pg_order_storage_def FindOrderByID_calm [OF assms] errors_Is_flat
  show ?thesis
  proof (cases "stored_orders w (ID o1)")
    case None
    show ?thesis
    proof (cases "ParsePackaging (Packaging o1)")
      case (Inr p)
      with save [OF None, of p] None show ?thesis
        by (auto simp: accept split: prod.splits option.splits if_splits)
    qed (use None in \<open>simp add: accept\<close>)
  qed (simp add: accept)
qed

lemma return_table:
  assumes "script w = []"
  shows "fst (orderRepository_ReturnOrder (pg_order_storage E) now i w) =
    (case stored_orders w i of
       None \<Rightarrow> Panic
     | Some o1 \<Rightarrow> Ret (if Status o1 \<noteq> StatusStored then Some ErrNotStoredOrder
         else if Expiry o1 > now then Some ErrNotExpiredOrder else None))"
proof -
  have "\<exists>w'. OrderStorage_DeleteOrder i w = (None, w')" if "stored_orders w i \<noteq> None"
    using that assms DeleteOrder_calm [of w i]
    by (cases "OrderStorage_DeleteOrder i w") (auto simp: stored_orders_None)
  then show ?thesis
    by (fastforce simp: orderRepository_ReturnOrder_def pg_order_storage_def FindOrderByID_calm [OF assms] errors_Is_flat
        split: option.splits sum.splits)
qed

lemma script_sample_db: "script sample_db = []"
  by (simp add: sample_db_def)

lemma stored_sample_db: "stored_orders sample_db i = None"
  by (simp add: stored_orders_def sample_db_def)

lemma sample_order_fields:
  "ID (sample_order i u) = i" "RecipientID (sample_order i u) = u" "Expiry (sample_order i u) = 900000"
  "Weight (sample_order i u) = Fin 2" "Packaging (sample_order i u) = sample_packaging" "IssuedAt (sample_order i u) = None" "RefundedAt (sample_order i u) = None"
  by (simp_all add: sample_order_def)

lemma sample_order_film: "ParsePackaging sample_packaging = Inr PackagingFilm"
proof -
  have "sample_packaging = join_with (CHR ''+'') [PackagingTypeFilm]"
    by (simp add: sample_packaging_def PackagingTypeFilm_def)
  moreover have "list_all known_part [PackagingTypeFilm]" by (simp add: known_part_def)
  ultimately show ?thesis
    using parts_of_join [of "[PackagingTypeFilm]"]
    by (simp add: ParsePackaging_Inr packaging_of_def main_part_def)
qed

section \<open>Properties\<close>

text \<open>
  (C6) Taking an order in, under every pattern of server failures: success means the order was
  not expired, its id was free, its packaging was a known one that carries the weight, and the table
  now holds it, stored at the time of the call and priced by its packaging, beside what it held before;
  an error means that no stored order has changed.
\<close>

theorem AcceptOrder_result:
  assumes "orders_ok w"
  shows "(case orderRepository_AcceptOrder (pg_order_storage E) now1 now2 o1 w of
      (None, w') \<Rightarrow> now1 \<le> Expiry o1 \<and> stored_orders w (ID o1) = None \<and> orders_ok w' \<and>
        (\<exists>p. ParsePackaging (Packaging o1) = Inr p \<and> CheckWeight p (Weight o1) \<and>
           stored_orders w' = (stored_orders w)(ID o1 \<mapsto> pg_kept E (taken_in p now2 o1)))
    | (Some e, w') \<Rightarrow> stored_orders w' = stored_orders w \<and> orders_ok w')"
  using pg_orders.accept_success [OF assms] pg_orders.accept_error [OF assms]
  by (auto split: prod.splits option.splits)

theorem AcceptOrder_result_witness:
  "orders_ok sample_db \<and>
   (\<exists>w'. orderRepository_AcceptOrder (pg_order_storage sample_env) 1000 2000 (sample_order ''a'' ''u'') sample_db
       = (None, w') \<and> StoredAt (the (stored_orders w' ''a'')) = Some 2000)"
proof -
  let ?res = "orderRepository_AcceptOrder (pg_order_storage sample_env) 1000 2000 (sample_order ''a'' ''u'') sample_db"
  have "fst ?res = None"
    by (simp add: accept_table script_sample_db stored_sample_db sample_order_film sample_order_fields)
  then obtain w' where "?res = (None, w')" by (cases ?res) simp
  with AcceptOrder_result [OF orders_ok_sample, where E = sample_env and ?now1.0 = 1000 and ?now2.0 = 2000
      and ?o1.0 = "sample_order ''a'' ''u''"]
  show ?thesis by (auto simp: sample_order_fields pg_kept_def taken_in_def sample_env_def)
qed

text \<open>
  Without server failures the answer is a table: expired, already there, unreadable packaging, too
  heavy, a value that does not fit its column, in this order, and otherwise the order is taken in.
\<close>

theorem AcceptOrder_answer:
  assumes "script w = []"
  shows "fst (orderRepository_AcceptOrder (pg_order_storage E) now1 now2 o1 w) =
    (if Expiry o1 < now1 then Some ErrExpiredOrder
     else if stored_orders w (ID o1) \<noteq> None then Some ErrDuplicateOrder
     else case ParsePackaging (Packaging o1) of
            Inl e \<Rightarrow> Some e
          | Inr p \<Rightarrow> if \<not> CheckWeight p (Weight o1) then Some ErrInvalidWeight
              else if order_fits E o1 \<and> packaging_fits E (Packaging o1) (CalculatePrice p) then None
              else Some ErrDatabase)"
  using assms by (rule accept_table)

theorem AcceptOrder_answer_witness:
  "fst (orderRepository_AcceptOrder (pg_order_storage sample_env) 1000 2000 (sample_order ''a'' ''u'') sample_db) = None"
  using AcceptOrder_answer [OF script_sample_db, of sample_env 1000 2000 "sample_order ''a'' ''u''"]
  by (simp add: stored_sample_db sample_order_film sample_order_fields)

text \<open>
  Giving an order back to the courier, under every pattern of server failures: success means the
  order was in storage, its time was over, and it alone has left the table; an error changes no
  stored order; the call panics only on an id that is not stored.
\<close>

theorem ReturnOrder_result:
  assumes "orders_ok w"
  shows "(case orderRepository_ReturnOrder (pg_order_storage E) now i w of
      (Ret None, w') \<Rightarrow> orders_ok w' \<and> stored_orders w' = (stored_orders w)(i := None) \<and>
        (\<exists>o1. stored_orders w i = Some o1 \<and> Status o1 = StatusStored \<and> Expiry o1 \<le> now)
    | (Ret (Some e), w') \<Rightarrow> stored_orders w' = stored_orders w \<and> orders_ok w'
    | (Panic, w') \<Rightarrow> stored_orders w i = None \<and> stored_orders w' = stored_orders w \<and> orders_ok w')"
  using pg_orders.return_success [OF assms] pg_orders.return_error [OF assms] pg_orders.return_panic [OF assms]
  by (fastforce split: prod.splits option.splits go.splits)

theorem ReturnOrder_result_witness:
  "orders_ok sample_db \<and>
   fst (orderRepository_ReturnOrder (pg_order_storage sample_env) 1000 ''a'' sample_db) = Panic \<and>
   stored_orders (snd (orderRepository_ReturnOrder (pg_order_storage sample_env) 1000 ''a'' sample_db)) =
   stored_orders sample_db"
proof -
  have "fst (orderRepository_ReturnOrder (pg_order_storage sample_env) 1000 ''a'' sample_db) = Panic"
    by (simp add: return_table script_sample_db stored_sample_db)
  with ReturnOrder_result [OF orders_ok_sample, where E = sample_env and now = 1000 and i = "''a''"] show ?thesis
    by (auto split: prod.splits)
qed

text \<open>
  (C24) Without server failures the answer of a return is a table, and it shows a fault of the code: an id
  that is not in the table makes the repository dereference a nil pointer instead of reporting
  that there is no such order.
\<close>

theorem ReturnOrder_answer:
  assumes "script w = []"
  shows "fst (orderRepository_ReturnOrder (pg_order_storage E) now i w) =
    (case stored_orders w i of
       None \<Rightarrow> Panic
     | Some o1 \<Rightarrow> Ret (if Status o1 \<noteq> StatusStored then Some ErrNotStoredOrder
         else if Expiry o1 > now then Some ErrNotExpiredOrder else None))"
  using assms by (rule return_table)

theorem ReturnOrder_answer_witness:
  "fst (orderRepository_ReturnOrder (pg_order_storage sample_env) 1000 ''a'' sample_db) = Panic"
  using ReturnOrder_answer [OF script_sample_db, of sample_env 1000 "''a''"]
  by (simp add: stored_sample_db)

end
