(* ===== verification/User_Order_Storage.thy ===== *)
theory User_Order_Storage
  imports Order_Storage
begin

text \<open>
  Issuing orders to their recipient and taking refunds:
  \<^verbatim>\<open>internal/storage/postgres/userorderstorage\<close> and
  \<^verbatim>\<open>internal/repository/userorderrepo\<close>. Both operations run one transaction over a list
  of order ids; the two loops of the source differ in the check and in the column they stamp,
  so the loop is one function of these two. The locale \<open>order_batch\<close> says what a stamp may
  change; the facts about the transaction are proved in it and interpreted for the issue and
  for the refund.
\<close>

section \<open>The interface\<close>

record 'w user_order_storage =
  uos_IssueOrders :: "time \<Rightarrow> string \<Rightarrow> string list \<Rightarrow> 'w \<Rightarrow> (goerror + processed_orders) \<times> 'w"
  uos_RefundOrders :: "time \<Rightarrow> string \<Rightarrow> string list \<Rightarrow> 'w \<Rightarrow> (goerror + processed_orders) \<times> 'w"

section \<open>Checks\<close>

definition validateOrderForIssue :: "order \<Rightarrow> string \<Rightarrow> time \<Rightarrow> goerror option" where
  "validateOrderForIssue o1 userID now =
     (if RecipientID o1 \<noteq> userID then Some (ErrUserDoesntOwnOrder (ID o1) userID)
      else if Status o1 \<noteq> StatusStored then Some ErrNotStoredOrder
      else if Expiry o1 < now then Some ErrExpiredOrder
      else None)"

definition validateOrderForRefund :: "order \<Rightarrow> string \<Rightarrow> time \<Rightarrow> goerror option" where
  "validateOrderForRefund o1 userID now =
     (if RecipientID o1 \<noteq> userID then Some (ErrUserDoesntOwnOrder (ID o1) userID)
      else if Status o1 \<noteq> StatusIssued then Some ErrNotIssuedOrder
      else if (case IssuedAt o1 of None \<Rightarrow> False | Some t \<Rightarrow> time_Sub now t > 48 * hour)
      then Some ErrRefundPeriodExpired
      else None)"

definition getFailedOrders :: "string list \<Rightarrow> string list \<Rightarrow> string list" where
  "getFailedOrders ids processed = filter (\<lambda>i. i \<notin> set processed) ids"

section \<open>Statements\<close>

text \<open>The wrapping \<^verbatim>\<open>fmt.Errorf("%w: %v", domain.ErrDatabase, err)\<close>.\<close>

definition database_error :: "goerror \<Rightarrow> goerror" where
  "database_error e = WrapSuf ErrDatabase (Error e)"

definition lockAndGetOrder :: "string \<Rightarrow> pg \<Rightarrow> (goerror + order) \<times> pg" where
  "lockAndGetOrder i w =
     (let (row, w') = query_row (filter (\<lambda>r. order_id r = i) (orders w)) w
      in case ScanOrder row of
           Inl e \<Rightarrow> (if errors_Is e ErrNoRows then (Inl ErrNotFoundOrder, w')
                    else (Inl (database_error e), w'))
         | Inr o1 \<Rightarrow> (Inr o1, w'))"

definition updateIssueTime :: "pg_env \<Rightarrow> string \<Rightarrow> time \<Rightarrow> pg \<Rightarrow> goerror option \<times> pg" where
  "updateIssueTime E i t w = (case db_call w of
      (Some e, w') \<Rightarrow> (Some (database_error e), w')
    | (None, w') \<Rightarrow> (None, w'\<lparr>orders :=
        map (\<lambda>r. if order_id r = i then r\<lparr>issued_at := Some (pg_timestamp E t)\<rparr> else r) (orders w')\<rparr>))"

definition updateRefundTime :: "pg_env \<Rightarrow> string \<Rightarrow> time \<Rightarrow> pg \<Rightarrow> goerror option \<times> pg" where
  "updateRefundTime E i t w = (case db_call w of
      (Some e, w') \<Rightarrow> (Some (database_error e), w')
    | (None, w') \<Rightarrow> (None, w'\<lparr>orders :=
        map (\<lambda>r. if order_id r = i then r\<lparr>refunded_at := Some (pg_timestamp E t)\<rparr> else r) (orders w')\<rparr>))"

section \<open>The loop and the transaction\<close>

text \<open>
  \<open>Inl\<close> is a return out of the loop with an error; \<open>Inr\<close> is what the loop leaves in
  \<^verbatim>\<open>processed\<close> and \<^verbatim>\<open>returnErr\<close> when it ends or breaks.
\<close>

fun order_loop ::
    "(order \<Rightarrow> string \<Rightarrow> time \<Rightarrow> goerror option) \<Rightarrow> (string \<Rightarrow> time \<Rightarrow> pg \<Rightarrow> goerror option \<times> pg) \<Rightarrow>
     string \<Rightarrow> time \<Rightarrow> string list \<Rightarrow> string list \<Rightarrow> goerror option \<Rightarrow> pg \<Rightarrow>
     (goerror + string list \<times> goerror option) \<times> pg" where
  "order_loop validate update userID now [] processed returnErr w = (Inr (processed, returnErr), w)"
| "order_loop validate update userID now (i # ids) processed returnErr w =
     (case lockAndGetOrder i w of
        (Inl e, w1) \<Rightarrow>
          (if errors_Is e ErrNotFoundOrder
           then order_loop validate update userID now ids processed (Some (WrapSuf ErrNotFoundOrder i)) w1
           else (Inl (database_error e), w1))
      | (Inr o1, w1) \<Rightarrow>
          (case validate o1 userID now of
             Some e \<Rightarrow> (Inr (processed, Some e), w1)
           | None \<Rightarrow>
               (case update i now w1 of
                  (Some e, w2) \<Rightarrow> (Inl (database_error e), w2)
                | (None, w2) \<Rightarrow> order_loop validate update userID now ids (processed @ [i]) returnErr w2)))"

definition order_transaction ::
    "(order \<Rightarrow> string \<Rightarrow> time \<Rightarrow> goerror option) \<Rightarrow> (string \<Rightarrow> time \<Rightarrow> pg \<Rightarrow> goerror option \<times> pg) \<Rightarrow>
     time \<Rightarrow> string \<Rightarrow> string list \<Rightarrow> pg \<Rightarrow> (goerror + processed_orders) \<times> pg" where
  "order_transaction validate update now userID ids w = (case db_call w of
      (Some e, w1) \<Rightarrow> (Inl (database_error e), w1)
    | (None, w1) \<Rightarrow> (case order_loop validate update userID now ids [] None w1 of
        (Inl e, w2) \<Rightarrow> (Inl e, rollback w1 w2)
      | (Inr (processed, returnErr), w2) \<Rightarrow> (case commit w1 w2 of
          (Some e, w3) \<Rightarrow> (Inl (database_error e), w3)
        | (None, w3) \<Rightarrow> (Inr \<lparr>UserID = userID, OrderIDs = processed,
             Failed = getFailedOrders ids processed, ProcError = returnErr\<rparr>, w3))))"

definition UserOrderStorage_IssueOrders ::
    "pg_env \<Rightarrow> time \<Rightarrow> string \<Rightarrow> string list \<Rightarrow> pg \<Rightarrow> (goerror + processed_orders) \<times> pg" where
  "UserOrderStorage_IssueOrders E = order_transaction validateOrderForIssue (updateIssueTime E)"

definition UserOrderStorage_RefundOrders ::
    "pg_env \<Rightarrow> time \<Rightarrow> string \<Rightarrow> string list \<Rightarrow> pg \<Rightarrow> (goerror + processed_orders) \<times> pg" where
  "UserOrderStorage_RefundOrders E = order_transaction validateOrderForRefund (updateRefundTime E)"

definition pg_user_order_storage :: "pg_env \<Rightarrow> pg user_order_storage" where
  "pg_user_order_storage E = \<lparr>uos_IssueOrders = UserOrderStorage_IssueOrders E,
     uos_RefundOrders = UserOrderStorage_RefundOrders E\<rparr>"

section \<open>The repository\<close>

definition userOrderRepository_IssueOrders ::
    "'w user_order_storage \<Rightarrow> time \<Rightarrow> string \<Rightarrow> string list \<Rightarrow> 'w \<Rightarrow> (goerror + processed_orders) \<times> 'w" where
  "userOrderRepository_IssueOrders S now userID ids w =
     (case uos_IssueOrders S now userID ids w of
        (Inl e, w') \<Rightarrow> (if errors_Is e ErrDatabase then (Inl ErrDatabase, w') else (Inl e, w'))
      | (Inr res, w') \<Rightarrow> (Inr res, w'))"

definition userOrderRepository_RefundOrders ::
    "'w user_order_storage \<Rightarrow> time \<Rightarrow> string \<Rightarrow> string list \<Rightarrow> 'w \<Rightarrow> (goerror + processed_orders) \<times> 'w" where
  "userOrderRepository_RefundOrders S now userID ids w =
     (case uos_RefundOrders S now userID ids w of
        (Inl e, w') \<Rightarrow> (if errors_Is e ErrDatabase then (Inl ErrDatabase, w') else (Inl e, w'))
      | (Inr res, w') \<Rightarrow> (Inr res, w'))"

section \<open>Facts about the checks\<close>

lemma validateOrderForIssue_None:
  "validateOrderForIssue o1 u now = None \<longleftrightarrow>
     RecipientID o1 = u \<and> Status o1 = StatusStored \<and> now \<le> Expiry o1"
  by (auto simp: validateOrderForIssue_def)

lemma validateOrderForRefund_None:
  "validateOrderForRefund o1 u now = None \<longleftrightarrow>
     RecipientID o1 = u \<and> Status o1 = StatusIssued \<and>
     (\<exists>t. IssuedAt o1 = Some t \<and> now - t \<le> 48 * hour)"
proof -
  have "time_Sub now t > 48 * hour \<longleftrightarrow> now - t > 48 * hour" for t
    by (rule time_Sub_gt) simp_all
  then show ?thesis
    using Status_issued_only [of o1]
    by (auto simp: validateOrderForRefund_def split: option.splits)
qed

text \<open>A locked read of an order that is not there is a database error, not the error that the
  loops look for.\<close>

lemma lockAndGetOrder_result:
  assumes "lockAndGetOrder i w = (r, w')"
  shows "same_tables w w' \<and> orders_id_seq w' = orders_id_seq w \<and> tasks_id_seq w' = tasks_id_seq w \<and>
    (case r of Inr o1 \<Rightarrow> stored_orders w i = Some o1 | Inl e \<Rightarrow> \<exists>s. e = WrapSuf ErrDatabase s)"
proof -
  obtain q where q: "query_row (filter (\<lambda>r. order_id r = i) (orders w)) w = (q, w')"
    using assms by (auto simp: lockAndGetOrder_def split: prod.splits sum.splits if_splits)
  have f: "OrderStorage_FindOrderByID i w = (ScanOrder q, w')"
    by (simp add: OrderStorage_FindOrderByID_def q)
  have "tasks_id_seq w' = tasks_id_seq w"
    using q db_call_frame(6) [of w]
    by (auto simp: query_row_def split: prod.splits option.splits list.splits)
  with FindOrderByID_result [OF f] assms q show ?thesis
    by (auto simp: lockAndGetOrder_def database_error_def errors_Is_flat
        split: sum.splits option.splits if_splits)
qed

lemma lockAndGetOrder_no_faults:
  assumes "script w = []"
  shows "lockAndGetOrder i w = (case stored_orders w i of
      None \<Rightarrow> Inl (database_error ErrNotFoundOrder) | Some o1 \<Rightarrow> Inr o1, w)"
  using assms
  by (auto simp: lockAndGetOrder_def query_row_def pg_simps stored_orders_def find_as_filter
      errors_Is_flat split: list.splits option.splits)

section \<open>What a batch does\<close>

text \<open>A stamp writes its mark into the rows of one order and touches nothing else.\<close>

definition stamp_rows :: "(order_row \<Rightarrow> order_row) \<Rightarrow> string set \<Rightarrow> order_row list \<Rightarrow> order_row list" where
  "stamp_rows mark ids rows = map (\<lambda>r. if order_id r \<in> ids then mark r else r) rows"

locale order_batch =
  fixes check :: "order \<Rightarrow> string \<Rightarrow> time \<Rightarrow> goerror option"
    and stamp :: "string \<Rightarrow> time \<Rightarrow> pg \<Rightarrow> goerror option \<times> pg"
    and mark :: "time \<Rightarrow> order_row \<Rightarrow> order_row"
  assumes stamp_None: "stamp i t w = (None, w') \<Longrightarrow>
      orders w' = stamp_rows (mark t) {i} (orders w) \<and> packaging_types w' = packaging_types w \<and>
      users w' = users w \<and> audit_tasks w' = audit_tasks w \<and>
      orders_id_seq w' = orders_id_seq w \<and> tasks_id_seq w' = tasks_id_seq w"
    and stamp_Some: "stamp i t w = (Some e, w') \<Longrightarrow>
      orders_id_seq w' = orders_id_seq w \<and> tasks_id_seq w' = tasks_id_seq w"
    and stamp_calm: "script w = [] \<Longrightarrow> fst (stamp i t w) = None \<and> script (snd (stamp i t w)) = []"
    and mark_key: "order_id (mark t r) = order_id r" "row_id (mark t r) = row_id r"
      "packaging (mark t r) = packaging r"
    and mark_idem: "mark t (mark t r) = mark t r"
begin

lemma stamp_rows_Un: "stamp_rows (mark t) A (stamp_rows (mark t) B rows) = stamp_rows (mark t) (A \<union> B) rows"
  by (auto simp: stamp_rows_def mark_key mark_idem)

lemma find_stamped:
  "find (\<lambda>r. order_id r = i) (stamp_rows (mark t) A rows) =
    map_option (\<lambda>r. if i \<in> A then mark t r else r) (find (\<lambda>r. order_id r = i) rows)"
  by (induction rows) (auto simp: stamp_rows_def mark_key)

lemma stored_stamped:
  assumes "orders w' = stamp_rows (mark t) A (orders w)"
  shows "stored_orders w' i =
    (if i \<in> A then map_option (row_order \<circ> mark t) (find (\<lambda>r. order_id r = i) (orders w))
     else stored_orders w i)"
  by (simp add: stored_orders_def assms find_stamped option.map_comp comp_def)

lemma orders_ok_stamped:
  assumes "orders w' = stamp_rows (mark t) A (orders w)" "packaging_types w' = packaging_types w"
    "orders_id_seq w' = orders_id_seq w" "orders_ok w"
  shows "orders_ok w'"
proof -
  have "map order_id (orders w') = map order_id (orders w)" "map row_id (orders w') = map row_id (orders w)"
    by (auto simp: assms(1) stamp_rows_def mark_key)
  moreover have "r \<in> set (orders w') \<Longrightarrow> \<exists>q \<in> set (orders w). row_id r = row_id q \<and> packaging r = packaging q" for r
    by (auto simp: assms(1) stamp_rows_def mark_key)
  ultimately show ?thesis
    using assms(2-4) unfolding orders_ok_def by metis
qed

text \<open>
  The loop, when it does not return an error: it handles a prefix of the ids, it has checked
  each of them, and it has stamped exactly these. It breaks off at the first id whose order
  fails the check.
\<close>

lemma loop_result:
  assumes "order_loop check stamp u now ids acc err w = (Inr (processed, err'), w')"
  shows "\<exists>handled rest. ids = handled @ rest \<and> processed = acc @ handled \<and>
    orders w' = stamp_rows (mark now) (set handled) (orders w) \<and>
    packaging_types w' = packaging_types w \<and> users w' = users w \<and> audit_tasks w' = audit_tasks w \<and>
    orders_id_seq w' = orders_id_seq w \<and> tasks_id_seq w' = tasks_id_seq w \<and>
    (\<forall>i \<in> set handled. \<exists>o1. stored_orders w i = Some o1 \<and> check o1 u now = None) \<and>
    (case rest of [] \<Rightarrow> err' = err
     | i # _ \<Rightarrow> \<exists>o1 e. stored_orders w' i = Some o1 \<and> check o1 u now = Some e \<and> err' = Some e)"
  using assms
proof (induction ids arbitrary: acc w)
  case Nil
  then show ?case by (auto simp: stamp_rows_def)
next
  case (Cons i ids)
  obtain r w1 where l: "lockAndGetOrder i w = (r, w1)" by fastforce
  note lr = lockAndGetOrder_result [OF l]
  obtain o1 where o1: "r = Inr o1"
    using Cons.prems l lr by (cases r) (auto simp: errors_Is_flat)
  with lr have st: "stored_orders w i = Some o1" and t1: "same_tables w w1" by simp_all
  show ?case
  proof (cases "check o1 u now")
    case (Some e)
    with Cons.prems l o1 have "processed = acc" "err' = Some e" "w' = w1" by auto
    with lr Some st stored_orders_frame [OF t1] show ?thesis
      by (intro exI [of _ "[]"] exI [of _ "i # ids"]) (auto simp: stamp_rows_def same_tables_def)
  next
    case None
    obtain q w2 where s: "stamp i now w1 = (q, w2)" by fastforce
    with Cons.prems l o1 None have q: "q = None"
      and rec: "order_loop check stamp u now ids (acc @ [i]) err w2 = (Inr (processed, err'), w')"
      by (auto split: option.splits)
    from stamp_None s q have w2: "orders w2 = stamp_rows (mark now) {i} (orders w1)"
      "packaging_types w2 = packaging_types w1" "users w2 = users w1" "audit_tasks w2 = audit_tasks w1"
      "orders_id_seq w2 = orders_id_seq w1" "tasks_id_seq w2 = tasks_id_seq w1" by auto
    from Cons.IH [OF rec] obtain handled rest where h: "ids = handled @ rest" "processed = (acc @ [i]) @ handled"
      "orders w' = stamp_rows (mark now) (set handled) (orders w2)"
      "packaging_types w' = packaging_types w2" "users w' = users w2" "audit_tasks w' = audit_tasks w2"
      "orders_id_seq w' = orders_id_seq w2" "tasks_id_seq w' = tasks_id_seq w2"
      "\<forall>j \<in> set handled. \<exists>o1. stored_orders w2 j = Some o1 \<and> check o1 u now = None"
      "case rest of [] \<Rightarrow> err' = err
        | j # _ \<Rightarrow> \<exists>o1 e. stored_orders w' j = Some o1 \<and> check o1 u now = Some e \<and> err' = Some e"
      by blast
    have "stored_orders w j = stored_orders w2 j" if "j \<noteq> i" for j
      using that stored_stamped [OF w2(1), of j] stored_orders_frame [OF t1] by simp
    with h(9) st None have "\<forall>j \<in> set (i # handled). \<exists>o1. stored_orders w j = Some o1 \<and> check o1 u now = None"
      by (metis set_ConsD)
    with h w2 lr t1 show ?thesis
      by (intro exI [of _ "i # handled"] exI [of _ rest])
        (auto simp: stamp_rows_Un same_tables_def insert_commute)
  qed
qed

lemma loop_error_seq:
  assumes "order_loop check stamp u now ids acc err w = (Inl e, w')"
  shows "orders_id_seq w' = orders_id_seq w \<and> tasks_id_seq w' = tasks_id_seq w \<and> (\<exists>s. e = WrapSuf ErrDatabase s)"
  using assms
proof (induction ids arbitrary: acc w)
  case (Cons i ids)
  obtain r w1 where l: "lockAndGetOrder i w = (r, w1)" by fastforce
  note lr = lockAndGetOrder_result [OF l]
  show ?case
  proof (cases r)
    case (Inl e1)
    with Cons.prems l lr show ?thesis by (auto simp: errors_Is_flat database_error_def)
  next
    case (Inr o1)
    obtain q w2 where s: "stamp i now w1 = (q, w2)" by fastforce
    with Cons.prems l Inr have
      "(\<exists>e2. q = Some e2 \<and> w' = w2 \<and> e = database_error e2) \<or>
       (q = None \<and> order_loop check stamp u now ids (acc @ [i]) err w2 = (Inl e, w'))"
      by (auto split: option.splits)
    with Cons.IH [of "acc @ [i]" w2] lr stamp_None [of i now w1 w2] stamp_Some [of i now w1 _ w2] s
    show ?thesis by (auto simp: database_error_def)
  qed
qed simp

text \<open>The transaction: all of the handled ids or, on an error, nothing.\<close>

lemma transaction_result:
  assumes "orders_ok w" and "order_transaction check stamp now u ids w = (Inr res, w')"
  shows "\<exists>handled rest. ids = handled @ rest \<and> OrderIDs res = handled \<and> UserID res = u \<and>
    Failed res = filter (\<lambda>i. i \<notin> set handled) rest \<and>
    (\<forall>i \<in> set handled. \<exists>o1. stored_orders w i = Some o1 \<and> check o1 u now = None) \<and>
    (case rest of [] \<Rightarrow> ProcError res = None
     | i # _ \<Rightarrow> \<exists>o1 e. stored_orders w' i = Some o1 \<and> check o1 u now = Some e \<and> ProcError res = Some e) \<and>
    orders w' = stamp_rows (mark now) (set handled) (orders w) \<and> orders_ok w' \<and>
    packaging_types w' = packaging_types w \<and> users w' = users w \<and> audit_tasks w' = audit_tasks w"
proof -
  from assms(2) obtain w1 processed err w2 where t: "db_call w = (None, w1)"
    "order_loop check stamp u now ids [] None w1 = (Inr (processed, err), w2)" "commit w1 w2 = (None, w')"
    "res = \<lparr>UserID = u, OrderIDs = processed, Failed = getFailedOrders ids processed, ProcError = err\<rparr>"
    by (auto simp: order_transaction_def split: prod.splits option.splits sum.splits)
  note f1 = db_call_frame [OF t(1)] and f2 = db_call_frame [OF commit_None [OF t(3)]]
  have st: "stored_orders w1 = stored_orders w" "stored_orders w' = stored_orders w2"
    using stored_orders_frame db_call_same [OF t(1)] db_call_same [OF commit_None [OF t(3)]] by auto
  from loop_result [OF t(2)] obtain handled rest where h: "ids = handled @ rest" "processed = handled"
    "orders w2 = stamp_rows (mark now) (set handled) (orders w1)"
    "packaging_types w2 = packaging_types w1" "users w2 = users w1" "audit_tasks w2 = audit_tasks w1"
    "orders_id_seq w2 = orders_id_seq w1"
    "\<forall>i \<in> set handled. \<exists>o1. stored_orders w1 i = Some o1 \<and> check o1 u now = None"
    "case rest of [] \<Rightarrow> err = None
      | i # _ \<Rightarrow> \<exists>o1 e. stored_orders w2 i = Some o1 \<and> check o1 u now = Some e \<and> err = Some e"
    by auto
  have "orders_ok w'"
    using h f1 f2 assms(1) by (intro orders_ok_stamped [of w' now "set handled" w]) simp_all
  with h f1 f2 st t(4) show ?thesis
    by (rule_tac x = handled in exI, rule_tac x = rest in exI)
      (auto simp: getFailedOrders_def split: list.splits)
qed

lemma transaction_error:
  assumes "order_transaction check stamp now u ids w = (Inl e, w')"
  shows "same_tables w w' \<and> orders_id_seq w' = orders_id_seq w \<and> (\<exists>s. e = WrapSuf ErrDatabase s)"
proof -
  obtain q w1 where c: "db_call w = (q, w1)" by fastforce
  note f = db_call_frame [OF c] db_call_same [OF c]
  show ?thesis
  proof (cases q)
    case None
    obtain r w2 where l: "order_loop check stamp u now ids [] None w1 = (r, w2)" by fastforce
    show ?thesis
    proof (cases r)
      case (Inl e1)
      with assms c None l have "e = e1" "w' = rollback w1 w2"
        by (auto simp: order_transaction_def)
      with loop_error_seq [of u now ids "[]" None w1 e1 w2] l Inl f show ?thesis
        by (auto simp: frame_simps intro: same_tables_trans)
    next
      case (Inr pr)
      obtain processed err where pr: "pr = (processed, err)" by fastforce
      obtain q3 w3 where cm: "commit w1 w2 = (q3, w3)" by fastforce
      with assms c None l Inr pr obtain e3 where "q3 = Some e3" "w' = w3" "e = database_error e3"
        by (auto simp: order_transaction_def split: option.splits)
      moreover have "orders_id_seq w2 = orders_id_seq w1"
        using loop_result [of u now ids "[]" None w1 processed err w2] l Inr pr by auto
      ultimately show ?thesis
        using cm commit_Some [of w1 w2 e3 w3] commit_seq [OF cm] f
        by (auto simp: database_error_def intro: same_tables_trans)
    qed
  qed (use assms c f in \<open>auto simp: order_transaction_def database_error_def\<close>)
qed

text \<open>
  An id that is not in the table, after ids that pass the check, turns the whole batch into an
  error, whatever the server does.
\<close>

lemma transaction_missing:
  assumes ok: "orders_ok w" and ids: "ids = before @ i # after" and missing: "stored_orders w i = None"
    and dist: "distinct before"
    and good: "\<And>j. j \<in> set before \<Longrightarrow> \<exists>o1. stored_orders w j = Some o1 \<and> check o1 u now = None"
    and run: "order_transaction check stamp now u ids w = (res, w')"
  shows "\<exists>s. res = Inl (WrapSuf ErrDatabase s) \<and> same_tables w w'"
proof (cases res)
  case (Inl e)
  with transaction_error [of now u ids w e w'] run show ?thesis by auto
next
  case (Inr x)
  from transaction_result [OF ok run [unfolded Inr]] obtain handled rest where
    h: "before @ i # after = handled @ rest"
      "\<forall>j \<in> set handled. \<exists>o1. stored_orders w j = Some o1 \<and> check o1 u now = None"
      "case rest of [] \<Rightarrow> ProcError x = None
       | j # _ \<Rightarrow> \<exists>o1 e. stored_orders w' j = Some o1 \<and> check o1 u now = Some e \<and> ProcError x = Some e"
      "orders w' = stamp_rows (mark now) (set handled) (orders w)"
    by (auto simp: ids)
  have "i \<notin> set handled" using h(2) missing by auto
  with h(1) obtain more where split: "before = handled @ more" "rest = more @ i # after"
    by (auto simp: append_eq_append_conv2 Cons_eq_append_conv)
  let ?j = "hd rest"
  have j: "?j \<notin> set handled" "?j = i \<or> ?j \<in> set before"
    using split dist \<open>i \<notin> set handled\<close> by (cases more; auto)+
  have "stored_orders w' ?j = stored_orders w ?j"
    using stored_stamped [OF h(4), of ?j] j(1) by simp
  moreover obtain o1 e where "stored_orders w' ?j = Some o1" "check o1 u now = Some e"
    using h(3) split(2) by (cases more) auto
  ultimately show ?thesis
    using j(2) missing good [of ?j] by auto
qed

text \<open>Without server failures, a batch of orders that are all there is never an error.\<close>

lemma loop_calm:
  assumes "script w = []" "list_all (\<lambda>i. stored_orders w i \<noteq> None) ids"
  shows "\<exists>x w'. order_loop check stamp u now ids acc err w = (Inr x, w') \<and> script w' = []"
  using assms
proof (induction ids arbitrary: acc w)
  case (Cons i ids)
  then obtain o1 where o1: "stored_orders w i = Some o1" by auto
  obtain q w2 where s: "stamp i now w = (q, w2)" by fastforce
  with stamp_calm [OF Cons.prems(1), of i now] have q: "q = None" "script w2 = []" by auto
  have "stored_orders w2 j \<noteq> None" if "stored_orders w j \<noteq> None" for j
    using stamp_None [OF s [unfolded q(1)]] stored_stamped [of w2 now "{i}" w j] that
    by (auto simp: stored_orders_def)
  with Cons.prems(2) have "list_all (\<lambda>j. stored_orders w2 j \<noteq> None) ids" by (auto simp: list_all_iff)
  from Cons.IH [OF q(2) this] o1 s q(1) show ?case
    by (auto simp: lockAndGetOrder_no_faults [OF Cons.prems(1)] Cons.prems(1) split: option.splits)
qed simp

lemma transaction_calm:
  assumes "script w = []" "list_all (\<lambda>i. stored_orders w i \<noteq> None) ids"
  shows "\<exists>x w'. order_transaction check stamp now u ids w = (Inr x, w') \<and> script w' = []"
proof -
  from loop_calm [OF assms] obtain x w' where l: "order_loop check stamp u now ids [] None w = (Inr x, w')"
    "script w' = []" by blast
  obtain p e where "x = (p, e)" by fastforce
  with l assms(1) show ?thesis by (auto simp: order_transaction_def pg_simps)
qed

text \<open>And a batch of distinct orders that pass the check is handled completely.\<close>

lemma transaction_complete:
  assumes "orders_ok w" "script w = []" "distinct ids"
    and good: "\<And>i. i \<in> set ids \<Longrightarrow> \<exists>o1. stored_orders w i = Some o1 \<and> check o1 u now = None"
  shows "\<exists>w'. order_transaction check stamp now u ids w =
      (Inr \<lparr>UserID = u, OrderIDs = ids, Failed = [], ProcError = None\<rparr>, w') \<and>
    orders w' = stamp_rows (mark now) (set ids) (orders w) \<and> orders_ok w' \<and> script w' = []"
proof -
  have "list_all (\<lambda>i. stored_orders w i \<noteq> None) ids" using good by (force simp: list_all_iff)
  from transaction_calm [OF assms(2) this] obtain x w' where
    t: "order_transaction check stamp now u ids w = (Inr x, w')" "script w' = []" by blast
  from transaction_result [OF assms(1) t(1)] obtain handled rest where h: "ids = handled @ rest"
    "OrderIDs x = handled" "UserID x = u" "Failed x = filter (\<lambda>i. i \<notin> set handled) rest"
    "case rest of [] \<Rightarrow> ProcError x = None
     | i # _ \<Rightarrow> \<exists>o1 e. stored_orders w' i = Some o1 \<and> check o1 u now = Some e \<and> ProcError x = Some e"
    "orders w' = stamp_rows (mark now) (set handled) (orders w)" "orders_ok w'" by blast
  have "rest = []"
  proof (cases rest)
    case (Cons j js)
    with h(1) assms(3) have "j \<notin> set handled" by auto
    with stored_stamped [OF h(6), of j] have "stored_orders w' j = stored_orders w j" by simp
    with h(5) Cons good [of j] h(1) show ?thesis by auto
  qed simp
  with h t show ?thesis by (cases x) auto
qed

end

text \<open>
  Where the mark of a row is a change \<open>put\<close> of the order it holds, the batch can be read on
  the map of stored orders. \<open>batch_spec\<close> is what a batch promises: a prefix of the ids is
  handled, each of its orders passed the check and has the change, no other order is touched, and
  the batch stopped only at the end or at an order that fails the check.
\<close>

definition batch_spec ::
    "(order \<Rightarrow> goerror option) \<Rightarrow> (order \<Rightarrow> order) \<Rightarrow> string \<Rightarrow> string list \<Rightarrow>
     (string \<Rightarrow> order option) \<Rightarrow> processed_orders \<Rightarrow> (string \<Rightarrow> order option) \<Rightarrow> bool" where
  "batch_spec check put u ids m res m' \<longleftrightarrow>
     (\<exists>rest. ids = OrderIDs res @ rest \<and> UserID res = u \<and>
        Failed res = filter (\<lambda>i. i \<notin> set (OrderIDs res)) rest \<and>
        list_all (\<lambda>i. \<exists>o1. m i = Some o1 \<and> check o1 = None) (OrderIDs res) \<and>
        m' = (\<lambda>i. if i \<in> set (OrderIDs res) then map_option put (m i) else m i) \<and>
        (case rest of [] \<Rightarrow> ProcError res = None
         | i # _ \<Rightarrow> \<exists>o1 e. m' i = Some o1 \<and> check o1 = Some e \<and> ProcError res = Some e))"

locale order_change = order_batch +
  fixes put :: "time \<Rightarrow> order \<Rightarrow> order"
  assumes row_put: "row_order (mark t r) = put t (row_order r)"
begin

lemma stored_put:
  assumes "orders w' = stamp_rows (mark t) A (orders w)"
  shows "stored_orders w' = (\<lambda>i. if i \<in> A then map_option (put t) (stored_orders w i) else stored_orders w i)"
  by (rule ext) (simp add: stored_orders_def assms find_stamped option.map_comp comp_def row_put)

lemma transaction_spec:
  assumes "orders_ok w" and "order_transaction check stamp now u ids w = (Inr res, w')"
  shows "batch_spec (\<lambda>o1. check o1 u now) (put now) u ids (stored_orders w) res (stored_orders w') \<and> orders_ok w'"
proof -
  from transaction_result [OF assms] obtain handled rest where h: "ids = handled @ rest" "OrderIDs res = handled"
    "UserID res = u" "Failed res = filter (\<lambda>i. i \<notin> set handled) rest"
    "\<forall>i \<in> set handled. \<exists>o1. stored_orders w i = Some o1 \<and> check o1 u now = None"
    "case rest of [] \<Rightarrow> ProcError res = None
     | i # _ \<Rightarrow> \<exists>o1 e. stored_orders w' i = Some o1 \<and> check o1 u now = Some e \<and> ProcError res = Some e"
    "orders w' = stamp_rows (mark now) (set handled) (orders w)" "orders_ok w'" by blast
  show ?thesis
    using h(1-6,8) stored_put [OF h(7)] unfolding batch_spec_def
    by (auto simp: list_all_iff intro!: exI [of _ rest])
qed

end

section \<open>Interpretation for the issue and for the refund\<close>

definition mark_issued :: "pg_env \<Rightarrow> time \<Rightarrow> order_row \<Rightarrow> order_row" where
  "mark_issued E t r = r\<lparr>issued_at := Some (pg_timestamp E t)\<rparr>"

definition mark_refunded :: "pg_env \<Rightarrow> time \<Rightarrow> order_row \<Rightarrow> order_row" where
  "mark_refunded E t r = r\<lparr>refunded_at := Some (pg_timestamp E t)\<rparr>"

interpretation issue: order_batch validateOrderForIssue "updateIssueTime E" "mark_issued E" for E
proof (unfold_locales, goal_cases)
  case (1 i t w w')
  then show ?case
    using db_call_frame [of w]
    by (auto simp: updateIssueTime_def stamp_rows_def mark_issued_def split: prod.splits option.splits)
next
  case (2 i t w e w')
  then show ?case
    using db_call_frame [of w] by (auto simp: updateIssueTime_def split: prod.splits option.splits)
qed (simp_all add: mark_issued_def updateIssueTime_def pg_simps)

interpretation refund: order_batch validateOrderForRefund "updateRefundTime E" "mark_refunded E" for E
proof (unfold_locales, goal_cases)
  case (1 i t w w')
  then show ?case
    using db_call_frame [of w]
    by (auto simp: updateRefundTime_def stamp_rows_def mark_refunded_def split: prod.splits option.splits)
next
  case (2 i t w e w')
  then show ?case
    using db_call_frame [of w] by (auto simp: updateRefundTime_def split: prod.splits option.splits)
qed (simp_all add: mark_refunded_def updateRefundTime_def pg_simps)

lemma row_order_mark_issued [simp]:
  "row_order (mark_issued E t r) = (row_order r)\<lparr>IssuedAt := Some (pg_timestamp E t)\<rparr>"
  by (simp add: row_order_def mark_issued_def)

lemma row_order_mark_refunded [simp]:
  "row_order (mark_refunded E t r) = (row_order r)\<lparr>RefundedAt := Some (pg_timestamp E t)\<rparr>"
  by (simp add: row_order_def mark_refunded_def)

text \<open>The order after it was issued, or refunded, at a time.\<close>

definition issued_order :: "pg_env \<Rightarrow> time \<Rightarrow> order \<Rightarrow> order" where
  "issued_order E t o1 = o1\<lparr>IssuedAt := Some (pg_timestamp E t)\<rparr>"

definition refunded_order :: "pg_env \<Rightarrow> time \<Rightarrow> order \<Rightarrow> order" where
  "refunded_order E t o1 = o1\<lparr>RefundedAt := Some (pg_timestamp E t)\<rparr>"

interpretation issue: order_change validateOrderForIssue "updateIssueTime E" "mark_issued E" "issued_order E" for E
  by unfold_locales (simp add: issued_order_def)

interpretation refund: order_change validateOrderForRefund "updateRefundTime E" "mark_refunded E" "refunded_order E" for E
  by unfold_locales (simp add: refunded_order_def)

section \<open>A sample batch\<close>

lemma issue_sample:
  "\<exists>w'. userOrderRepository_IssueOrders (pg_user_order_storage sample_env) 3000 ''u'' [''b''] sample_shop =
      (Inr \<lparr>UserID = ''u'', OrderIDs = [''b''], Failed = [], ProcError = None\<rparr>, w') \<and> script w' = []"
proof -
  have "validateOrderForIssue (row_order (sample_row 2 ''b'' ''u'')) ''u'' 3000 = None"
    by (simp add: validateOrderForIssue_def)
  then show ?thesis
    by (simp add: userOrderRepository_IssueOrders_def pg_user_order_storage_def UserOrderStorage_IssueOrders_def
        order_transaction_def pg_simps lockAndGetOrder_no_faults updateIssueTime_def getFailedOrders_def)
qed

section \<open>Properties\<close>

lemma issue_orders_spec:
  assumes "orders_ok w"
  shows "(case userOrderRepository_IssueOrders (pg_user_order_storage E) now u ids w of
      (Inl e, w') \<Rightarrow> e = ErrDatabase \<and> same_tables w w'
    | (Inr res, w') \<Rightarrow> orders_ok w' \<and>
        batch_spec (\<lambda>o1. validateOrderForIssue o1 u now) (issued_order E now) u ids
          (stored_orders w) res (stored_orders w'))"
proof -
  obtain r w' where t: "order_transaction validateOrderForIssue (updateIssueTime E) now u ids w = (r, w')"
    by fastforce
  show ?thesis
  proof (cases r)
    case (Inl e)
    with issue.transaction_error [OF t [unfolded Inl]] t show ?thesis
      by (auto simp: userOrderRepository_IssueOrders_def pg_user_order_storage_def UserOrderStorage_IssueOrders_def)
  next
    case (Inr res)
    with issue.transaction_spec [OF assms t [unfolded Inr]] t show ?thesis
      by (simp add: userOrderRepository_IssueOrders_def pg_user_order_storage_def UserOrderStorage_IssueOrders_def)
  qed
qed

text \<open>
  (C4) Issuing a list of orders to a user, under every pattern of server failures: the answer either
  is \<^verbatim>\<open>domain.ErrDatabase\<close> and no table has changed, or it meets the specification
  of a batch: exactly the reported orders are stamped as issued now, each belonged to the user, was
  in storage and not expired, and the first order that does not qualify ends the batch with its
  reason.
\<close>

theorem IssueOrders_result:
  assumes "orders_ok w"
  shows "(case userOrderRepository_IssueOrders (pg_user_order_storage E) now u ids w of
      (Inl e, w') \<Rightarrow> e = ErrDatabase \<and> same_tables w w'
    | (Inr res, w') \<Rightarrow> orders_ok w' \<and>
        batch_spec (\<lambda>o1. validateOrderForIssue o1 u now) (issued_order E now) u ids
          (stored_orders w) res (stored_orders w'))"
  by (rule issue_orders_spec [OF assms])

theorem IssueOrders_result_witness:
  "orders_ok sample_shop \<and>
   (\<exists>res w'. userOrderRepository_IssueOrders (pg_user_order_storage sample_env) 3000 ''u'' [''b''] sample_shop =
      (Inr res, w') \<and> OrderIDs res = [''b''] \<and> IssuedAt (the (stored_orders w' ''b'')) = Some 3000)"
proof -
  obtain w' where "userOrderRepository_IssueOrders (pg_user_order_storage sample_env) 3000 ''u'' [''b''] sample_shop =
      (Inr \<lparr>UserID = ''u'', OrderIDs = [''b''], Failed = [], ProcError = None\<rparr>, w')"
    using issue_sample by blast
  with IssueOrders_result [of sample_shop, where E = sample_env and now = 3000 and u = "''u''" and ids = "[''b'']"] show ?thesis
    by (auto simp: batch_spec_def issued_order_def sample_env_def)
qed

lemma refund_orders_spec:
  assumes "orders_ok w"
  shows "(case userOrderRepository_RefundOrders (pg_user_order_storage E) now u ids w of
      (Inl e, w') \<Rightarrow> e = ErrDatabase \<and> same_tables w w'
    | (Inr res, w') \<Rightarrow> orders_ok w' \<and>
        batch_spec (\<lambda>o1. validateOrderForRefund o1 u now) (refunded_order E now) u ids
          (stored_orders w) res (stored_orders w') \<and>
        list_all (\<lambda>i. \<exists>o1 t. stored_orders w i = Some o1 \<and> RecipientID o1 = u \<and> IssuedAt o1 = Some t \<and>
          now - t \<le> 48 * hour) (OrderIDs res))"
proof -
  obtain r w' where t: "order_transaction validateOrderForRefund (updateRefundTime E) now u ids w = (r, w')"
    by fastforce
  show ?thesis
  proof (cases r)
    case (Inl e)
    with refund.transaction_error [OF t [unfolded Inl]] t show ?thesis
      by (auto simp: userOrderRepository_RefundOrders_def pg_user_order_storage_def UserOrderStorage_RefundOrders_def)
  next
    case (Inr res)
    note spec = refund.transaction_spec [OF assms t [unfolded Inr]]
    then have "list_all (\<lambda>i. \<exists>o1 t. stored_orders w i = Some o1 \<and> RecipientID o1 = u \<and> IssuedAt o1 = Some t \<and>
          now - t \<le> 48 * hour) (OrderIDs res)"
      by (fastforce simp: batch_spec_def list_all_iff validateOrderForRefund_None)
    with Inr spec t show ?thesis
      by (simp add: userOrderRepository_RefundOrders_def pg_user_order_storage_def UserOrderStorage_RefundOrders_def)
  qed
qed

text \<open>
  (C5) Taking refunds, in the same way: exactly the reported orders are stamped as refunded now, and
  each belonged to the user and was issued at most 48 hours ago.
\<close>

theorem RefundOrders_result:
  assumes "orders_ok w"
  shows "(case userOrderRepository_RefundOrders (pg_user_order_storage E) now u ids w of
      (Inl e, w') \<Rightarrow> e = ErrDatabase \<and> same_tables w w'
    | (Inr res, w') \<Rightarrow> orders_ok w' \<and>
        batch_spec (\<lambda>o1. validateOrderForRefund o1 u now) (refunded_order E now) u ids
          (stored_orders w) res (stored_orders w') \<and>
        list_all (\<lambda>i. \<exists>o1 t. stored_orders w i = Some o1 \<and> RecipientID o1 = u \<and> IssuedAt o1 = Some t \<and>
          now - t \<le> 48 * hour) (OrderIDs res))"
  by (rule refund_orders_spec [OF assms])

theorem RefundOrders_result_witness:
  "orders_ok sample_shop \<and>
   (\<exists>res w'. userOrderRepository_RefundOrders (pg_user_order_storage sample_env) 3000 ''u'' [''b''] sample_shop =
      (Inr res, w') \<and> OrderIDs res = [] \<and> Failed res = [''b''] \<and> ProcError res = Some ErrNotIssuedOrder \<and>
      stored_orders w' = stored_orders sample_shop)"
proof -
  have "validateOrderForRefund (row_order (sample_row 2 ''b'' ''u'')) ''u'' 3000 = Some ErrNotIssuedOrder"
    by (simp add: validateOrderForRefund_def)
  then have "\<exists>w'. userOrderRepository_RefundOrders (pg_user_order_storage sample_env) 3000 ''u'' [''b''] sample_shop =
      (Inr \<lparr>UserID = ''u'', OrderIDs = [], Failed = [''b''], ProcError = Some ErrNotIssuedOrder\<rparr>, w')"
    by (simp add: userOrderRepository_RefundOrders_def pg_user_order_storage_def UserOrderStorage_RefundOrders_def
        order_transaction_def pg_simps lockAndGetOrder_no_faults getFailedOrders_def)
  with RefundOrders_result [of sample_shop, where E = sample_env and now = 3000 and u = "''u''" and ids = "[''b'']"] show ?thesis
    by (auto simp: batch_spec_def)
qed

text \<open>
  (C21) Without server failures, distinct orders that are all ready for their recipient are all
  issued, and nothing is reported as failed.
\<close>

theorem IssueOrders_complete:
  assumes "orders_ok w" "script w = []" "distinct ids"
    and "list_all (\<lambda>i. \<exists>o1. stored_orders w i = Some o1 \<and> RecipientID o1 = u \<and> Status o1 = StatusStored \<and>
      now \<le> Expiry o1) ids"
  shows "\<exists>w'. userOrderRepository_IssueOrders (pg_user_order_storage E) now u ids w =
      (Inr \<lparr>UserID = u, OrderIDs = ids, Failed = [], ProcError = None\<rparr>, w') \<and>
    stored_orders w' = (\<lambda>i. if i \<in> set ids then map_option (issued_order E now) (stored_orders w i)
      else stored_orders w i)"
proof -
  have good: "\<exists>o1. stored_orders w i = Some o1 \<and> validateOrderForIssue o1 u now = None" if "i \<in> set ids" for i
    using assms(4) that by (auto simp: list_all_iff validateOrderForIssue_None)
  from issue.transaction_complete [OF assms(1-3) good, of E] obtain w' where
    "UserOrderStorage_IssueOrders E now u ids w =
      (Inr \<lparr>UserID = u, OrderIDs = ids, Failed = [], ProcError = None\<rparr>, w')"
    "orders w' = stamp_rows (mark_issued E now) (set ids) (orders w)"
    by (auto simp: UserOrderStorage_IssueOrders_def)
  with issue.stored_put [of w' E now "set ids" w] show ?thesis
    by (simp add: userOrderRepository_IssueOrders_def pg_user_order_storage_def)
qed

theorem IssueOrders_complete_witness:
  "\<exists>w'. userOrderRepository_IssueOrders (pg_user_order_storage sample_env) 3000 ''u'' [''b'', ''a''] sample_shop =
      (Inr \<lparr>UserID = ''u'', OrderIDs = [''b'', ''a''], Failed = [], ProcError = None\<rparr>, w') \<and>
    IssuedAt (the (stored_orders w' ''a'')) = Some 3000"
  using IssueOrders_complete [of sample_shop "[''b'', ''a'']" "''u''" 3000 sample_env]
  by (fastforce simp: issued_order_def sample_env_def)

text \<open>
  (C25) An id that is not in the table, behind orders that are ready, makes the whole issue fail with
  \<^verbatim>\<open>domain.ErrDatabase\<close> and no order is issued: the branch of the loop that means to skip such an
  id and go on is never taken.
\<close>

theorem IssueOrders_missing:
  assumes "orders_ok w" "stored_orders w i = None" "distinct before"
    and "list_all (\<lambda>j. \<exists>o1. stored_orders w j = Some o1 \<and> RecipientID o1 = u \<and> Status o1 = StatusStored \<and>
      now \<le> Expiry o1) before"
  shows "fst (userOrderRepository_IssueOrders (pg_user_order_storage E) now u (before @ i # after) w) = Inl ErrDatabase \<and>
    stored_orders (snd (userOrderRepository_IssueOrders (pg_user_order_storage E) now u (before @ i # after) w)) =
    stored_orders w"
proof -
  have good: "\<exists>o1. stored_orders w j = Some o1 \<and> validateOrderForIssue o1 u now = None" if "j \<in> set before" for j
    using assms(4) that by (auto simp: list_all_iff validateOrderForIssue_None)
  obtain res w' where t: "order_transaction validateOrderForIssue (updateIssueTime E) now u (before @ i # after) w = (res, w')"
    by fastforce
  from issue.transaction_missing [OF assms(1) refl assms(2,3) good t] obtain s where
    "res = Inl (WrapSuf ErrDatabase s)" "same_tables w w'" by blast
  with t show ?thesis
    by (simp add: userOrderRepository_IssueOrders_def pg_user_order_storage_def UserOrderStorage_IssueOrders_def
        stored_orders_frame)
qed

theorem IssueOrders_missing_witness:
  "fst (userOrderRepository_IssueOrders (pg_user_order_storage sample_env) 3000 ''u'' [''b'', ''c'', ''a''] sample_shop) =
    Inl ErrDatabase"
  using IssueOrders_missing [of sample_shop "''c''" "[''b'']" "''u''" 3000 sample_env "[''a'']"] by simp

end
