(* ===== verification/Go_Time.thy ===== *)
theory Go_Time
  imports Go_Lib
begin

text \<open>
  What the sources use of \<^verbatim>\<open>time.Time.Format\<close>: the layouts \<^verbatim>\<open>RFC3339\<close> and
  \<^verbatim>\<open>RFC3339Nano\<close> of a time in UTC. Years before 1 do not occur: Go's zero time is the
  first day of year 1.
\<close>

section \<open>The calendar\<close>

definition leap_year :: "int \<Rightarrow> bool" where
  "leap_year y \<longleftrightarrow> y mod 4 = 0 \<and> (y mod 100 \<noteq> 0 \<or> y mod 400 = 0)"

text \<open>Days from 0001-01-01 to the first day of a year, and the year a day lies in: a year has
  at least 365 days and at most 366, so only a few years can hold a given day.\<close>

definition days_before_year :: "int \<Rightarrow> int" where
  "days_before_year y = 365 * (y - 1) + (y - 1) div 4 - (y - 1) div 100 + (y - 1) div 400"

definition year_of_day :: "int \<Rightarrow> int" where
  "year_of_day d =
     (case find (\<lambda>y. d < days_before_year (y + 1)) [d div 366 + 1 .. d div 365 + 1] of
        Some y \<Rightarrow> y | None \<Rightarrow> d div 365 + 1)"

definition month_lengths :: "int \<Rightarrow> int list" where
  "month_lengths y = [31, if leap_year y then 29 else 28, 31, 30, 31, 30, 31, 31, 30, 31, 30, 31]"

fun month_split :: "int list \<Rightarrow> int \<Rightarrow> int \<Rightarrow> int \<times> int" where
  "month_split [] m d = (m, d + 1)"
| "month_split (l # ls) m d = (if d < l then (m, d + 1) else month_split ls (m + 1) (d - l))"

definition civil_of_day :: "int \<Rightarrow> int \<times> int \<times> int" where
  "civil_of_day d =
     (let y = year_of_day d; (m, dd) = month_split (month_lengths y) 1 (d - days_before_year y)
      in (y, m, dd))"

section \<open>Formatting\<close>

definition pad :: "nat \<Rightarrow> int \<Rightarrow> string" where
  "pad k n = (let ds = nat_digits (nat n) in replicate (k - length ds) (CHR ''0'') @ ds)"

definition format_date :: "int \<Rightarrow> string" where
  "format_date d = (let (y, m, dd) = civil_of_day d in pad 4 y @ ''-'' @ pad 2 m @ ''-'' @ pad 2 dd)"

definition format_clock :: "int \<Rightarrow> string" where
  "format_clock s = pad 2 (s div 3600) @ '':'' @ pad 2 (s div 60 mod 60) @ '':'' @ pad 2 (s mod 60)"

definition format_fraction :: "int \<Rightarrow> string" where
  "format_fraction n = (if n = 0 then []
     else CHR ''.'' # rev (dropWhile (\<lambda>c. c = CHR ''0'') (rev (pad 9 n))))"

definition Format_RFC3339 :: "time \<Rightarrow> string" where
  "Format_RFC3339 t = format_date (t div (24 * hour)) @ ''T'' @
     format_clock (t div second mod 86400) @ ''Z''"

definition Format_RFC3339Nano :: "time \<Rightarrow> string" where
  "Format_RFC3339Nano t = format_date (t div (24 * hour)) @ ''T'' @
     format_clock (t div second mod 86400) @ format_fraction (t mod second) @ ''Z''"

section \<open>Facts\<close>

lemma days_before_year_lower: "1 \<le> y \<Longrightarrow> 365 * (y - 1) \<le> days_before_year y"
proof -
  assume "1 \<le> y"
  have "(y - 1) div 100 \<le> (y - 1) div 4"
    using \<open>1 \<le> y\<close> by (intro zdiv_mono2) simp_all
  moreover have "0 \<le> (y - 1) div 400"
    using \<open>1 \<le> y\<close> by (simp add: pos_imp_zdiv_nonneg_iff)
  ultimately show ?thesis by (simp add: days_before_year_def)
qed

text \<open>The search for the year always succeeds.\<close>

lemma year_of_day_bounds:
  assumes "0 \<le> d"
  shows "d < days_before_year (year_of_day d + 1)"
proof -
  let ?hi = "d div 365 + 1"
  have hi: "d < days_before_year (?hi + 1)"
  proof -
    have "d < 365 * ?hi"
      using pos_mod_bound [of 365 d] mult_div_mod_eq [of 365 d] by (simp add: algebra_simps)
    also have "\<dots> \<le> days_before_year (?hi + 1)"
      using days_before_year_lower [of "?hi + 1"] assms by (simp add: pos_imp_zdiv_nonneg_iff)
    finally show ?thesis .
  qed
  then show ?thesis
    by (cases "find (\<lambda>y. d < days_before_year (y + 1)) [d div 366 + 1 .. ?hi]")
      (auto simp: year_of_day_def dest: find_SomeD)
qed

lemma pad_ne_Nil [simp]: "pad k n \<noteq> []"
  by (simp add: pad_def Let_def)

lemma set_pad: "c \<in> set (pad k n) \<Longrightarrow> c = CHR ''0'' \<or> (\<exists>d < 10. c = digit d)"
  by (auto simp: pad_def Let_def dest: set_nat_digits)

lemma comma_notin_pad [simp]: "CHR '','' \<notin> set (pad k n)"
  using set_pad [of "CHR '',''" k n] digit_not_sign by force

text \<open>A formatted time holds no comma, so it can be one side of a cursor.\<close>

lemma comma_notin_Format: "CHR '','' \<notin> set (Format_RFC3339Nano t)"
proof -
  have "CHR '','' \<notin> set (format_fraction n)" for n
    by (auto simp: format_fraction_def dest: set_dropWhileD)
  then show ?thesis
    by (auto simp: Format_RFC3339Nano_def format_date_def format_clock_def split: prod.splits)
qed

lemma Format_ne_Nil [simp]: "Format_RFC3339Nano t \<noteq> []" "Format_RFC3339 t \<noteq> []"
  by (simp_all add: Format_RFC3339Nano_def Format_RFC3339_def)

end
