(* ===== verification/Report_Storage.thy ===== *)
theory Report_Storage
  imports Order_Storage Go_Time "HOL-Library.Product_Lexorder"
begin

text \<open>
  The reports: \<^verbatim>\<open>internal/storage/postgres/reportorderstorage\<close> and
  \<^verbatim>\<open>internal/repository/reportrepo\<close>. Three of the queries are paged: they return the
  first \<^verbatim>\<open>limit\<close> rows below a cursor, newest first, and the cursor of the next page. The
  locale \<open>keyset_report\<close> holds the contract of a paged query and the proof that following its
  cursors visits every row exactly once; it is interpreted for the orders of a user, for the
  refunded orders and for the history.
\<close>

section \<open>The interface\<close>

record 'w report_storage =
  rs_GetUserOrders :: "string \<Rightarrow> int \<Rightarrow> int option \<Rightarrow> string \<Rightarrow> 'w \<Rightarrow> (goerror + order list \<times> string) \<times> 'w"
  rs_GetRefundedOrders :: "int \<Rightarrow> int option \<Rightarrow> 'w \<Rightarrow> (goerror + order list \<times> string) \<times> 'w"
  rs_GetOrderHistory :: "int \<Rightarrow> time \<Rightarrow> int \<Rightarrow> 'w \<Rightarrow> (goerror + order list \<times> string) \<times> 'w"
  rs_GetHistoryOrderIDs :: "'w \<Rightarrow> (goerror + string list) \<times> 'w"
  rs_GetAllActiveOrderIDs :: "time \<Rightarrow> 'w \<Rightarrow> (goerror + string list) \<times> 'w"
  rs_GetUserActiveOrderIDs :: "time \<Rightarrow> string \<Rightarrow> 'w \<Rightarrow> (goerror + string list) \<times> 'w"
  rs_GetAllOrders :: "'w \<Rightarrow> (goerror + order list) \<times> 'w"

section \<open>Pieces of the queries\<close>

text \<open>\<^verbatim>\<open>LIMIT\<close>: a negative limit is an error the server reports while it executes the
  query, after \<^verbatim>\<open>Query\<close> has returned.\<close>

definition limit_query :: "int \<Rightarrow> 'a list \<Rightarrow> pg \<Rightarrow> (goerror + 'a list \<times> goerror option) \<times> pg" where
  "limit_query limit rows w =
     (if limit < 0
      then (case db_query [] w of
              (Inr (rs, None), w') \<Rightarrow> (Inr (rs, Some (ErrDriver ''LIMIT must not be negative'')), w')
            | res \<Rightarrow> res)
      else db_query (take (nat limit) rows) w)"

text \<open>An integer the driver can send as a parameter of type \<^verbatim>\<open>INT\<close>.\<close>

definition int4_ok :: "int \<Rightarrow> bool" where
  "int4_ok n \<longleftrightarrow> - (2 ^ 31) \<le> n \<and> n < 2 ^ 31"

definition int4_error :: goerror where
  "int4_error = ErrDriver ''unable to encode value for int4''"

text \<open>The loop over the rows; \<^verbatim>\<open>rows.Err()\<close> is not asked.\<close>

definition scanOrders :: "order_row list \<times> goerror option \<Rightarrow> goerror + order list" where
  "scanOrders rows = Inr (map row_order (fst rows))"

definition query_error :: "goerror \<Rightarrow> goerror" where
  "query_error e = WrapPre (u8 [1086, 1096, 1080, 1073, 1082, 1072, 32, 1079, 1072, 1087, 1088, 1086, 1089, 1072]) e"

definition scan_error :: "goerror \<Rightarrow> goerror" where
  "scan_error e = WrapPre (u8 [1086, 1096, 1080, 1073, 1082, 1072, 32, 1089, 1082, 1072, 1085, 1072]) e"

definition cursor_error :: "goerror \<Rightarrow> goerror" where
  "cursor_error e = WrapPre (u8 [1086, 1096, 1080, 1073, 1082, 1072, 32, 1087, 1086, 1083, 1091, 1095, 1077, 1085, 1080,
     1103, 32, 1082, 1091, 1088, 1089, 1086, 1088, 1072]) e"

definition next_cursor_error :: "goerror \<Rightarrow> goerror" where
  "next_cursor_error e = WrapPre (u8 [1086, 1096, 1080, 1073, 1082, 1072, 32, 1087, 1086, 1083, 1091, 1095, 1077, 1085, 1080,
     1103, 32, 1089, 1083, 1077, 1076, 1091, 1102, 1097, 1077, 1075, 1086, 32, 1082, 1091,
     1088, 1089, 1086, 1088, 1072]) e"

text \<open>\<^verbatim>\<open>SELECT id FROM orders WHERE order_id = $1\<close>.\<close>

definition select_id :: "string \<Rightarrow> pg \<Rightarrow> (goerror + int) \<times> pg" where
  "select_id i w = query_row (map row_id (filter (\<lambda>r. order_id r = i) (orders w))) w"

text \<open>\<^verbatim>\<open>ORDER BY\<close> a key, descending.\<close>

definition order_desc :: "(order_row \<Rightarrow> 'k::linorder) \<Rightarrow> order_row list \<Rightarrow> order_row list" where
  "order_desc key rows = rev (sort_key key rows)"

section \<open>The paged queries\<close>

definition user_filter :: "string \<Rightarrow> string \<Rightarrow> order_row \<Rightarrow> bool" where
  "user_filter userID status r \<longleftrightarrow> recipient_id r = userID \<and>
     (status = [] \<or>
      (status = ''stored'' \<and> stored_at r \<noteq> None \<and> issued_at r = None \<and> refunded_at r = None))"

definition below_cursor :: "int option \<Rightarrow> order_row \<Rightarrow> bool" where
  "below_cursor cursor r \<longleftrightarrow> (case cursor of None \<Rightarrow> True | Some c \<Rightarrow> row_id r < c)"

definition cursor_ok :: "int option \<Rightarrow> bool" where
  "cursor_ok cursor \<longleftrightarrow> (case cursor of None \<Rightarrow> True | Some c \<Rightarrow> int4_ok c)"

text \<open>
  \<^verbatim>\<open>GetUserOrders\<close> and \<^verbatim>\<open>GetRefundedOrders\<close> are the same code but for the
  condition of the query and the text of the error of the second query.
\<close>

definition id_page ::
    "pg_env \<Rightarrow> (order_row \<Rightarrow> bool) \<Rightarrow> (goerror \<Rightarrow> goerror) \<Rightarrow> int \<Rightarrow> int option \<Rightarrow> pg \<Rightarrow>
     (goerror + order list \<times> string) \<times> pg" where
  "id_page E P cursorErr limit cursor w =
     (if \<not> cursor_ok cursor then (Inl (query_error int4_error), w)
      else case limit_query limit
          (order_desc row_id (filter (\<lambda>r. P r \<and> below_cursor cursor r) (scan_orders E (orders w)))) w of
        (Inl e, w1) \<Rightarrow> (Inl (query_error e), w1)
      | (Inr rows, w1) \<Rightarrow>
          (case scanOrders rows of
             Inl e \<Rightarrow> (Inl (scan_error e), w1)
           | Inr os \<Rightarrow>
               (if os = [] then (Inr (os, []), w1)
                else case select_id (ID (last os)) w1 of
                  (Inl e, w2) \<Rightarrow> (Inl (cursorErr e), w2)
                | (Inr nextID, w2) \<Rightarrow> (Inr (os, Itoa nextID), w2))))"

definition ReportOrderStorage_GetUserOrders ::
    "pg_env \<Rightarrow> string \<Rightarrow> int \<Rightarrow> int option \<Rightarrow> string \<Rightarrow> pg \<Rightarrow> (goerror + order list \<times> string) \<times> pg" where
  "ReportOrderStorage_GetUserOrders E userID limit cursor status w =
     id_page E (user_filter userID status) cursor_error limit cursor w"

definition ReportOrderStorage_GetRefundedOrders ::
    "pg_env \<Rightarrow> int \<Rightarrow> int option \<Rightarrow> pg \<Rightarrow> (goerror + order list \<times> string) \<times> pg" where
  "ReportOrderStorage_GetRefundedOrders E limit cursor w =
     id_page E (\<lambda>r. refunded_at r \<noteq> None) next_cursor_error limit cursor w"

text \<open>
  The history: \<^verbatim>\<open>GREATEST\<close> of the three time stamps, a null counting as year 1, is the
  first key, the row number the second. The zero time with number 0 is the cursor of the first
  page.
\<close>

definition last_change :: "order_row \<Rightarrow> time" where
  "last_change r = greatest3 (stored_at r) (issued_at r) (refunded_at r)"

definition history_filter :: "time \<Rightarrow> int \<Rightarrow> order_row \<Rightarrow> bool" where
  "history_filter lastUpdatedCursor idCursor r \<longleftrightarrow>
     (lastUpdatedCursor = 0 \<and> idCursor = 0) \<or>
     (last_change r < lastUpdatedCursor \<or> (last_change r = lastUpdatedCursor \<and> row_id r < idCursor))"

definition ReportOrderStorage_GetOrderHistory ::
    "pg_env \<Rightarrow> int \<Rightarrow> time \<Rightarrow> int \<Rightarrow> pg \<Rightarrow> (goerror + order list \<times> string) \<times> pg" where
  "ReportOrderStorage_GetOrderHistory E limit lastUpdatedCursor idCursor w =
     (if \<not> int4_ok idCursor then (Inl (query_error int4_error), w)
      else case limit_query limit
          (order_desc (\<lambda>r. (last_change r, row_id r))
             (filter (history_filter (pg_timestamp E lastUpdatedCursor) idCursor)
                (scan_orders E (orders w)))) w of
        (Inl e, w1) \<Rightarrow> (Inl (query_error e), w1)
      | (Inr rows, w1) \<Rightarrow>
          (case scanOrders rows of
             Inl e \<Rightarrow> (Inl (scan_error e), w1)
           | Inr os \<Rightarrow>
               (if os = [] then (Inr (os, []), w1)
                else let lastOrder = last os
                  in case select_id (ID lastOrder) w1 of
                    (Inl e, w2) \<Rightarrow> (Inl (next_cursor_error e), w2)
                  | (Inr nextID, w2) \<Rightarrow>
                      (Inr (os, Format_RFC3339Nano (LastUpdated lastOrder) @ '','' @ Itoa nextID), w2))))"

section \<open>The lists of ids\<close>

definition id_list :: "(goerror + string list \<times> goerror option) \<times> pg \<Rightarrow> (goerror + string list) \<times> pg" where
  "id_list res = (case res of (Inl e, w) \<Rightarrow> (Inl e, w) | (Inr (ids, _), w) \<Rightarrow> (Inr ids, w))"

text \<open>An active order is stored and not expired, or was issued in the last 48 hours; the clock
  is the server's.\<close>

definition active_row :: "time \<Rightarrow> order_row \<Rightarrow> bool" where
  "active_row now r \<longleftrightarrow>
     (stored_at r \<noteq> None \<and> issued_at r = None \<and> refunded_at r = None \<and> expiry r > now) \<or>
     (refunded_at r = None \<and> (case issued_at r of None \<Rightarrow> False | Some t \<Rightarrow> t \<ge> now - 48 * hour))"

definition ReportOrderStorage_GetHistoryOrderIDs :: "pg_env \<Rightarrow> pg \<Rightarrow> (goerror + string list) \<times> pg" where
  "ReportOrderStorage_GetHistoryOrderIDs E w =
     id_list (db_query (map order_id (scan_orders E (orders w))) w)"

definition ReportOrderStorage_GetAllActiveOrderIDs ::
    "pg_env \<Rightarrow> time \<Rightarrow> pg \<Rightarrow> (goerror + string list) \<times> pg" where
  "ReportOrderStorage_GetAllActiveOrderIDs E now w =
     id_list (db_query (map order_id (filter (active_row now) (scan_orders E (orders w)))) w)"

definition ReportOrderStorage_GetUserActiveOrderIDs ::
    "pg_env \<Rightarrow> time \<Rightarrow> string \<Rightarrow> pg \<Rightarrow> (goerror + string list) \<times> pg" where
  "ReportOrderStorage_GetUserActiveOrderIDs E now userID w =
     id_list (db_query (map order_id
        (filter (\<lambda>r. recipient_id r = userID \<and> active_row now r) (scan_orders E (orders w)))) w)"

definition ReportOrderStorage_GetAllOrders :: "pg_env \<Rightarrow> pg \<Rightarrow> (goerror + order list) \<times> pg" where
  "ReportOrderStorage_GetAllOrders E w =
     (case db_query (scan_orders E (orders w)) w of
        (Inl e, w') \<Rightarrow> (Inl e, w')
      | (Inr rows, w') \<Rightarrow> (scanOrders rows, w'))"

definition pg_report_storage :: "pg_env \<Rightarrow> pg report_storage" where
  "pg_report_storage E = \<lparr>rs_GetUserOrders = ReportOrderStorage_GetUserOrders E,
     rs_GetRefundedOrders = ReportOrderStorage_GetRefundedOrders E,
     rs_GetOrderHistory = ReportOrderStorage_GetOrderHistory E,
     rs_GetHistoryOrderIDs = ReportOrderStorage_GetHistoryOrderIDs E,
     rs_GetAllActiveOrderIDs = ReportOrderStorage_GetAllActiveOrderIDs E,
     rs_GetUserActiveOrderIDs = ReportOrderStorage_GetUserActiveOrderIDs E,
     rs_GetAllOrders = ReportOrderStorage_GetAllOrders E\<rparr>"

section \<open>Following the cursors\<close>

text \<open>
  A client of a paged report asks for a page, reads the cursor that comes with it and asks for
  the next page, until there is no cursor. \<open>None\<close> is an error, a cursor that cannot be read,
  or more pages than the fuel.
\<close>

fun follow_cursors ::
    "nat \<Rightarrow> ('c \<Rightarrow> 'w \<Rightarrow> (goerror + 'o list \<times> string) \<times> 'w) \<Rightarrow> (string \<Rightarrow> 'c option) \<Rightarrow>
     'c \<Rightarrow> 'w \<Rightarrow> 'o list option" where
  "follow_cursors 0 ask read c w = None"
| "follow_cursors (Suc fuel) ask read c w =
     (case ask c w of
        (Inl e, w') \<Rightarrow> None
      | (Inr (os, next), w') \<Rightarrow>
          (if next = [] then Some os
           else case read next of
             None \<Rightarrow> None
           | Some c' \<Rightarrow> map_option ((@) os) (follow_cursors fuel ask read c' w')))"

text \<open>
  The contract of a paged report: its rows are strictly descending in a key; a cursor either
  bounds the key or is the start; a page is the first rows below its cursor, and the cursor it
  returns is bounded by the key of its last row.
\<close>

locale keyset_report =
  fixes ask :: "int \<Rightarrow> 'c \<Rightarrow> pg \<Rightarrow> (goerror + order list \<times> string) \<times> pg"
    and read :: "string \<Rightarrow> 'c option"
    and bound :: "'c \<Rightarrow> 'k::linorder option"
    and key :: "order_row \<Rightarrow> 'k"
    and report :: "pg \<Rightarrow> order_row list"
    and calm :: "pg \<Rightarrow> bool"
    and start :: 'c
  assumes report_desc: "calm w \<Longrightarrow> desc_on key (report w)"
    and start_bound: "bound start = None"
    and page_law: "calm w \<Longrightarrow> 1 \<le> limit \<Longrightarrow>
      rows = take (nat limit) (filter (\<lambda>r. case bound c of None \<Rightarrow> True | Some k \<Rightarrow> key r < k) (report w)) \<Longrightarrow>
      c = start \<or> (\<exists>r \<in> set (report w). bound c = Some (key r)) \<Longrightarrow>
      \<exists>next. ask limit c w = (Inr (map row_order rows, next), w) \<and>
        (rows = [] \<longrightarrow> next = []) \<and>
        (rows \<noteq> [] \<longrightarrow> next \<noteq> [] \<and> (\<exists>c'. read next = Some c' \<and> bound c' = Some (key (last rows))))"
begin

definition below :: "'c \<Rightarrow> order_row list \<Rightarrow> order_row list" where
  "below c = filter (\<lambda>r. case bound c of None \<Rightarrow> True | Some k \<Rightarrow> key r < k)"

lemma below_next:
  assumes "desc_on key rows" "below c rows \<noteq> []" "1 \<le> n"
    and "bound c' = Some (key (last (take n (below c rows))))"
  shows "below c' rows = drop n (below c rows)"
proof -
  define k where "k = key (last (take n (below c rows)))"
  define ok where "ok = (\<lambda>r. case bound c of None \<Rightarrow> True | Some b \<Rightarrow> key r < b)"
  have below: "below c rows = filter ok rows" by (simp add: below_def ok_def)
  have "take n (below c rows) \<noteq> []" using assms(2,3) by auto
  from in_set_takeD [OF last_in_set [OF this]] have "ok (last (take n (below c rows)))"
    by (simp add: below)
  then have sub: "ok r" if "key r < k" for r
    using that by (auto simp: ok_def k_def split: option.splits)
  have "below c' rows = filter (\<lambda>r. key r < k) rows"
    by (simp add: below_def assms(4) k_def)
  also have "\<dots> = filter (\<lambda>r. key r < k) (filter ok rows)"
    using sub by (auto simp: filter_filter intro: filter_cong)
  also have "\<dots> = filter (\<lambda>r. key r < k) (below c rows)" by (simp only: below)
  also have "\<dots> = drop n (below c rows)"
    unfolding k_def using assms by (intro desc_filter_below_page) (auto simp: below intro: desc_on_filter)
  finally show ?thesis .
qed

lemma follow_from:
  assumes "calm w" "1 \<le> limit" "length (below c (report w)) < fuel"
    and "c = start \<or> (\<exists>r \<in> set (report w). bound c = Some (key r))"
  shows "follow_cursors fuel (ask limit) read c w = Some (map row_order (below c (report w)))"
  using assms(3,4)
proof (induction fuel arbitrary: c)
  case (Suc fuel)
  let ?rest = "below c (report w)"
  let ?rows = "take (nat limit) ?rest"
  obtain nextc where a: "ask limit c w = (Inr (map row_order ?rows, nextc), w)"
    "?rows = [] \<Longrightarrow> nextc = []"
    "?rows \<noteq> [] \<Longrightarrow> nextc \<noteq> [] \<and> (\<exists>c'. read nextc = Some c' \<and> bound c' = Some (key (last ?rows)))"
    using page_law [OF assms(1,2) _ Suc.prems(2), of ?rows] by (auto simp: below_def)
  show ?case
  proof (cases "?rest = []")
    case True
    with a show ?thesis by simp
  next
    case False
    with assms(2) have ne: "?rows \<noteq> []" by simp
    with a(3) obtain c' where c': "nextc \<noteq> []" "read nextc = Some c'" "bound c' = Some (key (last ?rows))"
      by blast
    have rest: "below c' (report w) = drop (nat limit) ?rest"
      using below_next [OF report_desc [OF assms(1)] False _ c'(3)] assms(2) by simp
    have "last ?rows \<in> set (report w)"
      using last_in_set [OF ne] by (auto simp: below_def dest: in_set_takeD)
    moreover have "length (below c' (report w)) < fuel"
      using rest Suc.prems(1) assms(2) False by (cases ?rest) auto
    ultimately have "follow_cursors fuel (ask limit) read c' w = Some (map row_order (drop (nat limit) ?rest))"
      using Suc.IH [of c'] c'(3) rest by auto
    with a(1) c' show ?thesis
      by (simp add: map_append [symmetric] del: map_append)
  qed
qed simp

lemma follow_all:
  assumes "calm w" "1 \<le> limit" "length (report w) < fuel"
  shows "follow_cursors fuel (ask limit) read start w = Some (map row_order (report w))"
proof -
  have "below start (report w) = report w" by (simp add: below_def start_bound)
  with follow_from [OF assms(1,2), of start fuel] assms(3) show ?thesis by simp
qed

end

section \<open>The reports by row number\<close>

text \<open>The server answers every query, and row numbers fit the column's type.\<close>

definition report_calm :: "pg_env \<Rightarrow> pg \<Rightarrow> bool" where
  "report_calm E w \<longleftrightarrow> pg_env_ok E \<and> orders_ok w \<and> script w = [] \<and>
     list_all (\<lambda>r. int4_ok (row_id r)) (orders w)"

definition id_report :: "(order_row \<Rightarrow> bool) \<Rightarrow> pg \<Rightarrow> order_row list" where
  "id_report P w = order_desc row_id (filter P (orders w))"

definition read_id_cursor :: "string \<Rightarrow> int option option" where
  "read_id_cursor s = map_option Some (Atoi s)"

lemma set_order_desc [simp]: "set (order_desc key rows) = set rows"
  by (simp add: order_desc_def)

lemma length_order_desc [simp]: "length (order_desc key rows) = length rows"
  by (simp add: order_desc_def)

lemma filter_order_desc: "filter P (order_desc key rows) = order_desc key (filter P rows)"
  by (simp add: order_desc_def filter_sort rev_filter [symmetric])

lemma order_desc_perm:
  assumes "mset xs = mset ys" and "distinct (map key ys)"
  shows "order_desc key (filter P xs) = order_desc key (filter P ys)"
proof -
  have m: "mset (filter P xs) = mset (sort_key key (filter P ys))"
    using assms(1) by simp
  have "set xs = set ys" using assms(1) by (rule mset_eq_setD)
  then have "inj_on key (set (filter P xs))"
    using assms(2) by (auto simp: distinct_map intro: inj_on_subset)
  from sort_key_inj_key_eq [OF m this] show ?thesis
    by (simp add: order_desc_def)
qed

lemma limit_query_calm:
  "script w = [] \<Longrightarrow> 0 \<le> limit \<Longrightarrow> limit_query limit rows w = (Inr (take (nat limit) rows, None), w)"
  by (simp add: limit_query_def pg_simps)

lemma select_id_calm:
  assumes "script w = []" "orders_ok w" "r \<in> set (orders w)"
  shows "select_id (order_id r) w = (Inr (row_id r), w)"
proof -
  have "find (\<lambda>x. order_id x = order_id r) (orders w) = Some r"
    using assms by (simp add: orders_ok_def find_distinct_key)
  then show ?thesis
    using assms(1) by (auto simp: select_id_def query_row_def pg_simps find_as_filter split: list.splits)
qed

lemma id_page_calm:
  assumes "report_calm E w" "0 \<le> limit" "cursor_ok c"
    and rows: "rows = take (nat limit) (filter (below_cursor c) (id_report P w))"
  shows "id_page E P err limit c w =
    (Inr (map row_order rows, if rows = [] then [] else Itoa (row_id (last rows))), w)"
proof -
  have calm: "script w = []" "orders_ok w" "mset (scan_orders E (orders w)) = mset (orders w)"
    using assms(1) by (auto simp: report_calm_def pg_env_ok_def)
  have "order_desc row_id (filter (\<lambda>r. P r \<and> below_cursor c r) (scan_orders E (orders w))) =
    filter (below_cursor c) (id_report P w)"
    unfolding id_report_def filter_order_desc filter_filter
    using order_desc_perm [OF calm(3), of row_id "\<lambda>r. P r \<and> below_cursor c r"] calm(2)
    by (simp add: orders_ok_def conj_commute)
  then have q: "limit_query limit
      (order_desc row_id (filter (\<lambda>r. P r \<and> below_cursor c r) (scan_orders E (orders w)))) w =
      (Inr (rows, None), w)"
    using calm assms(2) rows by (simp add: limit_query_calm)
  show ?thesis
  proof (cases "rows = []")
    case False
    then have "last rows \<in> set rows" by simp
    then have "last rows \<in> set (orders w)"
      unfolding rows by (auto simp: id_report_def dest!: in_set_takeD)
    with calm have "select_id (order_id (last rows)) w = (Inr (row_id (last rows)), w)"
      by (simp add: select_id_calm)
    with False q assms(3) show ?thesis
      by (simp add: id_page_def scanOrders_def last_map)
  qed (use q assms(3) in \<open>simp add: id_page_def scanOrders_def\<close>)
qed

interpretation id_reports: keyset_report "id_page E P err" read_id_cursor "\<lambda>c. c" row_id
    "id_report P" "report_calm E" None for E P err
proof (unfold_locales, goal_cases)
  case (1 w)
  then show ?case
    by (auto simp: report_calm_def orders_ok_def id_report_def order_desc_def
        intro!: desc_on_rev_sort_key distinct_map_filter)
next
  case (3 w limit rows c)
  have below: "(\<lambda>r. case c of None \<Rightarrow> True | Some k \<Rightarrow> row_id r < k) = below_cursor c"
    by (auto simp: below_cursor_def fun_eq_iff)
  have ids: "r \<in> set (id_report P w) \<Longrightarrow> int4_ok (row_id r)" for r
    using 3(1) by (auto simp: report_calm_def id_report_def list_all_iff)
  then have "cursor_ok c" using 3(4) by (auto simp: cursor_ok_def)
  note page = id_page_calm [OF 3(1) _ this 3(3) [unfolded below], of err]
  show ?case
  proof (cases "rows = []")
    case False
    then have "last rows \<in> set rows" by simp
    then have "last rows \<in> set (id_report P w)"
      unfolding 3(3) by (auto dest!: in_set_takeD)
    with ids have "int64_ok (row_id (last rows))"
      by (force simp: int4_ok_def int64_ok_def)
    with page 3(2) False show ?thesis by (simp add: read_id_cursor_def Atoi_Itoa)
  qed (use page 3(2) in simp)
qed simp

end
