(* ===== verification/Report_Repo.thy ===== *)
theory Report_Repo
  imports Report_Storage
begin

text \<open>
  The report repository, \<^verbatim>\<open>internal/repository/reportrepo\<close>: every method calls the storage
  and turns any error into \<^verbatim>\<open>domain.ErrDatabase\<close>.
\<close>

definition as_database_error :: "(goerror + 'a) \<times> 'w \<Rightarrow> (goerror + 'a) \<times> 'w" where
  "as_database_error res = (case res of (Inl e, w) \<Rightarrow> (Inl ErrDatabase, w) | (Inr x, w) \<Rightarrow> (Inr x, w))"

definition reportRepository_GetUserOrders ::
    "'w report_storage \<Rightarrow> string \<Rightarrow> int \<Rightarrow> int option \<Rightarrow> string \<Rightarrow> 'w \<Rightarrow> (goerror + order list \<times> string) \<times> 'w" where
  "reportRepository_GetUserOrders S userID limit cursor status w =
     as_database_error (rs_GetUserOrders S userID limit cursor status w)"

definition reportRepository_GetRefundedOrders ::
    "'w report_storage \<Rightarrow> int \<Rightarrow> int option \<Rightarrow> 'w \<Rightarrow> (goerror + order list \<times> string) \<times> 'w" where
  "reportRepository_GetRefundedOrders S limit cursor w =
     as_database_error (rs_GetRefundedOrders S limit cursor w)"

definition reportRepository_GetOrderHistory ::
    "'w report_storage \<Rightarrow> int \<Rightarrow> time \<Rightarrow> int \<Rightarrow> 'w \<Rightarrow> (goerror + order list \<times> string) \<times> 'w" where
  "reportRepository_GetOrderHistory S limit lastUpdatedCursor idCursor w =
     as_database_error (rs_GetOrderHistory S limit lastUpdatedCursor idCursor w)"

definition reportRepository_GetHistoryOrderIDs ::
    "'w report_storage \<Rightarrow> 'w \<Rightarrow> (goerror + string list) \<times> 'w" where
  "reportRepository_GetHistoryOrderIDs S w = as_database_error (rs_GetHistoryOrderIDs S w)"

definition reportRepository_GetAllActiveOrderIDs ::
    "'w report_storage \<Rightarrow> time \<Rightarrow> 'w \<Rightarrow> (goerror + string list) \<times> 'w" where
  "reportRepository_GetAllActiveOrderIDs S now w = as_database_error (rs_GetAllActiveOrderIDs S now w)"

definition reportRepository_GetUserActiveOrderIDs ::
    "'w report_storage \<Rightarrow> time \<Rightarrow> string \<Rightarrow> 'w \<Rightarrow> (goerror + string list) \<times> 'w" where
  "reportRepository_GetUserActiveOrderIDs S now userID w =
     as_database_error (rs_GetUserActiveOrderIDs S now userID w)"

definition reportRepository_GetAllOrders ::
    "'w report_storage \<Rightarrow> 'w \<Rightarrow> (goerror + order list) \<times> 'w" where
  "reportRepository_GetAllOrders S w = as_database_error (rs_GetAllOrders S w)"

lemma as_database_error_simps [simp]:
  "as_database_error (Inl e, w) = (Inl ErrDatabase, w)"
  "as_database_error (Inr x, w) = (Inr x, w)"
  by (simp_all add: as_database_error_def)

lemma snd_as_database_error [simp]: "snd (as_database_error res) = snd res"
  by (simp add: as_database_error_def split: prod.splits sum.splits)

lemma follow_as_database_error:
  "follow_cursors fuel (\<lambda>c w. as_database_error (ask c w)) read c w = follow_cursors fuel ask read c w"
proof (induction fuel arbitrary: c w)
  case (Suc fuel)
  then show ?case
    by (cases "ask c w"; cases "fst (ask c w)") (auto split: option.splits)
qed simp

lemma report_calm_sample [simp]: "report_calm sample_env sample_shop"
  by (simp add: report_calm_def int4_ok_def)

lemma mset_id_report:
  "mset (map row_order (id_report P w)) = image_mset row_order (filter_mset P (mset (orders w)))"
  by (simp add: id_report_def order_desc_def)

section \<open>Properties\<close>

text \<open>
  (C18) Reading a user's orders page by page: whatever the size of the pages, following the cursors from
  the first page ends, and the pages together are every order of the user that meets the filter,
  each exactly once, the newest row first.
\<close>

theorem GetUserOrders_pages:
  assumes "report_calm E w" "1 \<le> limit" "length (orders w) < fuel"
  shows "\<exists>os. follow_cursors fuel (\<lambda>c. reportRepository_GetUserOrders (pg_report_storage E) u limit c st)
        read_id_cursor None w = Some os \<and>
      mset os = image_mset row_order (filter_mset (user_filter u st) (mset (orders w))) \<and>
      os = map row_order (order_desc row_id (filter (user_filter u st) (orders w)))"
proof -
  have "length (id_report (user_filter u st) w) < fuel"
    using le_less_trans [OF length_filter_le assms(3)] by (simp add: id_report_def)
  note all = id_reports.follow_all [OF assms(1,2) this, of cursor_error]
  have "(\<lambda>c. reportRepository_GetUserOrders (pg_report_storage E) u limit c st) =
      (\<lambda>c w. as_database_error (id_page E (user_filter u st) cursor_error limit c w))"
    by (simp add: fun_eq_iff reportRepository_GetUserOrders_def pg_report_storage_def ReportOrderStorage_GetUserOrders_def)
  with all show ?thesis
    by (intro exI [of _ "map row_order (id_report (user_filter u st) w)"])
      (simp add: follow_as_database_error mset_id_report id_report_def [symmetric] del: mset_map)
qed

theorem GetUserOrders_pages_witness:
  "\<exists>os. follow_cursors 3 (\<lambda>c. reportRepository_GetUserOrders (pg_report_storage sample_env) ''u'' 1 c ''stored'')
      read_id_cursor None sample_shop = Some os \<and> map ID os = [''b'', ''a'']"
  using GetUserOrders_pages [of sample_env sample_shop 1 3 "''u''" "''stored''"]
  by (auto simp: order_desc_def user_filter_def)

text \<open>
  Reading the refunded orders page by page has the same effect: every refunded order once, the
  newest row first.
\<close>

theorem GetRefundedOrders_pages:
  assumes "report_calm E w" "1 \<le> limit" "length (orders w) < fuel"
  shows "\<exists>os. follow_cursors fuel (\<lambda>c. reportRepository_GetRefundedOrders (pg_report_storage E) limit c)
        read_id_cursor None w = Some os \<and>
      mset os = image_mset row_order (filter_mset (\<lambda>r. refunded_at r \<noteq> None) (mset (orders w))) \<and>
      os = map row_order (order_desc row_id (filter (\<lambda>r. refunded_at r \<noteq> None) (orders w)))"
proof -
  have "length (id_report (\<lambda>r. refunded_at r \<noteq> None) w) < fuel"
    using le_less_trans [OF length_filter_le assms(3)] by (simp add: id_report_def)
  note all = id_reports.follow_all [OF assms(1,2) this, of next_cursor_error]
  have "(\<lambda>c. reportRepository_GetRefundedOrders (pg_report_storage E) limit c) =
      (\<lambda>c w. as_database_error (id_page E (\<lambda>r. refunded_at r \<noteq> None) next_cursor_error limit c w))"
    by (simp add: fun_eq_iff reportRepository_GetRefundedOrders_def pg_report_storage_def
        ReportOrderStorage_GetRefundedOrders_def)
  with all show ?thesis
    by (intro exI [of _ "map row_order (id_report (\<lambda>r. refunded_at r \<noteq> None) w)"])
      (simp add: follow_as_database_error mset_id_report id_report_def [symmetric] del: mset_map)
qed

theorem GetRefundedOrders_pages_witness:
  "follow_cursors 3 (\<lambda>c. reportRepository_GetRefundedOrders (pg_report_storage sample_env) 1 c)
      read_id_cursor None sample_shop = Some []"
  using GetRefundedOrders_pages [of sample_env sample_shop 1 3]
  by (auto simp: order_desc_def)

text \<open>
  (C26) A result that the server breaks off after some rows is taken for a complete one: the reports
  never ask the driver for the error that ended the rows, and return the rows that arrived without
  an error, where the lookup by ids reports it.
\<close>

theorem report_truncated:
  assumes "script w = CutShort n s # rest"
  shows "fst (reportRepository_GetAllOrders (pg_report_storage E) w) =
      Inr (map row_order (take n (scan_orders E (orders w)))) \<and>
    fst (reportRepository_GetHistoryOrderIDs (pg_report_storage E) w) =
      Inr (map order_id (take n (scan_orders E (orders w)))) \<and>
    fst (OrderStorage_FindOrdersByIDs E ids w) = Inl (ErrDriver s)"
  using assms
  by (simp add: reportRepository_GetAllOrders_def reportRepository_GetHistoryOrderIDs_def pg_report_storage_def
      ReportOrderStorage_GetAllOrders_def ReportOrderStorage_GetHistoryOrderIDs_def id_list_def scanOrders_def
      OrderStorage_FindOrdersByIDs_def db_query_def next_reply_def take_map)

theorem report_truncated_witness:
  "fst (reportRepository_GetHistoryOrderIDs (pg_report_storage sample_env)
     (sample_shop\<lparr>script := [CutShort 1 ''timeout'']\<rparr>)) = Inr [''b'']"
  using report_truncated [of "sample_shop\<lparr>script := [CutShort 1 ''timeout'']\<rparr>" 1 "''timeout''" "[]" sample_env "[]"]
  by (simp add: sample_env_def)

end
