(* ===== verification/Cache.thy ===== *)
theory Cache
  imports Report_Repo "HOL-Library.Char_ord" "HOL-Library.List_Lexorder"
begin

text \<open>
  The cache of orders, \<^verbatim>\<open>internal/cache\<close>: the interface \<^verbatim>\<open>OrderCache\<close> and its
  implementation \<^verbatim>\<open>RedisCache\<close>. The Redis client (\<^verbatim>\<open>github.com/redis/go-redis\<close>) is a library in
  front of a service: its calls are an argument, over a state of their own, and the locale
  \<open>redis_server\<close> states what is documented of them. A key may expire and a call may fail at any moment, so these are laws
  about what a call never does: it never returns what was not written. The locale
  \<open>cache_laws\<close> is the contract of \<^verbatim>\<open>OrderCache\<close>, in terms of orders and lists of
  ids instead of keys and documents; \<^verbatim>\<open>RedisCache\<close> keeps it over every such client.
\<close>

section \<open>The client\<close>

datatype redis_cmd = CGet string | CDel string | CSAdd string "string list" | CExpire string duration

definition redis_Nil :: goerror where
  "redis_Nil = ErrDriver ''redis: nil''"

record 'r redis_client =
  rc_Get :: "string \<Rightarrow> 'r \<Rightarrow> (goerror + json) \<times> 'r"
  rc_Set :: "string \<Rightarrow> json \<Rightarrow> duration \<Rightarrow> 'r \<Rightarrow> goerror option \<times> 'r"
  rc_Del :: "string \<Rightarrow> 'r \<Rightarrow> goerror option \<times> 'r"
  rc_SMembers :: "string \<Rightarrow> 'r \<Rightarrow> (goerror + string list) \<times> 'r"
  rc_SAdd :: "string \<Rightarrow> string \<Rightarrow> 'r \<Rightarrow> goerror option \<times> 'r"
  rc_SRem :: "string \<Rightarrow> string \<Rightarrow> 'r \<Rightarrow> goerror option \<times> 'r"
  rc_Exec :: "redis_cmd list \<Rightarrow> 'r \<Rightarrow> (goerror option \<times> (goerror + json) list) \<times> 'r"

section \<open>Orders as JSON\<close>

definition marshal_order :: "order \<Rightarrow> json option" where
  "marshal_order o1 = marshal_object
     [(''id'', Some (JString (ID o1))), (''recipient_id'', Some (JString (RecipientID o1))),
      (''expiry'', marshal_time (Expiry o1)), (''stored_at'', marshal_time_ptr (StoredAt o1)),
      (''issued_at'', marshal_time_ptr (IssuedAt o1)), (''refunded_at'', marshal_time_ptr (RefundedAt o1)),
      (''base_price'', marshal_float (BasePrice o1)), (''package_price'', marshal_float (PackagePrice o1)),
      (''weight'', marshal_float (Weight o1)), (''packaging'', Some (JString (Packaging o1)))]"

definition zero_order :: order where
  "zero_order = \<lparr>ID = [], RecipientID = [], Expiry = 0, StoredAt = None, IssuedAt = None, RefundedAt = None,
     BasePrice = Fin 0, PackagePrice = Fin 0, Weight = Fin 0, Packaging = []\<rparr>"

definition unmarshal_order :: "json \<Rightarrow> order option" where
  "unmarshal_order j = (case j of
      JNull \<Rightarrow> Some zero_order
    | JObject fs \<Rightarrow>
        Option.bind (field_string ''id'' fs) (\<lambda>i.
        Option.bind (field_string ''recipient_id'' fs) (\<lambda>u.
        Option.bind (field_time ''expiry'' fs) (\<lambda>ex.
        Option.bind (field_time_ptr ''stored_at'' fs) (\<lambda>st.
        Option.bind (field_time_ptr ''issued_at'' fs) (\<lambda>is.
        Option.bind (field_time_ptr ''refunded_at'' fs) (\<lambda>re.
        Option.bind (field_float ''base_price'' fs) (\<lambda>bp.
        Option.bind (field_float ''package_price'' fs) (\<lambda>pp.
        Option.bind (field_float ''weight'' fs) (\<lambda>we.
        Option.bind (field_string ''packaging'' fs) (\<lambda>pk.
          Some \<lparr>ID = i, RecipientID = u, Expiry = ex, StoredAt = st, IssuedAt = is, RefundedAt = re,
                BasePrice = bp, PackagePrice = pp, Weight = we, Packaging = pk\<rparr>))))))))))
    | _ \<Rightarrow> None)"

section \<open>Keys and times to live\<close>

definition userActiveKeyPrefix :: string where
  "userActiveKeyPrefix = ''active_orders:''"

definition allActiveKey :: string where
  "allActiveKey = ''all_active_orders''"

definition historyKey :: string where
  "historyKey = ''order_history''"

definition orderKeyPrefix :: string where
  "orderKeyPrefix = ''order:''"

text \<open>\<open>now\<close> is the clock of \<^verbatim>\<open>time.Until\<close>.\<close>

definition calculateOrderTTL :: "time \<Rightarrow> order \<Rightarrow> duration" where
  "calculateOrderTTL now o1 =
     (case RefundedAt o1 of Some _ \<Rightarrow> 0
      | None \<Rightarrow> (case IssuedAt o1 of Some t \<Rightarrow> time_Sub (t + 48 * hour) now
        | None \<Rightarrow> (case StoredAt o1 of Some _ \<Rightarrow> time_Sub (Expiry o1) now
          | None \<Rightarrow> 24 * hour)))"

section \<open>The methods\<close>

definition json_error :: goerror where
  "json_error = ErrText ''json: unsupported value''"

definition RedisCache_SetOrder :: "'r redis_client \<Rightarrow> time \<Rightarrow> order \<Rightarrow> 'r \<Rightarrow> goerror option \<times> 'r" where
  "RedisCache_SetOrder C now o1 r =
     (case marshal_order o1 of
        None \<Rightarrow> (Some json_error, r)
      | Some data \<Rightarrow> rc_Set C (orderKeyPrefix @ ID o1) data (calculateOrderTTL now o1) r)"

definition RedisCache_GetOrder :: "'r redis_client \<Rightarrow> string \<Rightarrow> 'r \<Rightarrow> (goerror + order option) \<times> 'r" where
  "RedisCache_GetOrder C orderID r =
     (case rc_Get C (orderKeyPrefix @ orderID) r of
        (Inl e, r') \<Rightarrow> (if e = redis_Nil then (Inr None, r') else (Inl e, r'))
      | (Inr data, r') \<Rightarrow>
          (case unmarshal_order data of None \<Rightarrow> (Inl json_error, r') | Some o1 \<Rightarrow> (Inr (Some o1), r')))"

text \<open>
  The result of \<^verbatim>\<open>GetOrdersBatch\<close> is a Go map: its entries, each id once, with the reply to the
  last command for that id. A command that failed and a document that cannot be read are left out.
\<close>

definition reply_order :: "string list \<Rightarrow> (goerror + json) list \<Rightarrow> string \<Rightarrow> order option" where
  "reply_order orderIDs replies i = (case map_of (rev (zip orderIDs replies)) i of
     Some (Inr data) \<Rightarrow> unmarshal_order data | _ \<Rightarrow> None)"

definition batch_entries :: "string list \<Rightarrow> (goerror + json) list \<Rightarrow> (string \<times> order) list" where
  "batch_entries orderIDs replies =
     List.map_filter (\<lambda>i. map_option (Pair i) (reply_order orderIDs replies i)) (remdups orderIDs)"

definition RedisCache_GetOrdersBatch ::
    "'r redis_client \<Rightarrow> string list \<Rightarrow> 'r \<Rightarrow> (goerror + (string \<times> order) list) \<times> 'r" where
  "RedisCache_GetOrdersBatch C orderIDs r =
     (case rc_Exec C (map (\<lambda>i. CGet (orderKeyPrefix @ i)) orderIDs) r of
        ((err, replies), r') \<Rightarrow>
          (case err of
             Some e \<Rightarrow> if e \<noteq> redis_Nil then (Inl e, r') else (Inr (batch_entries orderIDs replies), r')
           | None \<Rightarrow> (Inr (batch_entries orderIDs replies), r')))"

definition RedisCache_DeleteOrder :: "'r redis_client \<Rightarrow> string \<Rightarrow> 'r \<Rightarrow> goerror option \<times> 'r" where
  "RedisCache_DeleteOrder C orderID r = rc_Del C (orderKeyPrefix @ orderID) r"

definition RedisCache_GetUserActiveOrders ::
    "'r redis_client \<Rightarrow> string \<Rightarrow> 'r \<Rightarrow> (goerror + string list) \<times> 'r" where
  "RedisCache_GetUserActiveOrders C userID r = rc_SMembers C (userActiveKeyPrefix @ userID) r"

text \<open>The commands that replace a set.\<close>

definition replace_set :: "string \<Rightarrow> string list \<Rightarrow> redis_cmd list \<Rightarrow> redis_cmd list" where
  "replace_set key ids expire = CDel key # (if length ids > 0 then CSAdd key ids # expire else [])"

definition RedisCache_UpdateUserActiveOrders ::
    "'r redis_client \<Rightarrow> string \<Rightarrow> string list \<Rightarrow> 'r \<Rightarrow> goerror option \<times> 'r" where
  "RedisCache_UpdateUserActiveOrders C userID orderIDs r =
     (let key = userActiveKeyPrefix @ userID;
          ((err, _), r') = rc_Exec C (replace_set key orderIDs [CExpire key (14 * 24 * hour)]) r
      in (err, r'))"

definition RedisCache_DeleteUserIndex :: "'r redis_client \<Rightarrow> string \<Rightarrow> 'r \<Rightarrow> goerror option \<times> 'r" where
  "RedisCache_DeleteUserIndex C userID r = rc_Del C (userActiveKeyPrefix @ userID) r"

definition RedisCache_GetAllActiveOrderIDs :: "'r redis_client \<Rightarrow> 'r \<Rightarrow> (goerror + string list) \<times> 'r" where
  "RedisCache_GetAllActiveOrderIDs C r = rc_SMembers C allActiveKey r"

definition RedisCache_UpdateAllActiveOrders ::
    "'r redis_client \<Rightarrow> string list \<Rightarrow> 'r \<Rightarrow> goerror option \<times> 'r" where
  "RedisCache_UpdateAllActiveOrders C orderIDs r =
     (let ((err, _), r') = rc_Exec C (replace_set allActiveKey orderIDs [CExpire allActiveKey (14 * 24 * hour)]) r
      in (err, r'))"

definition RedisCache_GetHistoryOrderIDs :: "'r redis_client \<Rightarrow> 'r \<Rightarrow> (goerror + string list) \<times> 'r" where
  "RedisCache_GetHistoryOrderIDs C r = rc_SMembers C historyKey r"

definition RedisCache_AddToHistory :: "'r redis_client \<Rightarrow> string \<Rightarrow> 'r \<Rightarrow> goerror option \<times> 'r" where
  "RedisCache_AddToHistory C orderID r = rc_SAdd C historyKey orderID r"

definition RedisCache_RemoveFromHistory :: "'r redis_client \<Rightarrow> string \<Rightarrow> 'r \<Rightarrow> goerror option \<times> 'r" where
  "RedisCache_RemoveFromHistory C orderID r = rc_SRem C historyKey orderID r"

text \<open>The two methods that also read the reports; \<open>now\<close> is the server's clock.\<close>

definition RedisCache_RefreshActiveOrders ::
    "'w report_storage \<Rightarrow> 'r redis_client \<Rightarrow> time \<Rightarrow> 'w \<times> 'r \<Rightarrow> goerror option \<times> 'w \<times> 'r" where
  "RedisCache_RefreshActiveOrders RS C now s =
     (case s of (w, r) \<Rightarrow> (case reportRepository_GetAllActiveOrderIDs RS now w of
        (Inl e, w') \<Rightarrow> (Some e, w', r)
      | (Inr orderIDs, w') \<Rightarrow>
          (case RedisCache_UpdateAllActiveOrders C orderIDs r of (e, r') \<Rightarrow> (e, w', r'))))"

definition RedisCache_RefreshHistory ::
    "'w report_storage \<Rightarrow> 'r redis_client \<Rightarrow> 'w \<times> 'r \<Rightarrow> goerror option \<times> 'w \<times> 'r" where
  "RedisCache_RefreshHistory RS C s =
     (case s of (w, r) \<Rightarrow> (case reportRepository_GetHistoryOrderIDs RS w of
        (Inl e, w') \<Rightarrow> (Some e, w', r)
      | (Inr orderIDs, w') \<Rightarrow>
          (case rc_Exec C (replace_set historyKey orderIDs []) r of ((e, _), r') \<Rightarrow> (e, w', r'))))"

section \<open>The interface\<close>

record ('w, 'r) order_cache =
  oc_SetOrder :: "time \<Rightarrow> order \<Rightarrow> 'r \<Rightarrow> goerror option \<times> 'r"
  oc_GetOrder :: "string \<Rightarrow> 'r \<Rightarrow> (goerror + order option) \<times> 'r"
  oc_GetOrdersBatch :: "string list \<Rightarrow> 'r \<Rightarrow> (goerror + (string \<times> order) list) \<times> 'r"
  oc_DeleteOrder :: "string \<Rightarrow> 'r \<Rightarrow> goerror option \<times> 'r"
  oc_GetAllActiveOrderIDs :: "'r \<Rightarrow> (goerror + string list) \<times> 'r"
  oc_UpdateAllActiveOrders :: "string list \<Rightarrow> 'r \<Rightarrow> goerror option \<times> 'r"
  oc_GetUserActiveOrders :: "string \<Rightarrow> 'r \<Rightarrow> (goerror + string list) \<times> 'r"
  oc_UpdateUserActiveOrders :: "string \<Rightarrow> string list \<Rightarrow> 'r \<Rightarrow> goerror option \<times> 'r"
  oc_DeleteUserIndex :: "string \<Rightarrow> 'r \<Rightarrow> goerror option \<times> 'r"
  oc_GetHistoryOrderIDs :: "'r \<Rightarrow> (goerror + string list) \<times> 'r"
  oc_AddToHistory :: "string \<Rightarrow> 'r \<Rightarrow> goerror option \<times> 'r"
  oc_RemoveFromHistory :: "string \<Rightarrow> 'r \<Rightarrow> goerror option \<times> 'r"
  oc_RefreshActiveOrders :: "time \<Rightarrow> 'w \<times> 'r \<Rightarrow> goerror option \<times> 'w \<times> 'r"
  oc_RefreshHistory :: "'w \<times> 'r \<Rightarrow> goerror option \<times> 'w \<times> 'r"

definition redis_cache :: "'w report_storage \<Rightarrow> 'r redis_client \<Rightarrow> ('w, 'r) order_cache" where
  "redis_cache RS C = \<lparr>oc_SetOrder = RedisCache_SetOrder C, oc_GetOrder = RedisCache_GetOrder C,
     oc_GetOrdersBatch = RedisCache_GetOrdersBatch C, oc_DeleteOrder = RedisCache_DeleteOrder C,
     oc_GetAllActiveOrderIDs = RedisCache_GetAllActiveOrderIDs C,
     oc_UpdateAllActiveOrders = RedisCache_UpdateAllActiveOrders C,
     oc_GetUserActiveOrders = RedisCache_GetUserActiveOrders C,
     oc_UpdateUserActiveOrders = RedisCache_UpdateUserActiveOrders C,
     oc_DeleteUserIndex = RedisCache_DeleteUserIndex C,
     oc_GetHistoryOrderIDs = RedisCache_GetHistoryOrderIDs C,
     oc_AddToHistory = RedisCache_AddToHistory C, oc_RemoveFromHistory = RedisCache_RemoveFromHistory C,
     oc_RefreshActiveOrders = RedisCache_RefreshActiveOrders RS C, oc_RefreshHistory = RedisCache_RefreshHistory RS C\<rparr>"

section \<open>Marshalling is lossless\<close>

lemma marshal_order_Some:
  assumes "marshal_order o1 = Some j"
  shows "unmarshal_order j = Some o1"
proof -
  obtain b p v where num: "BasePrice o1 = Fin b" "PackagePrice o1 = Fin p" "Weight o1 = Fin v"
    using assms
    by (cases "BasePrice o1"; cases "PackagePrice o1"; cases "Weight o1")
      (auto simp: marshal_order_def marshal_object_def split: option.splits)
  have t: "marshal_time t = Some x \<Longrightarrow> x = JTime t" for t x
    by (auto simp: marshal_time_def split: if_splits)
  show ?thesis
    using assms num
    by (cases "StoredAt o1"; cases "IssuedAt o1"; cases "RefundedAt o1")
      (auto simp: marshal_order_def marshal_object_def unmarshal_order_def field_defs dest!: t split: option.splits)
qed

section \<open>What is documented of the client\<close>

datatype redis_data = DStr json | DSet "string set"

definition members :: "redis_data option \<Rightarrow> string set" where
  "members d = (case d of Some (DSet A) \<Rightarrow> A | _ \<Rightarrow> {})"

fun apply_cmd :: "redis_cmd \<Rightarrow> (string \<Rightarrow> redis_data option) \<Rightarrow> string \<Rightarrow> redis_data option" where
  "apply_cmd (CGet k) m = m"
| "apply_cmd (CDel k) m = m(k := None)"
| "apply_cmd (CSAdd k xs) m = m(k \<mapsto> DSet (members (m k) \<union> set xs))"
| "apply_cmd (CExpire k d) m = m"

fun cmd_key :: "redis_cmd \<Rightarrow> string" where
  "cmd_key (CGet k) = k" | "cmd_key (CDel k) = k" | "cmd_key (CSAdd k xs) = k" | "cmd_key (CExpire k d) = k"

text \<open>A call leaves other keys as they are, or they expire.\<close>

definition touches :: "'k set \<Rightarrow> ('k \<Rightarrow> 'v option) \<Rightarrow> ('k \<Rightarrow> 'v option) \<Rightarrow> bool" where
  "touches K m m' \<longleftrightarrow> m' |` (- K) \<subseteq>\<^sub>m m"

text \<open>
  \<open>view r\<close> is what the server holds. Keys may expire before a call is executed (\<open>v0\<close>) and after it
  (\<open>\<subseteq>\<^sub>m\<close>). A call that reports an error may have been executed or not. \<^verbatim>\<open>SMembers\<close>
  of a key that is not there is the empty list.
\<close>

locale redis_server =
  fixes C :: "'r redis_client"
    and view :: "'r \<Rightarrow> string \<Rightarrow> redis_data option"
  assumes get: "rc_Get C k r = (res, r') \<Longrightarrow>
      view r' \<subseteq>\<^sub>m view r \<and> (\<forall>j. res = Inr j \<longrightarrow> view r k = Some (DStr j))"
    and smembers: "rc_SMembers C k r = (ires, r') \<Longrightarrow>
      view r' \<subseteq>\<^sub>m view r \<and> (\<forall>ids. ires = Inr ids \<longrightarrow> ids = [] \<or> view r k = Some (DSet (set ids)))"
    and set: "rc_Set C k j d r = (e, r') \<Longrightarrow>
      (e \<noteq> None \<and> view r' \<subseteq>\<^sub>m view r) \<or> view r' \<subseteq>\<^sub>m (view r)(k \<mapsto> DStr j)"
    and del: "rc_Del C k r = (e, r') \<Longrightarrow>
      (e \<noteq> None \<and> view r' \<subseteq>\<^sub>m view r) \<or> view r' \<subseteq>\<^sub>m (view r)(k := None)"
    and sadd: "rc_SAdd C k x r = (e, r') \<Longrightarrow> touches {k} (view r) (view r') \<and>
      (e = None \<longrightarrow> (\<exists>v0. v0 \<subseteq>\<^sub>m view r \<and> view r' \<subseteq>\<^sub>m v0(k \<mapsto> DSet (insert x (members (v0 k))))))"
    and srem: "rc_SRem C k x r = (e, r') \<Longrightarrow> touches {k} (view r) (view r') \<and>
      (e = None \<longrightarrow> (\<exists>v0. v0 \<subseteq>\<^sub>m view r \<and> view r' \<subseteq>\<^sub>m v0(k \<mapsto> DSet (members (v0 k) - {x}))))"
    and exec: "rc_Exec C cmds r = ((e, replies), r') \<Longrightarrow>
      touches (cmd_key ` set cmds) (view r) (view r') \<and>
      (e = None \<longrightarrow> (\<exists>v0. v0 \<subseteq>\<^sub>m view r \<and> view r' \<subseteq>\<^sub>m fold apply_cmd cmds v0))"
    and exec_gets: "rc_Exec C (map CGet ks) r = ((e, replies), r') \<Longrightarrow>
      view r' \<subseteq>\<^sub>m view r \<and> length replies = length ks \<and>
      (\<forall>i < length ks. \<forall>j. replies ! i = Inr j \<longrightarrow> view r (ks ! i) = Some (DStr j))"

section \<open>The contract of the cache\<close>

text \<open>The entries of the cache by what they are about.\<close>

datatype ckey = KOrder string | KUser string | KAll | KHistory
datatype cval = VOrder order | VIds "string set"

definition cids :: "cval option \<Rightarrow> string set" where
  "cids v = (case v of Some (VIds A) \<Rightarrow> A | _ \<Rightarrow> {})"

definition ids_entry :: "string list \<Rightarrow> cval option" where
  "ids_entry ids = (if ids = [] then None else Some (VIds (set ids)))"

definition put_entry :: "ckey \<Rightarrow> cval option \<Rightarrow> (ckey \<Rightarrow> cval option) \<Rightarrow> (ckey \<Rightarrow> cval option) \<Rightarrow> bool \<Rightarrow> bool" where
  "put_entry k v m m' ok \<longleftrightarrow> (\<not> ok \<and> m' \<subseteq>\<^sub>m m) \<or> m' \<subseteq>\<^sub>m m(k := v)"

text \<open>A pipeline is not atomic: after an error its own entry can be anything.\<close>

definition wrote :: "ckey \<Rightarrow> cval option \<Rightarrow> (ckey \<Rightarrow> cval option) \<Rightarrow> (ckey \<Rightarrow> cval option) \<Rightarrow> bool \<Rightarrow> bool" where
  "wrote k v m m' ok \<longleftrightarrow> touches {k} m m' \<and> (ok \<longrightarrow> m' \<subseteq>\<^sub>m m(k := v))"

locale cache_laws =
  fixes CA :: "('w, 'r) order_cache"
    and cview :: "'r \<Rightarrow> ckey \<Rightarrow> cval option"
  assumes set_law: "oc_SetOrder CA now o1 r = (e, r') \<Longrightarrow>
      put_entry (KOrder (ID o1)) (Some (VOrder o1)) (cview r) (cview r') (e = None)"
    and get_law: "oc_GetOrder CA i r = (res, r') \<Longrightarrow>
      cview r' \<subseteq>\<^sub>m cview r \<and> (\<forall>o1. res = Inr (Some o1) \<longrightarrow> cview r (KOrder i) = Some (VOrder o1))"
    and batch_law: "oc_GetOrdersBatch CA ids r = (bres, r') \<Longrightarrow>
      cview r' \<subseteq>\<^sub>m cview r \<and> (\<forall>m. bres = Inr m \<longrightarrow> distinct (map fst m) \<and>
        (\<forall>i o1. (i, o1) \<in> set m \<longrightarrow> i \<in> set ids \<and> cview r (KOrder i) = Some (VOrder o1)))"
    and delete_law: "oc_DeleteOrder CA i r = (e, r') \<Longrightarrow> put_entry (KOrder i) None (cview r) (cview r') (e = None)"
    and all_law: "oc_GetAllActiveOrderIDs CA r = (ires, r') \<Longrightarrow>
      cview r' \<subseteq>\<^sub>m cview r \<and> (\<forall>ids. ires = Inr ids \<longrightarrow> ids = [] \<or> cview r KAll = Some (VIds (set ids)))"
    and user_law: "oc_GetUserActiveOrders CA u r = (ires, r') \<Longrightarrow>
      cview r' \<subseteq>\<^sub>m cview r \<and> (\<forall>ids. ires = Inr ids \<longrightarrow> ids = [] \<or> cview r (KUser u) = Some (VIds (set ids)))"
    and history_law: "oc_GetHistoryOrderIDs CA r = (ires, r') \<Longrightarrow>
      cview r' \<subseteq>\<^sub>m cview r \<and> (\<forall>ids. ires = Inr ids \<longrightarrow> ids = [] \<or> cview r KHistory = Some (VIds (set ids)))"
    and update_all_law: "oc_UpdateAllActiveOrders CA ids r = (e, r') \<Longrightarrow>
      wrote KAll (ids_entry ids) (cview r) (cview r') (e = None)"
    and update_user_law: "oc_UpdateUserActiveOrders CA u ids r = (e, r') \<Longrightarrow>
      wrote (KUser u) (ids_entry ids) (cview r) (cview r') (e = None)"
    and delete_user_law: "oc_DeleteUserIndex CA u r = (e, r') \<Longrightarrow>
      put_entry (KUser u) None (cview r) (cview r') (e = None)"
    and add_history_law: "oc_AddToHistory CA i r = (e, r') \<Longrightarrow>
      touches {KHistory} (cview r) (cview r') \<and>
      (e = None \<longrightarrow> cids (cview r' KHistory) \<subseteq> insert i (cids (cview r KHistory)))"
    and remove_history_law: "oc_RemoveFromHistory CA i r = (e, r') \<Longrightarrow>
      touches {KHistory} (cview r) (cview r') \<and>
      (e = None \<longrightarrow> cids (cview r' KHistory) \<subseteq> cids (cview r KHistory) - {i})"

lemma map_le_iff: "m \<subseteq>\<^sub>m n \<longleftrightarrow> (\<forall>k v. m k = Some v \<longrightarrow> n k = Some v)"
  by (auto simp: map_le_def dom_def)

lemma touches_iff: "touches K m m' \<longleftrightarrow> (\<forall>k v. k \<notin> K \<longrightarrow> m' k = Some v \<longrightarrow> m k = Some v)"
  by (auto simp: touches_def map_le_iff restrict_map_def)

context cache_laws
begin

lemma set_get:
  assumes "oc_SetOrder CA now o1 r = (None, r1)" "oc_GetOrder CA i r1 = (Inr (Some o2), r2)"
  shows "if i = ID o1 then o2 = o1 else cview r (KOrder i) = Some (VOrder o2)"
proof -
  have "cview r1 (KOrder i) = Some (VOrder o2)" using get_law [OF assms(2)] by simp
  moreover have "cview r1 \<subseteq>\<^sub>m (cview r)(KOrder (ID o1) \<mapsto> VOrder o1)"
    using set_law [OF assms(1)] by (simp add: put_entry_def)
  ultimately have "((cview r)(KOrder (ID o1) \<mapsto> VOrder o1)) (KOrder i) = Some (VOrder o2)"
    unfolding map_le_iff by blast
  then show ?thesis by (auto split: if_splits)
qed

end

section \<open>Redis keeps the contract\<close>

fun redis_key :: "ckey \<Rightarrow> string" where
  "redis_key (KOrder i) = orderKeyPrefix @ i"
| "redis_key (KUser u) = userActiveKeyPrefix @ u"
| "redis_key KAll = allActiveKey"
| "redis_key KHistory = historyKey"

fun decode :: "ckey \<Rightarrow> redis_data \<Rightarrow> cval option" where
  "decode (KOrder i) (DStr j) = map_option VOrder (unmarshal_order j)"
| "decode (KOrder i) (DSet A) = None"
| "decode k (DSet A) = Some (VIds A)"
| "decode k (DStr j) = None"

definition cached_view :: "('r \<Rightarrow> string \<Rightarrow> redis_data option) \<Rightarrow> 'r \<Rightarrow> ckey \<Rightarrow> cval option" where
  "cached_view view r k = Option.bind (view r (redis_key k)) (decode k)"

text \<open>No two entries share a key.\<close>

lemma redis_key_inj [simp]: "redis_key a = redis_key b \<longleftrightarrow> a = b"
  by (cases a; cases b) (auto simp: orderKeyPrefix_def userActiveKeyPrefix_def allActiveKey_def historyKey_def)

lemma cached_view_Some:
  "cached_view view r k = Some v \<longleftrightarrow> (\<exists>d. view r (redis_key k) = Some d \<and> decode k d = Some v)"
  by (simp add: cached_view_def bind_eq_Some_conv)

lemma cached_view_mono:
  "view r' \<subseteq>\<^sub>m view r \<Longrightarrow> cached_view view r' \<subseteq>\<^sub>m cached_view view r"
  unfolding map_le_iff cached_view_Some by blast

lemma cached_view_upd:
  assumes "view r' \<subseteq>\<^sub>m (view r)(redis_key k := d)"
  shows "cached_view view r' \<subseteq>\<^sub>m (cached_view view r)(k := Option.bind d (decode k))"
  unfolding map_le_iff
proof (intro allI impI)
  fix l v
  assume "cached_view view r' l = Some v"
  then obtain x where x: "view r' (redis_key l) = Some x" "decode l x = Some v" by (auto simp: cached_view_Some)
  with assms have "((view r)(redis_key k := d)) (redis_key l) = Some x" unfolding map_le_iff by blast
  with x(2) show "((cached_view view r)(k := Option.bind d (decode k))) l = Some v"
    by (auto simp: cached_view_Some split: if_splits)
qed

lemma cached_view_touches:
  assumes "touches {redis_key k} (view r) (view r')"
  shows "touches {k} (cached_view view r) (cached_view view r')"
  unfolding touches_iff
proof (intro allI impI)
  fix l v
  assume "l \<notin> {k}" "cached_view view r' l = Some v"
  then obtain x where "view r' (redis_key l) = Some x" "decode l x = Some v" "redis_key l \<notin> {redis_key k}"
    by (auto simp: cached_view_Some)
  with assms show "cached_view view r l = Some v" unfolding touches_iff cached_view_Some by blast
qed

lemma cached_wrote:
  assumes "touches {redis_key k} (view r) (view r')"
    and "ok \<Longrightarrow> view r' \<subseteq>\<^sub>m (view r)(redis_key k := d)" "v = Option.bind d (decode k)"
  shows "wrote k v (cached_view view r) (cached_view view r') ok"
  using cached_view_touches [OF assms(1)] cached_view_upd [of view r' r k d] assms(2,3) by (simp add: wrote_def)

lemma cached_put:
  assumes "(\<not> ok \<and> view r' \<subseteq>\<^sub>m view r) \<or> view r' \<subseteq>\<^sub>m (view r)(redis_key k := d)" "v = Option.bind d (decode k)"
  shows "put_entry k v (cached_view view r) (cached_view view r') ok"
  using cached_view_mono [of view r' r] cached_view_upd [of view r' r k d] assms unfolding put_entry_def by blast

lemma map_le_upd: "v0 \<subseteq>\<^sub>m m \<Longrightarrow> v0(k := d) \<subseteq>\<^sub>m m(k := d)"
  by (simp add: map_le_iff)

lemma cids_history: "cids (cached_view view r KHistory) = members (view r historyKey)"
  by (auto simp: cached_view_def cids_def members_def split: option.splits redis_data.splits)

lemma members_mono: "v0 \<subseteq>\<^sub>m m \<Longrightarrow> members (v0 k) \<subseteq> members (m k)"
  unfolding map_le_iff by (auto simp: members_def split: option.splits redis_data.splits)

lemma map_filter_keyed:
  "set (List.map_filter (\<lambda>i. map_option (Pair i) (g i)) ks) = {(i, x). i \<in> set ks \<and> g i = Some x}"
  "distinct ks \<Longrightarrow> distinct (map fst (List.map_filter (\<lambda>i. map_option (Pair i) (g i)) ks))"
proof -
  show set: "set (List.map_filter (\<lambda>i. map_option (Pair i) (g i)) ks) = {(i, x). i \<in> set ks \<and> g i = Some x}" for ks
    by (induction ks) (auto simp: map_filter_simps split: option.splits)
  show "distinct ks \<Longrightarrow> distinct (map fst (List.map_filter (\<lambda>i. map_option (Pair i) (g i)) ks))"
    by (induction ks) (auto simp: map_filter_simps set split: option.splits)
qed

lemma batch_entries_distinct: "distinct (map fst (batch_entries ids replies))"
  by (simp add: batch_entries_def map_filter_keyed)

lemma batch_entries_Some:
  assumes "(i, o1) \<in> set (batch_entries ids replies)"
  shows "i \<in> set ids \<and> (\<exists>n j. n < length ids \<and> n < length replies \<and> ids ! n = i \<and> replies ! n = Inr j \<and> unmarshal_order j = Some o1)"
proof -
  from assms have "i \<in> set ids" "reply_order ids replies i = Some o1"
    by (auto simp: batch_entries_def map_filter_keyed)
  moreover from this(2) obtain j where "map_of (rev (zip ids replies)) i = Some (Inr j)" "unmarshal_order j = Some o1"
    by (auto simp: reply_order_def split: option.splits sum.splits)
  moreover from this(1) have "(i, Inr j) \<in> set (zip ids replies)" by (auto dest!: map_of_SomeD)
  ultimately show ?thesis by (auto simp: in_set_zip)
qed

context redis_server
begin

lemma replace:
  assumes "rc_Exec C (replace_set k ids (if ttl then [CExpire k d] else [])) r = ((e, replies), r')"
  shows "touches {k} (view r) (view r')"
    and "e = None \<Longrightarrow> view r' \<subseteq>\<^sub>m (view r)(k := if ids = [] then None else Some (DSet (set ids)))"
proof -
  have "cmd_key ` set (replace_set k ids (if ttl then [CExpire k d] else [])) = {k}"
    by (auto simp: replace_set_def)
  with exec [OF assms] show "touches {k} (view r) (view r')" by simp
  assume "e = None"
  with exec [OF assms] obtain v0 where v0: "v0 \<subseteq>\<^sub>m view r"
    "view r' \<subseteq>\<^sub>m fold apply_cmd (replace_set k ids (if ttl then [CExpire k d] else [])) v0" by blast
  have "fold apply_cmd (replace_set k ids (if ttl then [CExpire k d] else [])) v0 =
      v0(k := if ids = [] then None else Some (DSet (set ids)))"
    by (auto simp: replace_set_def members_def)
  with v0 show "view r' \<subseteq>\<^sub>m (view r)(k := if ids = [] then None else Some (DSet (set ids)))"
    using map_le_trans [OF _ map_le_upd [OF v0(1)]] by simp
qed

end

sublocale redis_server \<subseteq> cached: cache_laws "redis_cache RS C" "cached_view view" for RS
proof (unfold_locales, goal_cases)
  case (1 now o1 r e r')
  show ?case
  proof (cases "marshal_order o1")
    case None
    with 1 show ?thesis by (auto simp: redis_cache_def RedisCache_SetOrder_def put_entry_def)
  next
    case (Some j)
    with 1 have "rc_Set C (redis_key (KOrder (ID o1))) j (calculateOrderTTL now o1) r = (e, r')"
      by (simp add: redis_cache_def RedisCache_SetOrder_def)
    from set [OF this] show ?thesis
      by (intro cached_put [where d = "Some (DStr j)"]) (simp_all add: marshal_order_Some [OF Some])
  qed
next
  case (2 i r res r')
  obtain q where q: "rc_Get C (redis_key (KOrder i)) r = (q, r')"
    using 2 by (auto simp: redis_cache_def RedisCache_GetOrder_def split: prod.splits sum.splits if_splits option.splits)
  with get [OF q] 2 show ?case
    by (auto simp: redis_cache_def RedisCache_GetOrder_def cached_view_Some cached_view_mono
        split: sum.splits if_splits option.splits)
next
  case (3 ids r bres r')
  let ?ks = "map (\<lambda>i. redis_key (KOrder i)) ids"
  obtain err replies where q: "rc_Exec C (map CGet ?ks) r = ((err, replies), r')"
    and b: "\<And>m. bres = Inr m \<Longrightarrow> m = batch_entries ids replies"
    using 3 by (auto simp: redis_cache_def RedisCache_GetOrdersBatch_def comp_def split: prod.splits option.splits if_splits)
  note x = exec_gets [OF q]
  have "distinct (map fst (batch_entries ids replies))" by (rule batch_entries_distinct)
  moreover have "i \<in> set ids \<and> cached_view view r (KOrder i) = Some (VOrder o1)"
    if "(i, o1) \<in> set (batch_entries ids replies)" for i o1
    using batch_entries_Some [OF that] x by (auto simp: cached_view_Some)
  ultimately show ?case using x b by (auto simp: cached_view_mono)
next
  case (4 i r e r')
  then have "rc_Del C (redis_key (KOrder i)) r = (e, r')" by (simp add: redis_cache_def RedisCache_DeleteOrder_def)
  from del [OF this] show ?case by (intro cached_put [where d = None]) simp_all
next
  case (5 r ires r')
  then have "rc_SMembers C (redis_key KAll) r = (ires, r')" by (simp add: redis_cache_def RedisCache_GetAllActiveOrderIDs_def)
  from smembers [OF this] show ?case by (auto simp: cached_view_mono cached_view_Some)
next
  case (6 u r ires r')
  then have "rc_SMembers C (redis_key (KUser u)) r = (ires, r')" by (simp add: redis_cache_def RedisCache_GetUserActiveOrders_def)
  from smembers [OF this] show ?case by (auto simp: cached_view_mono cached_view_Some)
next
  case (7 r ires r')
  then have "rc_SMembers C (redis_key KHistory) r = (ires, r')" by (simp add: redis_cache_def RedisCache_GetHistoryOrderIDs_def)
  from smembers [OF this] show ?case by (auto simp: cached_view_mono cached_view_Some)
next
  case (8 ids r e r')
  then obtain replies where "rc_Exec C (replace_set (redis_key KAll) ids (if True then [CExpire (redis_key KAll) (14 * 24 * hour)] else [])) r =
      ((e, replies), r')"
    by (auto simp: redis_cache_def RedisCache_UpdateAllActiveOrders_def split: prod.splits)
  from replace [OF this] show ?case
    by (intro cached_wrote [where d = "if ids = [] then None else Some (DSet (set ids))"]) (simp_all add: ids_entry_def)
next
  case (9 u ids r e r')
  let ?k = "redis_key (KUser u)"
  from 9 obtain replies where "rc_Exec C (replace_set ?k ids (if True then [CExpire ?k (14 * 24 * hour)] else [])) r =
      ((e, replies), r')"
    by (auto simp: redis_cache_def RedisCache_UpdateUserActiveOrders_def Let_def split: prod.splits)
  from replace [OF this] show ?case
    by (intro cached_wrote [where d = "if ids = [] then None else Some (DSet (set ids))"]) (simp_all add: ids_entry_def)
next
  case (10 u r e r')
  then have "rc_Del C (redis_key (KUser u)) r = (e, r')" by (simp add: redis_cache_def RedisCache_DeleteUserIndex_def)
  from del [OF this] show ?case by (intro cached_put [where d = None]) simp_all
next
  case (11 i r e r')
  then have s: "rc_SAdd C (redis_key KHistory) i r = (e, r')" by (simp add: redis_cache_def RedisCache_AddToHistory_def)
  have "members (view r' historyKey) \<subseteq> insert i (members (view r historyKey))" if ok: "e = None"
  proof -
    from sadd [OF s] ok obtain v0 where v0: "v0 \<subseteq>\<^sub>m view r"
      "view r' \<subseteq>\<^sub>m v0(historyKey \<mapsto> DSet (insert i (members (v0 historyKey))))" by auto
    from members_mono [OF v0(2), of historyKey] members_mono [OF v0(1), of historyKey] show ?thesis
      by (auto simp: members_def)
  qed
  with sadd [OF s] show ?case by (simp add: cached_view_touches cids_history)
next
  case (12 i r e r')
  then have s: "rc_SRem C (redis_key KHistory) i r = (e, r')" by (simp add: redis_cache_def RedisCache_RemoveFromHistory_def)
  have "members (view r' historyKey) \<subseteq> members (view r historyKey) - {i}" if ok: "e = None"
  proof -
    from srem [OF s] ok obtain v0 where v0: "v0 \<subseteq>\<^sub>m view r"
      "view r' \<subseteq>\<^sub>m v0(historyKey \<mapsto> DSet (members (v0 historyKey) - {i}))" by auto
    from members_mono [OF v0(2), of historyKey] members_mono [OF v0(1), of historyKey] show ?thesis
      by (auto simp: members_def)
  qed
  with srem [OF s] show ?case by (simp add: cached_view_touches cids_history)
qed

context redis_server
begin

lemma keeps_contract: "cache_laws (redis_cache RS C) (cached_view view)"
  by unfold_locales

end

section \<open>A client in memory\<close>

text \<open>A client that never fails and whose keys never expire; it keeps the laws.\<close>

definition mem_get :: "string \<Rightarrow> (string \<Rightarrow> redis_data option) \<Rightarrow> goerror + json" where
  "mem_get k m = (case m k of None \<Rightarrow> Inl redis_Nil | Some (DStr j) \<Rightarrow> Inr j
     | Some (DSet A) \<Rightarrow> Inl (ErrDriver ''WRONGTYPE''))"

definition mem_reply :: "(string \<Rightarrow> redis_data option) \<Rightarrow> redis_cmd \<Rightarrow> goerror + json" where
  "mem_reply m c = (case c of CGet k \<Rightarrow> mem_get k m | _ \<Rightarrow> Inr JNull)"

definition first_error :: "(goerror + json) list \<Rightarrow> goerror option" where
  "first_error rs = (case List.map_filter (\<lambda>x. case x of Inl e \<Rightarrow> Some e | Inr _ \<Rightarrow> None) rs of
     [] \<Rightarrow> None | e # _ \<Rightarrow> Some e)"

definition mem_client :: "(string \<Rightarrow> redis_data option) redis_client" where
  "mem_client = \<lparr>rc_Get = (\<lambda>k m. (mem_get k m, m)),
     rc_Set = (\<lambda>k j d m. (None, m(k \<mapsto> DStr j))),
     rc_Del = (\<lambda>k m. (None, m(k := None))),
     rc_SMembers = (\<lambda>k m. (Inr (sorted_list_of_set (members (m k))), m)),
     rc_SAdd = (\<lambda>k x m. (None, m(k \<mapsto> DSet (insert x (members (m k)))))),
     rc_SRem = (\<lambda>k x m. (None, m(k \<mapsto> DSet (members (m k) - {x})))),
     rc_Exec = (\<lambda>cmds m. ((first_error (map (mem_reply m) cmds), map (mem_reply m) cmds), fold apply_cmd cmds m))\<rparr>"

lemma fold_apply_other: "k \<notin> cmd_key ` set cmds \<Longrightarrow> fold apply_cmd cmds m k = m k"
proof (induction cmds arbitrary: m)
  case (Cons c cmds)
  then show ?case by (cases c) auto
qed simp

lemma fold_apply_gets: "fold apply_cmd (map CGet ks) m = m"
  by (induction ks) auto

lemma sorted_list_members: "sorted_list_of_set (members d) = [] \<or> d = Some (DSet (set (sorted_list_of_set (members d))))"
proof (cases "finite (members d)")
  case True
  then show ?thesis
    by (cases d; cases "the d") (auto simp: members_def)
qed simp

interpretation memory: redis_server mem_client "\<lambda>m. m"
proof (unfold_locales, goal_cases)
  case (1 k r res r')
  then show ?case by (auto simp: mem_client_def mem_get_def split: option.splits redis_data.splits)
next
  case (2 k r ires r')
  then show ?case using sorted_list_members [of "r k"] by (auto simp: mem_client_def)
next
  case (7 cmds r e replies r')
  then show ?case by (auto simp: mem_client_def touches_iff fold_apply_other intro: exI [of _ r])
next
  case (8 ks r e replies r')
  then show ?case
    by (auto simp: mem_client_def fold_apply_gets mem_reply_def mem_get_def split: option.splits redis_data.splits)
next
  case (5 k x r e r')
  then show ?case by (auto simp: mem_client_def touches_iff intro: exI [of _ r])
next
  case (6 k x r e r')
  then show ?case by (auto simp: mem_client_def touches_iff intro: exI [of _ r])
qed (auto simp: mem_client_def touches_iff)

section \<open>Properties\<close>

text \<open>
  (C33) The cache never invents or mixes up orders: after an order was cached, a lookup of its id finds
  that very order, field by field, or nothing, and a lookup of another id finds only what was cached
  under that id before, whatever expires or fails in between.
\<close>

theorem cache_set_get:
  assumes "redis_server C view" "RedisCache_SetOrder C now o1 r = (None, r1)" "RedisCache_GetOrder C i r1 = (Inr (Some o2), r2)"
  shows "if i = ID o1 then o2 = o1 else cached_view view r (KOrder i) = Some (VOrder o2)"
  using cache_laws.set_get [OF redis_server.keeps_contract [OF assms(1)], where now = now and ?o1.0 = o1 and r = r and ?r1.0 = r1 and i = i
      and ?o2.0 = o2 and ?r2.0 = r2] assms(2,3)
  by (simp add: redis_cache_def)

theorem cache_set_get_witness:
  "\<exists>r1. RedisCache_SetOrder mem_client 1000 (sample_order ''a'' ''u'') Map.empty = (None, r1) \<and>
     RedisCache_GetOrder mem_client ''a'' r1 = (Inr (Some (sample_order ''a'' ''u'')), r1)"
proof -
  obtain j where j: "marshal_order (sample_order ''a'' ''u'') = Some j"
    by (simp add: marshal_order_def marshal_object_def sample_order_def marshal_time_def json_min_time_def json_max_time_def)
  let ?r1 = "[orderKeyPrefix @ ''a'' \<mapsto> DStr j]"
  have s: "RedisCache_SetOrder mem_client 1000 (sample_order ''a'' ''u'') Map.empty = (None, ?r1)"
    by (simp add: RedisCache_SetOrder_def j mem_client_def) (simp add: sample_order_def)
  obtain o2 where g: "RedisCache_GetOrder mem_client ''a'' ?r1 = (Inr (Some o2), ?r1)"
    using marshal_order_Some [OF j] by (simp add: RedisCache_GetOrder_def mem_client_def mem_get_def)
  from cache_set_get [OF memory.redis_server_axioms s g] s g show ?thesis by (simp add: sample_order_def)
qed

text \<open>
  An order lives in the cache as long as it counts as active: of an order on a time line that is not
  refunded, the time to live is positive only while the reports' SQL calls it active, and is
  never negative while it does.
\<close>

theorem cache_ttl_active:
  assumes "timeline (row_order r)" "refunded_at r = None"
  shows "(0 < calculateOrderTTL now (row_order r) \<longrightarrow> active_row now r) \<and>
    (active_row now r \<longrightarrow> 0 \<le> calculateOrderTTL now (row_order r))"
  using assms
  by (auto simp: timeline_def calculateOrderTTL_def active_row_def time_Sub_def split: option.splits)

theorem cache_ttl_active_witness:
  "active_row 5000 (sample_row 1 ''a'' ''u'') \<and> 0 \<le> calculateOrderTTL 5000 (row_order (sample_row 1 ''a'' ''u''))"
proof -
  have "timeline (row_order (sample_row 1 ''a'' ''u''))" by (simp add: timeline_def)
  from cache_ttl_active [OF this, of 5000] show ?thesis by (simp add: active_row_def)
qed

end
