(* ===== verification/Metrics.thy ===== *)
theory Metrics
  imports Domain
begin

text \<open>
  The metrics, \<^verbatim>\<open>internal/metrics/metrics.go\<close>. Prometheus is a library: a collector is what
  the program declares about it, and the registration of a collector is an argument of
  \<^verbatim>\<open>RegisterMetrics\<close>. The code only ever calls collectors and never reads them, so a call is a
  value, and the operations of the program return the calls they make in their order. What a collector then
  shows is defined on the list of the calls. The library also refuses label values that are not valid UTF-8;
  this case is left out.
\<close>

section \<open>Collectors\<close>

datatype collector =
    HTTPRequestCount
  | HTTPResponseStatusCount
  | CacheHits
  | CacheMisses
  | CacheOperations
  | DBQueryDuration
  | OrdersProcessed
  | APIResponseTime
  | KafkaMessages
  | KafkaErrors
  | RequestCount
  | RequestsInFlight
  | OrderValueDistribution
  | OrderWeightDistribution
  | OrderReturns
  | OrdersByStatus
  | FailedOrderCount

text \<open>The bounds of the buckets are the decimal constants of the source.\<close>

datatype metric_kind = Counter | Gauge | Histogram "rat list"

datatype metric_desc = metric_desc (desc_kind: metric_kind) (desc_Name: string) (desc_Help: string) (desc_labels: "string list")

definition collector_desc :: "collector \<Rightarrow> metric_desc" where
  "collector_desc c = (case c of
     HTTPRequestCount \<Rightarrow> metric_desc Counter ''http_requests_total'' ''Total number of HTTP requests'' [''method'', ''path'']
   | HTTPResponseStatusCount \<Rightarrow> metric_desc Counter ''http_response_status_total'' ''Total number of HTTP responses by status code'' [''status'', ''path'']
   | CacheHits \<Rightarrow> metric_desc Counter ''cache_hits_total'' ''Total number of cache hits'' [''type'']
   | CacheMisses \<Rightarrow> metric_desc Counter ''cache_misses_total'' ''Total number of cache misses'' [''type'']
   | CacheOperations \<Rightarrow> metric_desc Counter ''cache_operations_total'' ''Total number of cache operations'' [''operation'', ''status'']
   | DBQueryDuration \<Rightarrow> metric_desc (Histogram [1 / 1000, 5 / 1000, 1 / 100, 5 / 100, 1 / 10, 5 / 10, 1, 5]) ''db_query_duration_seconds'' ''Database query duration distribution'' [''operation'']
   | OrdersProcessed \<Rightarrow> metric_desc Counter ''orders_processed_total'' ''Total number of processed orders'' [''status'']
   | APIResponseTime \<Rightarrow> metric_desc (Histogram [1 / 100, 5 / 100, 1 / 10, 5 / 10, 1, 5]) ''api_response_time_seconds'' ''API response time distribution'' [''endpoint'', ''method'', ''status'']
   | KafkaMessages \<Rightarrow> metric_desc Counter ''kafka_consumer_messages_total'' ''Total messages consumed'' []
   | KafkaErrors \<Rightarrow> metric_desc Counter ''kafka_consumer_errors_total'' ''Total processing errors'' []
   | RequestCount \<Rightarrow> metric_desc Counter ''api_requests_count'' ''Total number of API requests'' [''method'', ''status'']
   | RequestsInFlight \<Rightarrow> metric_desc Gauge ''api_requests_in_flight'' ''Current number of requests being processed'' [''method'']
   | OrderValueDistribution \<Rightarrow> metric_desc (Histogram [100, 500, 1000, 3000, 5000, 10000]) ''order_value'' ''Order value distribution'' []
   | OrderWeightDistribution \<Rightarrow> metric_desc (Histogram [1 / 10, 5 / 10, 1, 2, 5, 10]) ''order_weight_kg'' ''Order weight distribution'' []
   | OrderReturns \<Rightarrow> metric_desc Counter ''order_returns_total'' ''Number of returned orders'' []
   | OrdersByStatus \<Rightarrow> metric_desc Gauge ''orders_by_status'' ''Total number of orders by status'' [''status'']
   | FailedOrderCount \<Rightarrow> metric_desc Counter ''failed_order_count'' ''Total number of not accepted orders'' [])"

definition collectors :: "collector list" where
  "collectors =
    [HTTPRequestCount, HTTPResponseStatusCount, CacheHits, CacheMisses, CacheOperations, DBQueryDuration,
     OrdersProcessed, APIResponseTime, KafkaMessages, KafkaErrors, RequestCount, RequestsInFlight,
     OrderValueDistribution, OrderWeightDistribution, OrderReturns, OrdersByStatus, FailedOrderCount]"

text \<open>\<open>register\<close> is \<^verbatim>\<open>prometheus.Register\<close> with the registry as its state; the loop
  ends at the first error.\<close>

fun register_loop :: "(collector \<Rightarrow> 'g \<Rightarrow> goerror option \<times> 'g) \<Rightarrow> collector list \<Rightarrow> 'g \<Rightarrow> goerror option \<times> 'g" where
  "register_loop register [] g = (None, g)"
| "register_loop register (c # cs) g =
     (case register c g of (Some err, g') \<Rightarrow> (Some err, g') | (None, g') \<Rightarrow> register_loop register cs g')"

definition RegisterMetrics :: "(collector \<Rightarrow> 'g \<Rightarrow> goerror option \<times> 'g) \<Rightarrow> 'g \<Rightarrow> goerror option \<times> 'g" where
  "RegisterMetrics register g = register_loop register collectors g"

section \<open>Calls\<close>

text \<open>A value that is observed is a number, or the seconds of the time between two readings of the clock.\<close>

datatype observed = Number float64 | Seconds duration

text \<open>\<^verbatim>\<open>WithLabelValues(...)\<close> followed by one of the three methods.\<close>

datatype metric_call =
    Inc collector "string list"
  | Dec collector "string list"
  | Observe collector "string list" observed

definition IncHTTPRequest :: "string \<Rightarrow> metric_call" where
  "IncHTTPRequest meth = Inc HTTPRequestCount [meth, ''unary'']"

definition IncHTTPResponse :: "string \<Rightarrow> string \<Rightarrow> metric_call" where
  "IncHTTPResponse status meth = Inc HTTPResponseStatusCount [status, meth]"

definition IncRequestsInFlight :: "string \<Rightarrow> metric_call" where
  "IncRequestsInFlight meth = Inc RequestsInFlight [meth]"

definition DecRequestsInFlight :: "string \<Rightarrow> metric_call" where
  "DecRequestsInFlight meth = Dec RequestsInFlight [meth]"

definition ObserveAPIResponseTime :: "string \<Rightarrow> string \<Rightarrow> duration \<Rightarrow> metric_call" where
  "ObserveAPIResponseTime meth status d = Observe APIResponseTime [meth, ''unary'', status] (Seconds d)"

definition IncRequestCount :: "string \<Rightarrow> string \<Rightarrow> metric_call" where
  "IncRequestCount meth status = Inc RequestCount [meth, status]"

definition ObserveOrderValue :: "float64 \<Rightarrow> metric_call" where
  "ObserveOrderValue v = Observe OrderValueDistribution [] (Number v)"

definition ObserveOrderWeight :: "float64 \<Rightarrow> metric_call" where
  "ObserveOrderWeight v = Observe OrderWeightDistribution [] (Number v)"

definition IncOrderReturns :: metric_call where
  "IncOrderReturns = Inc OrderReturns []"

definition IncFailedOrderCount :: metric_call where
  "IncFailedOrderCount = Inc FailedOrderCount []"

definition IncOrdersByStatus :: "string \<Rightarrow> metric_call" where
  "IncOrdersByStatus status = Inc OrdersByStatus [status]"

lemmas metric_helpers = IncHTTPRequest_def IncHTTPResponse_def IncRequestsInFlight_def DecRequestsInFlight_def
  ObserveAPIResponseTime_def IncRequestCount_def ObserveOrderValue_def ObserveOrderWeight_def IncOrderReturns_def
  IncFailedOrderCount_def IncOrdersByStatus_def

section \<open>Types of the calls, and what the collectors show\<close>

text \<open>
  A call fits its collector: it passes as many label values as the collector has labels (otherwise the library
  panics), and the collector is of a kind that has the method.
\<close>

fun metric_ok :: "metric_call \<Rightarrow> bool" where
  "metric_ok (Inc c ls) = (length ls = length (desc_labels (collector_desc c)) \<and> desc_kind (collector_desc c) \<in> {Counter, Gauge})"
| "metric_ok (Dec c ls) = (length ls = length (desc_labels (collector_desc c)) \<and> desc_kind (collector_desc c) = Gauge)"
| "metric_ok (Observe c ls v) = (length ls = length (desc_labels (collector_desc c)) \<and>
     (case desc_kind (collector_desc c) of Histogram bs \<Rightarrow> True | _ \<Rightarrow> False))"

lemma helpers_ok [simp]:
  "metric_ok (IncHTTPRequest m)" "metric_ok (IncHTTPResponse st m)" "metric_ok (IncRequestsInFlight m)"
  "metric_ok (DecRequestsInFlight m)" "metric_ok (ObserveAPIResponseTime m st d)" "metric_ok (IncRequestCount m st)"
  "metric_ok (ObserveOrderValue v)" "metric_ok (ObserveOrderWeight v)" "metric_ok IncOrderReturns"
  "metric_ok IncFailedOrderCount" "metric_ok (IncOrdersByStatus st)"
  by (simp_all add: metric_helpers collector_desc_def)

text \<open>The value of a counter or a gauge after calls, from zero.\<close>

fun metric_value :: "collector \<Rightarrow> string list \<Rightarrow> metric_call list \<Rightarrow> int" where
  "metric_value c ls [] = 0"
| "metric_value c ls (Inc c' ls' # ms) = (if c' = c \<and> ls' = ls then 1 else 0) + metric_value c ls ms"
| "metric_value c ls (Dec c' ls' # ms) = (if c' = c \<and> ls' = ls then - 1 else 0) + metric_value c ls ms"
| "metric_value c ls (Observe c' ls' v # ms) = metric_value c ls ms"

lemma metric_value_append [simp]: "metric_value c ls (ms @ ns) = metric_value c ls ms + metric_value c ls ns"
  by (induction c ls ms rule: metric_value.induct) auto

text \<open>The collectors of the servers, and those of the handlers and services behind them.\<close>

fun collector_of :: "metric_call \<Rightarrow> collector" where
  "collector_of (Inc c ls) = c"
| "collector_of (Dec c ls) = c"
| "collector_of (Observe c ls v) = c"

definition inner_metric :: "metric_call \<Rightarrow> bool" where
  "inner_metric m \<longleftrightarrow> metric_ok m \<and>
     collector_of m \<notin> {HTTPRequestCount, HTTPResponseStatusCount, APIResponseTime, RequestCount, RequestsInFlight}"

lemma inner_ok: "list_all inner_metric ms \<Longrightarrow> list_all metric_ok ms"
  by (auto simp: list_all_iff inner_metric_def)

lemma inner_value:
  assumes "list_all inner_metric ms"
    and "c \<in> {HTTPRequestCount, HTTPResponseStatusCount, APIResponseTime, RequestCount, RequestsInFlight}"
  shows "metric_value c ls ms = 0"
  using assms by (induction c ls ms rule: metric_value.induct) (auto simp: inner_metric_def)

lemma inner_helpers [simp]:
  "inner_metric (ObserveOrderValue v)" "inner_metric (ObserveOrderWeight v)" "inner_metric IncOrderReturns"
  "inner_metric IncFailedOrderCount" "inner_metric (IncOrdersByStatus st)"
  by (simp_all add: inner_metric_def metric_helpers collector_desc_def)

section \<open>Registration\<close>

lemma collectors_all: "c \<in> set collectors"
  by (cases c) (simp_all add: collectors_def)

lemma collector_names: "distinct (map (desc_Name \<circ> collector_desc) collectors)"
  by (simp add: collectors_def collector_desc_def)

text \<open>A loop over collectors with new and different names registers them all.\<close>

lemma register_loop_new:
  assumes "\<And>c g. desc_Name (collector_desc c) \<notin> names g \<Longrightarrow>
      \<exists>g'. register c g = (None, g') \<and> names g' = insert (desc_Name (collector_desc c)) (names g)"
    and "distinct (map (desc_Name \<circ> collector_desc) cs)" "(desc_Name \<circ> collector_desc) ` set cs \<inter> names g = {}"
  shows "\<exists>g'. register_loop register cs g = (None, g') \<and> names g' = (desc_Name \<circ> collector_desc) ` set cs \<union> names g"
  using assms(2,3)
proof (induction cs arbitrary: g)
  case (Cons c cs)
  obtain g1 where g1: "register c g = (None, g1)" "names g1 = insert (desc_Name (collector_desc c)) (names g)"
    using assms(1) [of c g] Cons.prems(2) by auto
  with Cons.prems have "(desc_Name \<circ> collector_desc) ` set cs \<inter> names g1 = {}" by auto
  with Cons.IH [of g1] Cons.prems(1) g1 show ?case by auto
qed simp

text \<open>
  (C40) Registering the metrics: when the registry refuses exactly the names it already has, the program's
  collectors are all accepted by a registry with none of their names, which afterwards has every one of them;
  a second registration fails at the first collector and changes nothing.
\<close>

theorem RegisterMetrics_result:
  assumes "\<And>c g. desc_Name (collector_desc c) \<notin> names g \<Longrightarrow>
      \<exists>g'. register c g = (None, g') \<and> names g' = insert (desc_Name (collector_desc c)) (names g)"
    and "\<And>c g. desc_Name (collector_desc c) \<in> names g \<Longrightarrow> \<exists>e. register c g = (Some e, g)"
    and "range (desc_Name \<circ> collector_desc) \<inter> names g = {}"
  shows "\<exists>g' e. RegisterMetrics register g = (None, g') \<and>
    names g' = range (desc_Name \<circ> collector_desc) \<union> names g \<and> RegisterMetrics register g' = (Some e, g')"
proof -
  have all: "set collectors = UNIV" using collectors_all by auto
  obtain g' where g': "register_loop register collectors g = (None, g')"
    "names g' = range (desc_Name \<circ> collector_desc) \<union> names g"
    using register_loop_new [where names = names and register = register and g = g, OF assms(1) collector_names] assms(3) by (auto simp: all)
  obtain cs where cs: "collectors = HTTPRequestCount # cs" by (simp add: collectors_def)
  obtain e where "register HTTPRequestCount g' = (Some e, g')" using assms(2) [of HTTPRequestCount g'] g'(2) by auto
  then have "register_loop register collectors g' = (Some e, g')" by (simp add: cs)
  with g' show ?thesis by (auto simp: RegisterMetrics_def)
qed

text \<open>A registry that keeps the names it has, as the set of a list.\<close>

definition name_registry :: "collector \<Rightarrow> string list \<Rightarrow> goerror option \<times> string list" where
  "name_registry c g = (if desc_Name (collector_desc c) \<in> set g then (Some (ErrText ''duplicate metrics collector registration attempted''), g)
     else (None, desc_Name (collector_desc c) # g))"

theorem RegisterMetrics_result_witness:
  "\<exists>g e. RegisterMetrics name_registry [''go_goroutines''] = (None, g) \<and> ''orders_by_status'' \<in> set g \<and>
    RegisterMetrics name_registry g = (Some e, g)"
proof -
  have fresh: "range (desc_Name \<circ> collector_desc) \<inter> set [''go_goroutines''] = {}"
    by (auto simp: collector_desc_def split: collector.splits)
  obtain g e where "RegisterMetrics name_registry [''go_goroutines''] = (None, g)"
    "set g = range (desc_Name \<circ> collector_desc) \<union> {''go_goroutines''}" "RegisterMetrics name_registry g = (Some e, g)"
    using RegisterMetrics_result [of set name_registry "[''go_goroutines'']", OF _ _ fresh] by (auto simp: name_registry_def)
  moreover have "desc_Name (collector_desc OrdersByStatus) = ''orders_by_status''" by (simp add: collector_desc_def)
  ultimately show ?thesis by (metis UnI1 comp_apply rangeI)
qed

end
