(* ===== verification/Order_Service.thy ===== *)
theory Order_Service
  imports Order_Repo User_Order_Storage Cache Metrics
begin

text \<open>
  The service of orders, \<^verbatim>\<open>internal/service/storage_service.go\<close>: it calls the repositories and
  keeps the cache up to date beside them. Its state is the pair of the state of the storage and the state
  of the cache. A goroutine the service starts is a value of \<open>cache_job\<close> which is run later; each
  argument \<open>now\<close> or \<open>clock\<close> is a clock that the code reads; \<open>timed\<close> is its reading at the
  start and at the end of an operation that observes how long it took. An operation that calls collectors
  returns the calls. Log lines have no effect on what the service does and are left out.
\<close>

section \<open>The service and its answers\<close>

record ('w, 'r) order_service =
  svc_orders :: "'w order_storage"
  svc_user_orders :: "'w user_order_storage"
  svc_reports :: "'w report_storage"
  svc_cache :: "('w, 'r) order_cache"

definition NewOrderService :: "pg_env \<Rightarrow> 'r redis_client \<Rightarrow> (pg, 'r) order_service" where
  "NewOrderService E C = \<lparr>svc_orders = pg_order_storage E, svc_user_orders = pg_user_order_storage E,
     svc_reports = pg_report_storage E, svc_cache = redis_cache (pg_report_storage E) C\<rparr>"

record order_response =
  resp_ID :: string
  resp_RecipientID :: string
  resp_Expiry :: string
  resp_BasePrice :: float64
  resp_Weight :: float64
  resp_Packaging :: string
  resp_Status :: string
  resp_StoredAt :: string
  resp_IssuedAt :: string
  resp_RefundedAt :: string

record issue_refund_response =
  ProcessedOrderIDs :: "string list"
  FailedOrderIds :: "string list"
  ResponseError :: string

definition errorToString :: "goerror option \<Rightarrow> string" where
  "errorToString err = (case err of Some e \<Rightarrow> Error e | None \<Rightarrow> [])"

definition format_ptr :: "time option \<Rightarrow> string" where
  "format_ptr t = (case t of None \<Rightarrow> [] | Some x \<Rightarrow> Format_RFC3339 x)"

definition mapOrderToResponse :: "order \<Rightarrow> order_response" where
  "mapOrderToResponse o1 = \<lparr>resp_ID = ID o1, resp_RecipientID = RecipientID o1,
     resp_Expiry = Format_RFC3339 (Expiry o1), resp_BasePrice = BasePrice o1, resp_Weight = Weight o1,
     resp_Packaging = Packaging o1, resp_Status = status_string (Status o1),
     resp_StoredAt = format_ptr (StoredAt o1), resp_IssuedAt = format_ptr (IssuedAt o1),
     resp_RefundedAt = format_ptr (RefundedAt o1)\<rparr>"

definition mapOrdersToResponses :: "order list \<Rightarrow> order_response list" where
  "mapOrdersToResponses os = map mapOrderToResponse os"

text \<open>A call of a repository, and a call of the cache.\<close>

definition on_db :: "('w \<Rightarrow> 'x \<times> 'w) \<Rightarrow> 'w \<times> 'r \<Rightarrow> 'x \<times> 'w \<times> 'r" where
  "on_db f s = (case s of (w, r) \<Rightarrow> (case f w of (x, w') \<Rightarrow> (x, w', r)))"

definition on_cache :: "('r \<Rightarrow> 'x \<times> 'r) \<Rightarrow> 'w \<times> 'r \<Rightarrow> 'x \<times> 'w \<times> 'r" where
  "on_cache f s = (case s of (w, r) \<Rightarrow> (case f r of (x, r') \<Rightarrow> (x, w, r')))"

section \<open>Accept and return\<close>

datatype cache_job = AfterAccept order | AfterReturn string order

definition orderService_AcceptOrder ::
    "('w, 'r) order_service \<Rightarrow> time \<Rightarrow> time \<Rightarrow> order \<Rightarrow> 'w \<times> 'r \<Rightarrow> (goerror option \<times> cache_job list) \<times> 'w \<times> 'r" where
  "orderService_AcceptOrder SV now1 now2 o1 s =
     (case on_db (orderRepository_AcceptOrder (svc_orders SV) now1 now2 o1) s of
        (Some e, s') \<Rightarrow> ((Some e, []), s')
      | (None, s') \<Rightarrow> ((None, [AfterAccept o1]), s'))"

definition orderService_ReturnOrder ::
    "('w, 'r) order_service \<Rightarrow> time \<Rightarrow> string \<Rightarrow> 'w \<times> 'r \<Rightarrow> (goerror option \<times> cache_job list) go \<times> 'w \<times> 'r" where
  "orderService_ReturnOrder SV now orderID s =
     (case on_db (orderRepository_FindOrderByID (svc_orders SV) orderID) s of
        (Inl e, s1) \<Rightarrow> (Ret (Some e, []), s1)
      | (Inr o1, s1) \<Rightarrow>
          (case on_db (orderRepository_ReturnOrder (svc_orders SV) now orderID) s1 of
             (Panic, s2) \<Rightarrow> (Panic, s2)
           | (Ret (Some e), s2) \<Rightarrow> (Ret (Some e, []), s2)
           | (Ret None, s2) \<Rightarrow> (Ret (None, [AfterReturn orderID o1]), s2)))"

text \<open>
  A job reads the list of the user's active orders and then writes a new list; another job may run between
  the two.
\<close>

definition ids_or_none :: "goerror + string list \<Rightarrow> string list" where
  "ids_or_none res = (case res of Inl e \<Rightarrow> [] | Inr ids \<Rightarrow> ids)"

definition job_read :: "('w, 'r) order_cache \<Rightarrow> time \<Rightarrow> cache_job \<Rightarrow> 'r \<Rightarrow> string list \<times> 'r" where
  "job_read CA now job r = (case job of
      AfterAccept o1 \<Rightarrow>
        (let (e1, r1) = oc_SetOrder CA now o1 r;
             (e2, r2) = oc_AddToHistory CA (ID o1) r1;
             (res, r3) = oc_GetUserActiveOrders CA (RecipientID o1) r2
         in (ids_or_none res, r3))
    | AfterReturn orderID o1 \<Rightarrow>
        (let (e1, r1) = oc_DeleteOrder CA orderID r;
             (res, r2) = oc_GetUserActiveOrders CA (RecipientID o1) r1
         in (ids_or_none res, r2)))"

definition job_write :: "('w, 'r) order_cache \<Rightarrow> cache_job \<Rightarrow> string list \<Rightarrow> 'r \<Rightarrow> goerror option \<times> 'r" where
  "job_write CA job activeIDs r = (case job of
      AfterAccept o1 \<Rightarrow> oc_UpdateUserActiveOrders CA (RecipientID o1) (activeIDs @ [ID o1]) r
    | AfterReturn orderID o1 \<Rightarrow>
        (let newActiveIDs = filter (\<lambda>i. i \<noteq> orderID) activeIDs
         in if length newActiveIDs > 0 then oc_UpdateUserActiveOrders CA (RecipientID o1) newActiveIDs r
            else oc_DeleteUserIndex CA (RecipientID o1) r))"

definition run_job :: "('w, 'r) order_cache \<Rightarrow> time \<Rightarrow> cache_job \<Rightarrow> 'r \<Rightarrow> goerror option \<times> 'r" where
  "run_job CA now job r = (case job_read CA now job r of (ids, r') \<Rightarrow> job_write CA job ids r')"

section \<open>Issue and refund\<close>

text \<open>The loops over the processed orders; \<open>clock\<close> gives the time of the stamp and of
  \<^verbatim>\<open>SetOrder\<close> for each order.\<close>

fun issue_cache_loop ::
    "('w, 'r) order_cache \<Rightarrow> (nat \<Rightarrow> time \<times> time) \<Rightarrow> string list \<Rightarrow> 'r \<Rightarrow> 'r" where
  "issue_cache_loop CA clock [] r = r"
| "issue_cache_loop CA clock (i # ids) r =
     (case oc_GetOrder CA i r of
        (Inr (Some o1), r1) \<Rightarrow>
          issue_cache_loop CA (clock \<circ> Suc) ids
            (snd (oc_SetOrder CA (snd (clock 0)) (o1\<lparr>IssuedAt := Some (fst (clock 0))\<rparr>) r1))
      | (_, r1) \<Rightarrow> issue_cache_loop CA (clock \<circ> Suc) ids r1)"

fun refund_cache_loop :: "('w, 'r) order_cache \<Rightarrow> string list \<Rightarrow> 'r \<Rightarrow> 'r" where
  "refund_cache_loop CA [] r = r"
| "refund_cache_loop CA (i # ids) r =
     refund_cache_loop CA ids (snd (oc_RemoveFromHistory CA i (snd (oc_DeleteOrder CA i r))))"

definition processed_response :: "processed_orders \<Rightarrow> issue_refund_response" where
  "processed_response result = \<lparr>ProcessedOrderIDs = OrderIDs result, FailedOrderIds = Failed result,
     ResponseError = errorToString (ProcError result)\<rparr>"

definition orderService_IssueOrders ::
    "('w, 'r) order_service \<Rightarrow> time \<Rightarrow> (nat \<Rightarrow> time \<times> time) \<Rightarrow> string \<Rightarrow> string list \<Rightarrow> 'w \<times> 'r \<Rightarrow>
     (goerror + issue_refund_response) \<times> 'w \<times> 'r" where
  "orderService_IssueOrders SV now clock userID orderIDs s =
     (case on_db (userOrderRepository_IssueOrders (svc_user_orders SV) now userID orderIDs) s of
        (Inl e, s') \<Rightarrow> (Inl e, s')
      | (Inr result, (w', r')) \<Rightarrow>
          (Inr (processed_response result), w', issue_cache_loop (svc_cache SV) clock (OrderIDs result) r'))"

definition orderService_RefundOrders ::
    "('w, 'r) order_service \<Rightarrow> time \<Rightarrow> string \<Rightarrow> string list \<Rightarrow> 'w \<times> 'r \<Rightarrow>
     (goerror + issue_refund_response) \<times> 'w \<times> 'r" where
  "orderService_RefundOrders SV now userID orderIDs s =
     (case on_db (userOrderRepository_RefundOrders (svc_user_orders SV) now userID orderIDs) s of
        (Inl e, s') \<Rightarrow> (Inl e, s')
      | (Inr result, (w', r')) \<Rightarrow>
          (Inr (processed_response result), w', refund_cache_loop (svc_cache SV) (OrderIDs result) r'))"

section \<open>Reports\<close>

definition responses ::
    "(goerror + order list \<times> string) \<times> 's \<Rightarrow> (goerror + order_response list \<times> string) \<times> 's" where
  "responses res = (case res of (Inl e, s) \<Rightarrow> (Inl e, s)
     | (Inr (os, nextCursor), s) \<Rightarrow> (Inr (mapOrdersToResponses os, nextCursor), s))"

definition orderService_GetUserOrders ::
    "('w, 'r) order_service \<Rightarrow> string \<Rightarrow> int \<Rightarrow> int option \<Rightarrow> string \<Rightarrow> 'w \<times> 'r \<Rightarrow>
     (goerror + order_response list \<times> string) \<times> 'w \<times> 'r" where
  "orderService_GetUserOrders SV userID limit cursor status s =
     responses (on_db (reportRepository_GetUserOrders (svc_reports SV) userID limit cursor status) s)"

definition orderService_GetRefundedOrders ::
    "('w, 'r) order_service \<Rightarrow> int \<Rightarrow> int option \<Rightarrow> 'w \<times> 'r \<Rightarrow>
     (goerror + order_response list \<times> string) \<times> 'w \<times> 'r" where
  "orderService_GetRefundedOrders SV limit cursor s =
     responses (on_db (reportRepository_GetRefundedOrders (svc_reports SV) limit cursor) s)"

definition orderService_GetOrderHistory ::
    "('w, 'r) order_service \<Rightarrow> int \<Rightarrow> time \<Rightarrow> int \<Rightarrow> 'w \<times> 'r \<Rightarrow>
     (goerror + order_response list \<times> string) \<times> 'w \<times> 'r" where
  "orderService_GetOrderHistory SV limit lastUpdatedCursor idCursor s =
     responses (on_db (reportRepository_GetOrderHistory (svc_reports SV) limit lastUpdatedCursor idCursor) s)"

text \<open>\<open>iter\<close> is the order in which Go ranges over the entries of a map.\<close>

definition orderService_GetOrderHistoryV2 ::
    "('w, 'r) order_service \<Rightarrow> ((string \<times> order) list \<Rightarrow> (string \<times> order) list) \<Rightarrow> 'w \<times> 'r \<Rightarrow>
     (goerror + order list) \<times> 'w \<times> 'r" where
  "orderService_GetOrderHistoryV2 SV iter s =
     (let (res, s1) = on_cache (oc_GetHistoryOrderIDs (svc_cache SV)) s;
          orderIDs = ids_or_none res;
          (batch, s2) = on_cache (oc_GetOrdersBatch (svc_cache SV) orderIDs) s1;
          entries = (case batch of Inl e \<Rightarrow> [] | Inr m \<Rightarrow> m);
          result = map snd (iter entries)
      in if length result = 0
         then (case on_db (reportRepository_GetOrderHistory (svc_reports SV) 0 0 0) s2 of
                 (Inl e, s3) \<Rightarrow> (Inl e, s3)
               | (Inr (os, _), s3) \<Rightarrow> (Inr os, s3))
         else (Inr result, s2))"

text \<open>The loop that looks each order up in the cache and then in the table.\<close>

fun lookup_loop ::
    "('w, 'r) order_service \<Rightarrow> (nat \<Rightarrow> time) \<Rightarrow> string list \<Rightarrow> 'w \<times> 'r \<Rightarrow> order list \<times> 'w \<times> 'r" where
  "lookup_loop SV clock [] s = ([], s)"
| "lookup_loop SV clock (i # ids) s =
     (case on_cache (oc_GetOrder (svc_cache SV) i) s of
        (Inl e, s1) \<Rightarrow> lookup_loop SV (clock \<circ> Suc) ids s1
      | (Inr (Some o1), s1) \<Rightarrow>
          (case lookup_loop SV (clock \<circ> Suc) ids s1 of (os, s') \<Rightarrow> (o1 # os, s'))
      | (Inr None, s1) \<Rightarrow>
          (case on_db (orderRepository_FindOrderByID (svc_orders SV) i) s1 of
             (Inl e, s2) \<Rightarrow> lookup_loop SV (clock \<circ> Suc) ids s2
           | (Inr o1, s2) \<Rightarrow>
               (case on_cache (oc_SetOrder (svc_cache SV) (clock 0) o1) s2 of
                  (_, s3) \<Rightarrow> (case lookup_loop SV (clock \<circ> Suc) ids s3 of (os, s') \<Rightarrow> (o1 # os, s')))))"

text \<open>The calls of the collectors: the label of the operation is the same for both lists of active orders.\<close>

definition active_metrics :: "string \<Rightarrow> time \<times> time \<Rightarrow> goerror + string list \<Rightarrow> metric_call list" where
  "active_metrics operation timed res =
     [Inc CacheOperations [''GetHistoryIDs'', case res of Inl err \<Rightarrow> ''error'' | Inr ids \<Rightarrow> ''success''],
      Inc (if length (ids_or_none res) = 0 then CacheMisses else CacheHits) [''history''],
      Observe DBQueryDuration [operation] (Seconds (time_Sub (snd timed) (fst timed)))]"

definition orderService_GetUserActiveOrders ::
    "('w, 'r) order_service \<Rightarrow> time \<Rightarrow> (nat \<Rightarrow> time) \<Rightarrow> time \<times> time \<Rightarrow> string \<Rightarrow> 'w \<times> 'r \<Rightarrow>
     ((goerror + order list) \<times> metric_call list) \<times> 'w \<times> 'r" where
  "orderService_GetUserActiveOrders SV now clock timed userID s =
     (let (res, s1) = on_cache (oc_GetUserActiveOrders (svc_cache SV) userID) s; orderIDs = ids_or_none res;
          ms = active_metrics ''GetUserActiveOrders'' timed res
      in if length orderIDs = 0
         then (case on_db (reportRepository_GetUserActiveOrderIDs (svc_reports SV) now userID) s1 of
                 (Inl e, s2) \<Rightarrow> ((Inl e, ms), s2)
               | (Inr orderIDs, s2) \<Rightarrow>
                   (case on_cache (oc_UpdateUserActiveOrders (svc_cache SV) userID orderIDs) s2 of
                      (_, s3) \<Rightarrow> (case lookup_loop SV clock orderIDs s3 of (os, s') \<Rightarrow> ((Inr os, ms), s'))))
         else (case lookup_loop SV clock orderIDs s1 of (os, s') \<Rightarrow> ((Inr os, ms), s')))"

definition orderService_GetAllActiveOrders ::
    "('w, 'r) order_service \<Rightarrow> time \<Rightarrow> (nat \<Rightarrow> time) \<Rightarrow> time \<times> time \<Rightarrow> 'w \<times> 'r \<Rightarrow>
     ((goerror + order list) \<times> metric_call list) \<times> 'w \<times> 'r" where
  "orderService_GetAllActiveOrders SV now clock timed s =
     (let (res, s1) = on_cache (oc_GetAllActiveOrderIDs (svc_cache SV)) s; orderIDs = ids_or_none res;
          ms = active_metrics ''GetAllActiveOrders'' timed res
      in if length orderIDs = 0
         then (case on_db (reportRepository_GetAllActiveOrderIDs (svc_reports SV) now) s1 of
                 (Inl e, s2) \<Rightarrow> ((Inl e, ms), s2)
               | (Inr orderIDs, s2) \<Rightarrow>
                   (case on_cache (oc_UpdateAllActiveOrders (svc_cache SV) orderIDs) s2 of
                      (_, s3) \<Rightarrow> (case lookup_loop SV clock orderIDs s3 of (os, s') \<Rightarrow> ((Inr os, ms), s'))))
         else (case lookup_loop SV clock orderIDs s1 of (os, s') \<Rightarrow> ((Inr os, ms), s')))"

section \<open>Filling and refreshing the cache\<close>

fun cache_all :: "('w, 'r) order_cache \<Rightarrow> (nat \<Rightarrow> time) \<Rightarrow> order list \<Rightarrow> 'r \<Rightarrow> 'r" where
  "cache_all CA clock [] r = r"
| "cache_all CA clock (o1 # os) r = cache_all CA (clock \<circ> Suc) os (snd (oc_SetOrder CA (clock 0) o1 r))"

definition cache_found :: "('w, 'r) order_service \<Rightarrow> (nat \<Rightarrow> time) \<Rightarrow> string list \<Rightarrow> 'w \<times> 'r \<Rightarrow> 'w \<times> 'r" where
  "cache_found SV clock ids s =
     (case on_db (orderRepository_FindOrdersByIDs (svc_orders SV) ids) s of
        (Inl e, s') \<Rightarrow> s'
      | (Inr os, (w', r')) \<Rightarrow> (w', cache_all (svc_cache SV) clock os r'))"

definition orderService_InitCache ::
    "('w, 'r) order_service \<Rightarrow> time \<Rightarrow> (nat \<Rightarrow> time) \<Rightarrow> (nat \<Rightarrow> time) \<Rightarrow> 'w \<times> 'r \<Rightarrow> 'w \<times> 'r" where
  "orderService_InitCache SV now clock1 clock2 s =
     (let s1 = (case on_db (reportRepository_GetAllActiveOrderIDs (svc_reports SV) now) s of
            (Inl e, s') \<Rightarrow> s'
          | (Inr activeIDs, s') \<Rightarrow>
              cache_found SV clock1 activeIDs
                (snd (on_cache (oc_UpdateAllActiveOrders (svc_cache SV) activeIDs) s')))
      in case on_db (reportRepository_GetHistoryOrderIDs (svc_reports SV)) s1 of
            (Inl e, s') \<Rightarrow> s'
          | (Inr historyIDs, s') \<Rightarrow>
              cache_found SV clock2 historyIDs (snd (oc_RefreshHistory (svc_cache SV) s')))"

datatype refresh_signal = ActiveTick time | HistoryTick | RefreshDone

fun orderService_CacheRefresh ::
    "('w, 'r) order_service \<Rightarrow> refresh_signal list \<Rightarrow> 'w \<times> 'r \<Rightarrow> 'w \<times> 'r" where
  "orderService_CacheRefresh SV [] s = s"
| "orderService_CacheRefresh SV (RefreshDone # sigs) s = s"
| "orderService_CacheRefresh SV (ActiveTick now # sigs) s =
     orderService_CacheRefresh SV sigs (snd (oc_RefreshActiveOrders (svc_cache SV) now s))"
| "orderService_CacheRefresh SV (HistoryTick # sigs) s =
     orderService_CacheRefresh SV sigs (snd (oc_RefreshHistory (svc_cache SV) s))"

section \<open>What the service does with the store\<close>

lemma NewOrderService_simps [simp]:
  "svc_orders (NewOrderService E C) = pg_order_storage E"
  "svc_user_orders (NewOrderService E C) = pg_user_order_storage E"
  "svc_reports (NewOrderService E C) = pg_report_storage E"
  "svc_cache (NewOrderService E C) = redis_cache (pg_report_storage E) C"
  by (simp_all add: NewOrderService_def)

lemma on_db_pair [simp]: "on_db f (w, r) = (case f w of (x, w') \<Rightarrow> (x, w', r))"
  by (simp add: on_db_def)

lemma on_cache_pair [simp]: "on_cache f (w, r) = (case f r of (x, r') \<Rightarrow> (x, w, r'))"
  by (simp add: on_cache_def)

text \<open>
  Each call of the service to the database is a transaction of its own, and other requests run between them.
  \<open>interrupt\<close> is a call before which one of a list of changes by others happens; the service over
  interrupted storages is the service among other requests.
\<close>

definition interrupt :: "('w \<Rightarrow> 'x \<times> 'w) \<Rightarrow> 'w \<times> ('w \<Rightarrow> 'w) list \<Rightarrow> 'x \<times> 'w \<times> ('w \<Rightarrow> 'w) list" where
  "interrupt call s = (case s of
      (w, []) \<Rightarrow> (case call w of (x, w') \<Rightarrow> (x, w', []))
    | (w, other # others) \<Rightarrow> (case call (other w) of (x, w') \<Rightarrow> (x, w', others)))"

definition interrupted_orders :: "'w order_storage \<Rightarrow> ('w \<times> ('w \<Rightarrow> 'w) list) order_storage" where
  "interrupted_orders S = \<lparr>os_SaveOrder = (\<lambda>o1. interrupt (os_SaveOrder S o1)), os_FindOrderByID = (\<lambda>i. interrupt (os_FindOrderByID S i)),
     os_FindOrdersByIDs = (\<lambda>ids. interrupt (os_FindOrdersByIDs S ids)), os_DeleteOrder = (\<lambda>i. interrupt (os_DeleteOrder S i))\<rparr>"

definition interrupted_reports :: "'w report_storage \<Rightarrow> ('w \<times> ('w \<Rightarrow> 'w) list) report_storage" where
  "interrupted_reports S = \<lparr>rs_GetUserOrders = (\<lambda>u n c st. interrupt (rs_GetUserOrders S u n c st)),
     rs_GetRefundedOrders = (\<lambda>n c. interrupt (rs_GetRefundedOrders S n c)),
     rs_GetOrderHistory = (\<lambda>n t i. interrupt (rs_GetOrderHistory S n t i)),
     rs_GetHistoryOrderIDs = interrupt (rs_GetHistoryOrderIDs S),
     rs_GetAllActiveOrderIDs = (\<lambda>now. interrupt (rs_GetAllActiveOrderIDs S now)),
     rs_GetUserActiveOrderIDs = (\<lambda>now u. interrupt (rs_GetUserActiveOrderIDs S now u)),
     rs_GetAllOrders = interrupt (rs_GetAllOrders S)\<rparr>"

definition interrupted_service :: "pg_env \<Rightarrow> 'r redis_client \<Rightarrow> (pg \<times> (pg \<Rightarrow> pg) list, 'r) order_service" where
  "interrupted_service E C = \<lparr>svc_orders = interrupted_orders (pg_order_storage E),
     svc_user_orders = \<lparr>uos_IssueOrders = (\<lambda>now u ids. interrupt (uos_IssueOrders (pg_user_order_storage E) now u ids)),
       uos_RefundOrders = (\<lambda>now u ids. interrupt (uos_RefundOrders (pg_user_order_storage E) now u ids))\<rparr>,
     svc_reports = interrupted_reports (pg_report_storage E),
     svc_cache = redis_cache (interrupted_reports (pg_report_storage E)) C\<rparr>"

lemma interrupt_simps [simp]:
  "interrupt call (w, []) = (case call w of (x, w') \<Rightarrow> (x, w', []))"
  "interrupt call (w, other # others) = (case call (other w) of (x, w') \<Rightarrow> (x, w', others))"
  by (simp_all add: interrupt_def)

text \<open>Without others the service does what it does alone.\<close>

lemma interrupted_alone:
  "orderService_ReturnOrder (interrupted_service E C) now i ((w, []), r) =
    (case orderService_ReturnOrder (NewOrderService E C) now i (w, r) of (res, w', r') \<Rightarrow> (res, (w', []), r'))"
  by (auto simp: orderService_ReturnOrder_def orderRepository_FindOrderByID_def orderRepository_ReturnOrder_def
      interrupted_service_def interrupted_orders_def on_db_def split: prod.splits sum.splits go.splits option.splits)

context order_store
begin

text \<open>A return among others: \<open>f\<close> happens between the two lookups, \<open>g\<close> before the delete.\<close>

lemma service_return:
  assumes "valid w" "\<forall>v. valid v \<longrightarrow> valid (f v)" "\<forall>v. valid v \<longrightarrow> valid (g v)" "svc_orders SV = interrupted_orders S"
    and "w1 = snd (os_FindOrderByID S i w)" "w2 = snd (os_FindOrderByID S i (f w1))"
    and "orderService_ReturnOrder SV now i ((w, [id, f, g]), r) = (res, (w', fs), r')"
  shows "r' = r \<and> valid w' \<and> (case res of
      Panic \<Rightarrow> stored w i \<noteq> None \<and> stored (f w1) i = None \<and> stored w' = stored (f w1)
    | Ret (None, jobs) \<Rightarrow> stored w' = (stored (g w2))(i := None) \<and>
        (\<exists>o1 o2. stored w i = Some o1 \<and> stored (f w1) i = Some o2 \<and> Status o2 = StatusStored \<and> Expiry o2 \<le> now \<and>
           jobs = [AfterReturn i o1])
    | Ret (Some e, jobs) \<Rightarrow> stored w' \<in> {stored w, stored (f w1), stored (g w2)} \<and> jobs = [])"
proof -
  obtain q where f1: "os_FindOrderByID S i w = (q, w1)" using assms(5) by (cases "os_FindOrderByID S i w") simp
  obtain p where f2: "os_FindOrderByID S i (f w1) = (p, w2)" using assms(6) by (cases "os_FindOrderByID S i (f w1)") simp
  obtain d w3 where de: "os_DeleteOrder S i (g w2) = (d, w3)" by fastforce
  note l1 = find_law [OF assms(1) f1]
  then have v1: "valid (f w1)" using assms(2) by blast
  note l2 = find_law [OF v1 f2]
  then have v2: "valid (g w2)" using assms(3) by blast
  note l3 = delete_law [OF v2 de]
  note run = assms(7) [unfolded orderService_ReturnOrder_def orderRepository_FindOrderByID_def orderRepository_ReturnOrder_def
      assms(4) interrupted_orders_def, simplified, simplified f1 f2 de, simplified]
  show ?thesis
  proof (cases q)
    case (Inl e)
    with run f1 l1 show ?thesis by auto
  next
    case (Inr o1)
    show ?thesis
    proof (cases p)
      case (Inl e)
      with run Inr f1 f2 l1 l2 v1 show ?thesis by (auto split: if_splits)
    next
      case (Inr o2)
      with run \<open>q = Inr o1\<close> f1 f2 de l1 l2 l3 show ?thesis
        by (cases d) (auto simp: fun_upd_idem split: if_splits)
    qed
  qed
qed

end

section \<open>What the service does with the cache\<close>

text \<open>Every cached order is filed under its own id.\<close>

definition filed :: "(ckey \<Rightarrow> cval option) \<Rightarrow> bool" where
  "filed m \<longleftrightarrow> (\<forall>i o1. m (KOrder i) = Some (VOrder o1) \<longrightarrow> ID o1 = i)"

lemma filed_mono: "m' \<subseteq>\<^sub>m m \<Longrightarrow> filed m \<Longrightarrow> filed m'"
  unfolding filed_def map_le_iff by blast

lemma filed_put: "put_entry (KOrder (ID o1)) (Some (VOrder o1)) m m' ok \<Longrightarrow> filed m \<Longrightarrow> filed m'"
  unfolding put_entry_def filed_def map_le_iff by (metis fun_upd_apply ckey.inject(1) cval.inject(1) option.inject)

lemma put_entry_cases:
  "put_entry k v m m' ok \<Longrightarrow> m' l = Some x \<Longrightarrow> m l = Some x \<or> (l = k \<and> v = Some x)"
  unfolding put_entry_def map_le_iff by (metis fun_upd_apply)

lemma filed_touches: "touches {k} m m' \<Longrightarrow> (\<And>i. k \<noteq> KOrder i) \<Longrightarrow> filed m \<Longrightarrow> filed m'"
  unfolding touches_iff filed_def by (metis singletonD)

lemma id_list_same:
  assumes "id_list (db_query rows w) = (q, w')"
  shows "same_tables w w' \<and> orders_id_seq w' = orders_id_seq w"
  using assms db_query_same [of rows w] db_query_frame(5) [of rows w]
  by (auto simp: id_list_def split: prod.splits sum.splits)

locale shop = order_store S stored kept valid + cache: cache_laws CA cview
  for S :: "'w order_storage" and stored :: "'w \<Rightarrow> string \<Rightarrow> order option" and kept valid
    and CA :: "('w, 'r) order_cache" and cview :: "'r \<Rightarrow> ckey \<Rightarrow> cval option" +
  fixes SV :: "('w, 'r) order_service"
    and active_of :: "time \<Rightarrow> string \<Rightarrow> 'w \<Rightarrow> string set"
  assumes svc_orders: "svc_orders SV = S" and svc_cache: "svc_cache SV = CA"
    and user_ids_law: "valid w \<Longrightarrow> rs_GetUserActiveOrderIDs (svc_reports SV) now u w = (q, w') \<Longrightarrow>
      valid w' \<and> stored w' = stored w \<and> (case q of Inl e \<Rightarrow> True | Inr ids \<Rightarrow> set ids \<subseteq> active_of now u w)"
    and all_ids_law: "valid w \<Longrightarrow> rs_GetAllActiveOrderIDs (svc_reports SV) now w = (q, w') \<Longrightarrow>
      valid w' \<and> stored w' = stored w"
begin

text \<open>
  The lookups of a list of ids return orders with these ids, each from the table or from the cache, and
  change no stored order.
\<close>

lemma lookup_loop_result:
  assumes "valid w" "filed (cview r)" "lookup_loop SV clock ids (w, r) = (os, w', r')"
  shows "filed (cview r') \<and> valid w' \<and> stored w' = stored w \<and> list_all (\<lambda>o1. ID o1 \<in> set ids \<and>
    (stored w (ID o1) = Some o1 \<or> cview r (KOrder (ID o1)) = Some (VOrder o1))) os"
  using assms
proof (induction ids arbitrary: clock w r os)
  case (Cons i ids)
  obtain q r1 where g: "oc_GetOrder CA i r = (q, r1)" by fastforce
  note gl = cache.get_law [OF g]
  with Cons.prems(2) have f1: "filed (cview r1)" by (blast intro: filed_mono)
  have shrink: "cview r (KOrder j) = Some v" if "cview r1 (KOrder j) = Some v" for j v
    using gl that unfolding map_le_iff by blast
  consider e where "q = Inl e" | o1 where "q = Inr (Some o1)" | "q = Inr None" by (metis obj_sumE option.exhaust)
  then show ?case
  proof cases
    case 1
    with Cons.prems(3) g svc_cache have "lookup_loop SV (clock \<circ> Suc) ids (w, r1) = (os, w', r')" by simp
    from Cons.IH [OF Cons.prems(1) f1 this] shrink show ?thesis by (auto simp: list_all_iff)
  next
    case 2
    with Cons.prems(3) g svc_cache obtain os' where l: "lookup_loop SV (clock \<circ> Suc) ids (w, r1) = (os', w', r')" "os = o1 # os'"
      by (auto split: prod.splits)
    moreover have "cview r (KOrder i) = Some (VOrder o1)" using gl 2 by simp
    moreover from this Cons.prems(2) have "ID o1 = i" by (simp add: filed_def)
    ultimately show ?thesis using Cons.IH [OF Cons.prems(1) f1 l(1)] shrink by (auto simp: list_all_iff)
  next
    case 3
    obtain p w1 where fi: "os_FindOrderByID S i w = (p, w1)" by fastforce
    from find_law [OF Cons.prems(1) fi] have w1: "valid w1" "stored w1 = stored w" by simp_all
    show ?thesis
    proof (cases p)
      case (Inl e)
      with Cons.prems(3) g 3 fi svc_cache svc_orders have "lookup_loop SV (clock \<circ> Suc) ids (w1, r1) = (os, w', r')"
        by (simp add: orderRepository_FindOrderByID_def)
      from Cons.IH [OF w1(1) f1 this] shrink w1 show ?thesis by (auto simp: list_all_iff)
    next
      case (Inr o1)
      with find_law [OF Cons.prems(1) fi] have found: "stored w i = Some o1" by simp
      with stored_id have id: "ID o1 = i" by blast
      obtain e2 r2 where se: "oc_SetOrder CA (clock 0) o1 r1 = (e2, r2)" by fastforce
      from filed_put [OF cache.set_law [OF se] f1] have f2: "filed (cview r2)" .
      from Cons.prems(3) g 3 fi Inr se svc_cache svc_orders obtain os' where
        l: "lookup_loop SV (clock \<circ> Suc) ids (w1, r2) = (os', w', r')" "os = o1 # os'"
        by (auto simp: orderRepository_FindOrderByID_def split: prod.splits)
      have "stored w (ID o2) = Some o2 \<or> cview r (KOrder (ID o2)) = Some (VOrder o2)"
        if "cview r2 (KOrder (ID o2)) = Some (VOrder o2)" for o2
        using put_entry_cases [OF cache.set_law [OF se] that] shrink found id by auto
      with Cons.IH [OF w1(1) f2 l(1)] l(2) found id w1 show ?thesis by (auto simp: list_all_iff)
    qed
  qed
qed simp

text \<open>Answers of the two lists of active orders.\<close>

lemma user_active_result:
  assumes "valid w" "filed (cview r)" "orderService_GetUserActiveOrders SV now clock timed u (w, r) = ((Inr os, ms), w', r')"
  shows "list_all (\<lambda>o1. (stored w (ID o1) = Some o1 \<or> cview r (KOrder (ID o1)) = Some (VOrder o1)) \<and>
      (ID o1 \<in> active_of now u w \<or> ID o1 \<in> cids (cview r (KUser u)))) os \<and>
    stored w' = stored w \<and> valid w' \<and> filed (cview r')"
proof -
  obtain res r1 where g: "oc_GetUserActiveOrders CA u r = (res, r1)" by fastforce
  note gl = cache.user_law [OF g]
  with assms(2) have f1: "filed (cview r1)" by (blast intro: filed_mono)
  show ?thesis
  proof (cases "ids_or_none res = []")
    case False
    with assms(3) g svc_cache have "lookup_loop SV clock (ids_or_none res) (w, r1) = (os, w', r')"
      by (auto simp: orderService_GetUserActiveOrders_def split: prod.splits)
    moreover from False gl have "cids (cview r (KUser u)) = set (ids_or_none res)"
      by (cases res) (auto simp: ids_or_none_def cids_def)
    ultimately show ?thesis using lookup_loop_result [OF assms(1) f1] gl
      unfolding map_le_iff by (fastforce simp: list_all_iff)
  next
    case True
    obtain q w1 where d: "rs_GetUserActiveOrderIDs (svc_reports SV) now u w = (q, w1)" by fastforce
    from user_ids_law [OF assms(1) d] have w1: "valid w1" "stored w1 = stored w" by simp_all
    with True assms(3) g d svc_cache obtain ids e2 r2 where
      q: "q = Inr ids" "oc_UpdateUserActiveOrders CA u ids r1 = (e2, r2)"
      "lookup_loop SV clock ids (w1, r2) = (os, w', r')"
      by (cases q) (auto simp: orderService_GetUserActiveOrders_def reportRepository_GetUserActiveOrderIDs_def
          split: prod.splits)
    have t: "touches {KUser u} (cview r1) (cview r2)" using cache.update_user_law [OF q(2)] by (simp add: wrote_def)
    have "filed (cview r2)" by (rule filed_touches [OF t _ f1]) simp
    from lookup_loop_result [OF w1(1) this q(3)] t gl w1 user_ids_law [OF assms(1) d] q(1) show ?thesis
      unfolding touches_iff map_le_iff by (fastforce simp: list_all_iff)
  qed
qed

lemma user_active_error:
  assumes "valid w" "orderService_GetUserActiveOrders SV now clock timed u (w, r) = ((Inl e, ms), w', r')"
  shows "e = ErrDatabase \<and> stored w' = stored w"
proof -
  obtain res r1 where g: "oc_GetUserActiveOrders CA u r = (res, r1)" by fastforce
  obtain q w1 where d: "rs_GetUserActiveOrderIDs (svc_reports SV) now u w = (q, w1)" by fastforce
  show ?thesis
    using assms(2) g d svc_cache user_ids_law [OF assms(1) d]
    by (cases q) (auto simp: orderService_GetUserActiveOrders_def reportRepository_GetUserActiveOrderIDs_def Let_def
        split: prod.splits if_splits)
qed

text \<open>When the list of a user's orders was empty, an accept writes a list of one.\<close>

lemma accept_job_index:
  assumes "filed (cview r)" "job_read CA now (AfterAccept o1) r = ([], r1)"
    "job_write CA (AfterAccept o1) [] r1 = (None, r2)"
    "oc_GetUserActiveOrders CA (RecipientID o1) r2 = (Inr ids, r3)" "ids \<noteq> []"
  shows "set ids = {ID o1} \<and> filed (cview r2)"
proof -
  have up: "oc_UpdateUserActiveOrders CA (RecipientID o1) [ID o1] r1 = (None, r2)"
    using assms(3) by (simp add: job_write_def)
  have w: "cview r2 \<subseteq>\<^sub>m (cview r1)(KUser (RecipientID o1) \<mapsto> VIds {ID o1})"
    "touches {KUser (RecipientID o1)} (cview r1) (cview r2)"
    using cache.update_user_law [OF up] by (simp_all add: wrote_def ids_entry_def)
  have "cview r2 (KUser (RecipientID o1)) = Some (VIds (set ids))"
    using cache.user_law [OF assms(4)] assms(5) by simp
  with w(1) have "set ids = {ID o1}" unfolding map_le_iff by (metis cval.inject(2) fun_upd_same option.inject)
  moreover have "filed (cview r1)"
  proof -
    obtain e1 ra e2 rb res where j: "oc_SetOrder CA now o1 r = (e1, ra)" "oc_AddToHistory CA (ID o1) ra = (e2, rb)"
      "oc_GetUserActiveOrders CA (RecipientID o1) rb = (res, r1)"
      using assms(2) by (auto simp: job_read_def split: prod.splits)
    have "filed (cview ra)" by (rule filed_put [OF cache.set_law [OF j(1)] assms(1)])
    then have "filed (cview rb)" using cache.add_history_law [OF j(2)] filed_touches [of KHistory "cview ra" "cview rb"] by simp
    then show ?thesis using cache.user_law [OF j(3)] filed_mono by blast
  qed
  ultimately show ?thesis using filed_touches [OF w(2)] by simp
qed

lemma accept_job_hides:
  assumes "valid w" "filed (cview r)" "job_read CA now (AfterAccept o1) r = ([], r1)"
    "job_write CA (AfterAccept o1) [] r1 = (None, r2)"
    "oc_GetUserActiveOrders CA (RecipientID o1) r2 = (Inr ids, r3)" "ids \<noteq> []"
    "orderService_GetUserActiveOrders SV now' clock timed (RecipientID o1) (w, r2) = ((Inr os, ms), w', r')"
  shows "list_all (\<lambda>o2. ID o2 = ID o1) os"
proof -
  from accept_job_index [OF assms(2-6)] have ids: "set ids = {ID o1}" "filed (cview r2)" by simp_all
  then have "filed (cview r3)" using cache.user_law [OF assms(5)] filed_mono by blast
  moreover have "lookup_loop SV clock ids (w, r3) = (os, w', r')"
    using assms(5-7) svc_cache by (auto simp: orderService_GetUserActiveOrders_def ids_or_none_def split: prod.splits)
  ultimately show ?thesis using lookup_loop_result [OF assms(1)] ids(1) by (fastforce simp: list_all_iff)
qed

end

text \<open>The ids of a user's active orders, as the server finds them.\<close>

definition user_active_ids :: "pg_env \<Rightarrow> time \<Rightarrow> string \<Rightarrow> pg \<Rightarrow> string set" where
  "user_active_ids E now u w = order_id ` {r \<in> set (scan_orders E (orders w)). recipient_id r = u \<and> active_row now r}"

lemma user_ids_active:
  assumes "ReportOrderStorage_GetUserActiveOrderIDs E now u w = (Inr ids, w')"
  shows "set ids \<subseteq> user_active_ids E now u w"
proof -
  obtain n where "ids = take n (map order_id (filter (\<lambda>r. recipient_id r = u \<and> active_row now r) (scan_orders E (orders w))))"
    using assms
    by (auto simp: ReportOrderStorage_GetUserActiveOrderIDs_def id_list_def dest!: db_query_prefix split: prod.splits sum.splits)
  then show ?thesis by (auto simp: user_active_ids_def dest!: in_set_takeD)
qed

sublocale redis_server \<subseteq> shop: shop "pg_order_storage E" stored_orders "pg_kept E" orders_ok
    "redis_cache (pg_report_storage E) C" "cached_view view" "NewOrderService E C" "user_active_ids E" for E
proof (unfold_locales, goal_cases)
  case (3 w now u q w')
  then show ?case
    using user_ids_active [of E now u w _ w']
    by (cases q) (auto simp: pg_report_storage_def ReportOrderStorage_GetUserActiveOrderIDs_def dest!: id_list_same
        intro: orders_ok_frame stored_orders_frame)
next
  case (4 w now q w')
  then show ?case
    by (auto simp: pg_report_storage_def ReportOrderStorage_GetAllActiveOrderIDs_def dest!: id_list_same
        intro: orders_ok_frame stored_orders_frame)
qed simp_all

context redis_server
begin

lemma pg_shop: "shop (pg_order_storage E) stored_orders (pg_kept E) orders_ok
    (redis_cache (pg_report_storage E) C) (cached_view view) (NewOrderService E C) (user_active_ids E)"
  by unfold_locales

end

text \<open>The list of one user's orders in the cache of a service over Redis.\<close>

lemma history_limit_zero:
  "fst (reportRepository_GetOrderHistory (pg_report_storage E) 0 t i w) \<in> {Inl ErrDatabase, Inr ([], [])}"
proof -
  obtain q w' where q: "db_query ([] :: order_row list) w = (q, w')" by fastforce
  show ?thesis
  proof (cases q)
    case (Inr x)
    obtain rs e where x: "x = (rs, e)" by fastforce
    with q Inr db_query_prefix [of "[] :: order_row list" w rs e w'] have "rs = []" by simp
    with q Inr x show ?thesis
      by (simp add: reportRepository_GetOrderHistory_def pg_report_storage_def ReportOrderStorage_GetOrderHistory_def
          limit_query_def scanOrders_def)
  qed (use q in \<open>simp add: reportRepository_GetOrderHistory_def pg_report_storage_def
      ReportOrderStorage_GetOrderHistory_def limit_query_def\<close>)
qed

lemma lookup_loop_outage:
  assumes "\<And>i r. \<exists>e. fst (oc_GetOrder (svc_cache SV) i r) = Inl e"
  shows "fst (lookup_loop SV clock ids s) = []"
proof (induction ids arbitrary: clock s)
  case (Cons i ids)
  obtain w r where s: "s = (w, r)" by fastforce
  obtain e r1 where "oc_GetOrder (svc_cache SV) i r = (Inl e, r1)" using assms [of i r] by (metis prod.collapse)
  with Cons s show ?case by simp
qed simp

section \<open>A sample\<close>

lemma sample_active_run:
  "\<exists>os ms w' r'. orderService_GetUserActiveOrders (NewOrderService sample_env mem_client) 5000 (\<lambda>_. 5000) (5000, 5001) ''u''
     (sample_shop, Map.empty) = ((Inr os, ms), w', r') \<and> map ID os = [''b'', ''a'']"
proof -
  let ?a = "row_order (sample_row 1 ''a'' ''u'')" and ?b = "row_order (sample_row 2 ''b'' ''u'')"
  obtain ja jb where j: "marshal_order ?a = Some ja" "marshal_order ?b = Some jb"
    by (simp add: marshal_order_def marshal_object_def sample_row_def new_row_def sample_order_def row_order_def sample_env_def
        marshal_time_def json_min_time_def json_max_time_def)
  let ?r1 = "[userActiveKeyPrefix @ ''u'' \<mapsto> DSet {''b'', ''a''}]"
  have keys: "userActiveKeyPrefix @ ''u'' \<noteq> orderKeyPrefix @ i" for i
    by (simp add: userActiveKeyPrefix_def orderKeyPrefix_def)
  have ids: "rs_GetUserActiveOrderIDs (pg_report_storage sample_env) 5000 ''u'' sample_shop = (Inr [''b'', ''a''], sample_shop)"
    by (simp add: pg_report_storage_def ReportOrderStorage_GetUserActiveOrderIDs_def id_list_def pg_simps sample_shop_def sample_db_def
        active_row_def) (simp add: sample_env_def)
  have up: "RedisCache_UpdateUserActiveOrders mem_client ''u'' [''b'', ''a''] Map.empty = (None, ?r1)"
    by (simp add: RedisCache_UpdateUserActiveOrders_def replace_set_def mem_client_def mem_reply_def first_error_def
        map_filter_simps members_def)
  have miss: "RedisCache_GetOrder mem_client i r = (Inr None, r)" if "r (orderKeyPrefix @ i) = None" for i r
    using that by (simp add: RedisCache_GetOrder_def mem_client_def mem_get_def)
  have set: "RedisCache_SetOrder mem_client 5000 ?a r = (None, r(orderKeyPrefix @ ''a'' \<mapsto> DStr ja))"
    "RedisCache_SetOrder mem_client 5000 ?b r = (None, r(orderKeyPrefix @ ''b'' \<mapsto> DStr jb))" for r
    by (simp_all add: RedisCache_SetOrder_def j mem_client_def)
  have none: "RedisCache_GetUserActiveOrders mem_client ''u'' Map.empty = (Inr [], Map.empty)"
    by (simp add: RedisCache_GetUserActiveOrders_def mem_client_def members_def)
  show ?thesis
    using keys
    by (simp add: orderService_GetUserActiveOrders_def reportRepository_GetUserActiveOrderIDs_def ids redis_cache_def up none
        miss set ids_or_none_def orderRepository_FindOrderByID_def pg_order_storage_def FindOrderByID_calm Let_def orderKeyPrefix_def)
qed

section \<open>Properties\<close>

text \<open>
  (C34) Returning an order through the service while other requests run: it takes three transactions, and anything
  may happen between them. Under every pattern of server failures: success means that the order was in
  storage past its time at the second lookup and is gone now, whatever has happened to it since that lookup,
  and exactly one job for the cache is started; an error starts none. The service panics only if the order was there
  at the first lookup and another request has removed it before the second one, and without failures exactly
  then; alone it never panics, as \<open>f\<close> is then the identity.
\<close>

theorem service_ReturnOrder:
  assumes "orders_ok w" "\<forall>v. orders_ok v \<longrightarrow> orders_ok (f v)" "\<forall>v. orders_ok v \<longrightarrow> orders_ok (g v)"
    and "w1 = snd (OrderStorage_FindOrderByID i w)" "w2 = snd (OrderStorage_FindOrderByID i (f w1))"
  shows "(case orderService_ReturnOrder (interrupted_service E C) now i ((w, [id, f, g]), r) of (res, (w', fs), r') \<Rightarrow>
      orders_ok w' \<and> r' = r \<and>
      (case res of
         Panic \<Rightarrow> stored_orders w i \<noteq> None \<and> stored_orders (f w1) i = None \<and> stored_orders w' = stored_orders (f w1)
       | Ret (None, jobs) \<Rightarrow> stored_orders w' = (stored_orders (g w2))(i := None) \<and>
           (\<exists>o1 o2. stored_orders w i = Some o1 \<and> stored_orders (f w1) i = Some o2 \<and> Status o2 = StatusStored \<and> Expiry o2 \<le> now \<and>
              jobs = [AfterReturn i o1])
       | Ret (Some e, jobs) \<Rightarrow> stored_orders w' \<in> {stored_orders w, stored_orders (f w1), stored_orders (g w2)} \<and> jobs = []) \<and>
      (script w = [] \<and> script (f w) = [] \<longrightarrow>
         (res = Panic \<longleftrightarrow> stored_orders w i \<noteq> None \<and> stored_orders (f w) i = None)))"
proof -
  obtain res w' fs r' where run: "orderService_ReturnOrder (interrupted_service E C) now i ((w, [id, f, g]), r) = (res, (w', fs), r')"
    by (metis prod.exhaust)
  have sv: "svc_orders (interrupted_service E C) = interrupted_orders (pg_order_storage E)" by (simp add: interrupted_service_def)
  have find: "os_FindOrderByID (pg_order_storage E) = OrderStorage_FindOrderByID" by (simp add: pg_order_storage_def fun_eq_iff)
  note table = pg_orders.service_return [where E = E and f = f and g = g and w = w and i = i, OF assms(1-3) sv, unfolded find, OF assms(4,5) run]
  have "res = Panic" if "script w = []" "script (f w) = []" "stored_orders w i \<noteq> None" "stored_orders (f w) i = None"
    using run that
    by (auto simp: orderService_ReturnOrder_def orderRepository_FindOrderByID_def orderRepository_ReturnOrder_def sv
        interrupted_orders_def pg_order_storage_def FindOrderByID_calm errors_Is_flat)
  moreover have "w1 = w" if "script w = []" using assms(4) that by (simp add: FindOrderByID_calm)
  ultimately have "script w = [] \<and> script (f w) = [] \<longrightarrow>
      (res = Panic \<longleftrightarrow> stored_orders w i \<noteq> None \<and> stored_orders (f w) i = None)"
    using table by (cases res) (blast | simp)+
  with table run show ?thesis by simp
qed

theorem service_ReturnOrder_witness:
  "fst (orderService_ReturnOrder (interrupted_service sample_env mem_client) 1000000 ''a''
     ((sample_shop, [id, \<lambda>v. snd (OrderStorage_DeleteOrder ''a'' v), id]), Map.empty)) = Panic"
proof -
  let ?f = "\<lambda>v. snd (OrderStorage_DeleteOrder ''a'' v)"
  have "orders_ok (?f v)" if "orders_ok v" for v
    using pg_orders.delete_law [OF that, of sample_env "''a''"]
    by (cases "OrderStorage_DeleteOrder ''a'' v") (simp add: pg_order_storage_def)
  then have keeps: "\<forall>v. orders_ok v \<longrightarrow> orders_ok (?f v)" by blast
  have gone: "script (?f sample_shop) = []" "stored_orders (?f sample_shop) ''a'' = None"
    by (simp_all add: OrderStorage_DeleteOrder_def delete_order_def pg_simps sample_shop_def sample_db_def stored_orders_def)
  have "orders_ok sample_shop" "script sample_shop = []" "stored_orders sample_shop ''a'' \<noteq> None"
    by simp_all
  with service_ReturnOrder [where w = sample_shop and f = ?f and g = id and E = sample_env and C = mem_client
      and now = 1000000 and i = "''a''" and r = Map.empty, OF _ keeps _ refl refl] gone
  show ?thesis by (simp split: prod.splits)
qed

text \<open>
  (C35) The list of a user's active orders: each order it returns is the one the table holds under its id, or the
  one the cache holds under it, and this id is one of an active order of this user in the table or is in the
  list of the user that the cache holds, whatever fails in Redis or in the database; the call does not change the
  table. (No other request runs between its calls here.)
  So if the cache has neither a list of the user nor orders, every order returned is an active order of the
  user as it is in the table.
\<close>

theorem GetUserActiveOrders_sources:
  assumes "pg_env_ok E" "redis_server C view" "orders_ok w" "filed (cached_view view r)"
    and "active = {row \<in> set (orders w). recipient_id row = u \<and> active_row now row}"
  shows "(case orderService_GetUserActiveOrders (NewOrderService E C) now clock timed u (w, r) of
      ((Inl e, ms), w', r') \<Rightarrow> e = ErrDatabase \<and> stored_orders w' = stored_orders w
    | ((Inr os, ms), w', r') \<Rightarrow> stored_orders w' = stored_orders w \<and> filed (cached_view view r') \<and>
        list_all (\<lambda>o1. (stored_orders w (ID o1) = Some o1 \<or> cached_view view r (KOrder (ID o1)) = Some (VOrder o1)) \<and>
          (ID o1 \<in> order_id ` active \<or> ID o1 \<in> cids (cached_view view r (KUser u)))) os \<and>
        (cached_view view r (KUser u) = None \<and> (\<forall>i. cached_view view r (KOrder i) = None) \<longrightarrow> set os \<subseteq> row_order ` active))"
proof -
  have "set (scan_orders E (orders w)) = set (orders w)" using assms(1) by (metis pg_env_ok_def mset_eq_setD)
  then have ids: "user_active_ids E now u w = order_id ` active" by (simp add: user_active_ids_def assms(5))
  have "o1 \<in> row_order ` active" if "stored_orders w (ID o1) = Some o1" "ID o1 \<in> order_id ` active" for o1
  proof -
    from that(2) obtain row where row: "row \<in> active" "order_id row = ID o1" by auto
    then have "row \<in> set (orders w)" by (simp add: assms(5))
    from stored_orders_rows [OF assms(3) this] row that(1) show ?thesis by auto
  qed
  note whole = this
  obtain res ms w' r' where run: "orderService_GetUserActiveOrders (NewOrderService E C) now clock timed u (w, r) = ((res, ms), w', r')"
    by (metis prod.exhaust)
  show ?thesis
  proof (cases res)
    case (Inl e)
    with run shop.user_active_error [OF redis_server.pg_shop [OF assms(2)] assms(3)] show ?thesis by auto
  next
    case (Inr os)
    note found = shop.user_active_result [OF redis_server.pg_shop [OF assms(2)] assms(3,4) run [unfolded Inr], unfolded ids]
    have "set os \<subseteq> row_order ` active" if "cached_view view r (KUser u) = None" "\<forall>i. cached_view view r (KOrder i) = None"
    proof
      fix o1
      assume "o1 \<in> set os"
      with found that have "stored_orders w (ID o1) = Some o1" "ID o1 \<in> order_id ` active" by (auto simp: list_all_iff cids_def)
      then show "o1 \<in> row_order ` active" by (rule whole)
    qed
    with found run Inr show ?thesis by simp
  qed
qed

theorem GetUserActiveOrders_sources_witness:
  "\<exists>os ms w' r'. orderService_GetUserActiveOrders (NewOrderService sample_env mem_client) 5000 (\<lambda>_. 5000) (5000, 5001) ''u''
       (sample_shop, Map.empty) = ((Inr os, ms), w', r') \<and> map ID os = [''b'', ''a''] \<and>
     set os \<subseteq> row_order ` {row \<in> set (orders sample_shop). recipient_id row = ''u'' \<and> active_row 5000 row}"
proof -
  obtain os ms w' r' where run: "orderService_GetUserActiveOrders (NewOrderService sample_env mem_client) 5000 (\<lambda>_. 5000) (5000, 5001) ''u''
       (sample_shop, Map.empty) = ((Inr os, ms), w', r')" "map ID os = [''b'', ''a'']"
    using sample_active_run by (elim exE conjE)
  have "filed (cached_view (\<lambda>m. m) Map.empty)" by (simp add: filed_def cached_view_def)
  from GetUserActiveOrders_sources [OF sample_env_ok memory.redis_server_axioms _ this refl, of sample_shop, where u = "''u''"
      and now = 5000 and clock = "\<lambda>_. 5000" and timed = "(5000, 5001)"] run show ?thesis
    by (auto simp: cached_view_def)
qed

text \<open>
  (C36) When every lookup of an order in Redis fails, the list of active orders comes back empty and without an
  error, whatever the table holds: the loop skips an order whose lookup fails instead of reading it from
  the database.
\<close>

theorem cache_outage_hides_orders:
  assumes "\<And>k r. \<exists>e. fst (rc_Get C k r) = Inl e \<and> e \<noteq> redis_Nil"
  shows "(case fst (fst (orderService_GetUserActiveOrders (NewOrderService E C) now clock timed u s)) of
      Inl e \<Rightarrow> e = ErrDatabase | Inr os \<Rightarrow> os = [])"
proof -
  have out: "\<exists>e. fst (oc_GetOrder (svc_cache (NewOrderService E C)) i r) = Inl e" for i r
  proof -
    obtain e r1 where "rc_Get C (orderKeyPrefix @ i) r = (Inl e, r1)" "e \<noteq> redis_Nil"
      using assms [of "orderKeyPrefix @ i" r] by (metis prod.collapse)
    then show ?thesis by (simp add: redis_cache_def RedisCache_GetOrder_def)
  qed
  have none_found: "fst (lookup_loop (NewOrderService E C) clock ids t) = []" for clock ids t
    by (rule lookup_loop_outage) (rule out)
  obtain w r where s: "s = (w, r)" by fastforce
  have look: "(case lookup_loop (NewOrderService E C) clock ids t of (os, s') \<Rightarrow> ((Inr os, ms), s')) =
      ((Inr [], ms), snd (lookup_loop (NewOrderService E C) clock ids t))" for ids t and ms :: "metric_call list"
    by (simp add: split_beta none_found)
  show ?thesis
    by (auto simp: orderService_GetUserActiveOrders_def s look Let_def reportRepository_GetUserActiveOrderIDs_def
        as_database_error_def split: prod.splits sum.splits)
qed

theorem cache_outage_hides_orders_witness:
  "(case fst (fst (orderService_GetUserActiveOrders
      (NewOrderService sample_env (mem_client\<lparr>rc_Get := \<lambda>k r. (Inl (ErrDriver ''connection refused''), r)\<rparr>))
      5000 (\<lambda>_. 5000) (5000, 5001) ''u'' (sample_shop, Map.empty))) of Inl e \<Rightarrow> e = ErrDatabase | Inr os \<Rightarrow> os = []) \<and>
   active_row 5000 (sample_row 1 ''a'' ''u'')"
  using cache_outage_hides_orders [of "mem_client\<lparr>rc_Get := \<lambda>k r. (Inl (ErrDriver ''connection refused''), r)\<rparr>"
      sample_env 5000 "\<lambda>_. 5000" "(5000, 5001)" "''u''" "(sample_shop, Map.empty)"]
  by (simp add: redis_Nil_def active_row_def)

text \<open>
  (C37) Accepting an order for a user whose list of active orders is not in the cache (it has expired, or was
  never built) makes the service hide all other active orders of that user: the job writes a list with
  the new order alone, and from then on, as long as that list is served, only the new order is returned.
\<close>

theorem accept_hides_older_orders:
  assumes "redis_server C view" "orders_ok w" "filed (cached_view view r)"
    and "CA = svc_cache (NewOrderService E C)"
    and "job_read CA t1 (AfterAccept o1) r = ([], r1)" "job_write CA (AfterAccept o1) [] r1 = (None, r2)"
    and "oc_GetUserActiveOrders CA (RecipientID o1) r2 = (Inr (i # ids), r3)"
  shows "(case fst (fst (orderService_GetUserActiveOrders (NewOrderService E C) now clock timed (RecipientID o1) (w, r2))) of
      Inl e \<Rightarrow> e = ErrDatabase | Inr os \<Rightarrow> list_all (\<lambda>o2. ID o2 = ID o1) os)"
proof -
  obtain res ms w' r' where run: "orderService_GetUserActiveOrders (NewOrderService E C) now clock timed (RecipientID o1) (w, r2) =
      ((res, ms), w', r')"
    by (metis prod.exhaust)
  note sh = redis_server.pg_shop [OF assms(1)]
  show ?thesis
  proof (cases res)
    case (Inl e)
    with shop.user_active_error [OF sh assms(2) run [unfolded Inl]] run show ?thesis by simp
  next
    case (Inr os)
    with shop.accept_job_hides [OF sh assms(2,3) assms(5-7) [unfolded assms(4) NewOrderService_simps] _ run [unfolded Inr]]
      run show ?thesis by simp
  qed
qed

theorem accept_hides_older_orders_witness:
  "\<exists>r2. snd (run_job (svc_cache (NewOrderService sample_env mem_client)) 4000 (AfterAccept (sample_order ''b'' ''u'')) Map.empty) = r2 \<and>
     (case fst (fst (orderService_GetUserActiveOrders (NewOrderService sample_env mem_client) 5000 (\<lambda>_. 5000) (5000, 5001) ''u''
        (sample_shop, r2))) of
        Inl e \<Rightarrow> e = ErrDatabase | Inr os \<Rightarrow> list_all (\<lambda>o2. ID o2 = ''b'') os) \<and>
     active_row 5000 (sample_row 1 ''a'' ''u'')"
proof -
  let ?CA = "svc_cache (NewOrderService sample_env mem_client)"
  let ?o = "sample_order ''b'' ''u''"
  obtain j where j: "marshal_order ?o = Some j"
    by (simp add: marshal_order_def marshal_object_def sample_order_def marshal_time_def json_min_time_def json_max_time_def)
  let ?r1 = "[orderKeyPrefix @ ''b'' \<mapsto> DStr j, historyKey \<mapsto> DSet {''b''}]"
  let ?r2 = "?r1(userActiveKeyPrefix @ ''u'' \<mapsto> DSet {''b''})"
  have keys: "userActiveKeyPrefix @ ''u'' \<noteq> orderKeyPrefix @ ''b''" "userActiveKeyPrefix @ ''u'' \<noteq> historyKey"
    "historyKey \<noteq> orderKeyPrefix @ ''b''"
    by (simp_all add: userActiveKeyPrefix_def orderKeyPrefix_def historyKey_def)
  have fields: "ID ?o = ''b''" "RecipientID ?o = ''u''" by (simp_all add: sample_order_fields)
  have rd: "job_read ?CA 4000 (AfterAccept ?o) Map.empty = ([], ?r1)"
    using keys by (simp add: job_read_def redis_cache_def RedisCache_SetOrder_def j fields mem_client_def
        RedisCache_AddToHistory_def RedisCache_GetUserActiveOrders_def members_def ids_or_none_def)
  have wr: "job_write ?CA (AfterAccept ?o) [] ?r1 = (None, ?r2)"
    by (simp add: job_write_def redis_cache_def RedisCache_UpdateUserActiveOrders_def replace_set_def mem_client_def fields
        mem_reply_def first_error_def map_filter_simps members_def)
  have us: "oc_GetUserActiveOrders ?CA (RecipientID ?o) ?r2 = (Inr [''b''], ?r2)"
    by (simp add: redis_cache_def RedisCache_GetUserActiveOrders_def mem_client_def fields members_def)
  have "filed (cached_view (\<lambda>m. m) Map.empty)" by (simp add: filed_def cached_view_def)
  from accept_hides_older_orders [OF memory.redis_server_axioms _ this refl rd wr us, where w = sample_shop and now = 5000
      and clock = "\<lambda>_. 5000" and timed = "(5000, 5001)"] rd wr fields show ?thesis
    by (intro exI [of _ ?r2]) (auto simp: run_job_def active_row_def fields list_all_iff split: sum.splits
        simp del: NewOrderService_simps)
qed

text \<open>
  (C38) The second version of the history only ever returns orders from the cache: where the cache has none, the
  service asks the database for a page of limit zero, so that the answer is empty, whatever the table holds.
\<close>

theorem history_v2_only_cached:
  assumes "redis_server C view" "\<And>m. mset (iter m) = mset m"
  shows "(case fst (orderService_GetOrderHistoryV2 (NewOrderService E C) iter (w, r)) of
      Inl e \<Rightarrow> e = ErrDatabase
    | Inr os \<Rightarrow> list_all (\<lambda>o1. \<exists>i. cached_view view r (KOrder i) = Some (VOrder o1)) os)"
proof -
  let ?CA = "redis_cache (pg_report_storage E) C"
  note laws = redis_server.keeps_contract [OF assms(1), of "pg_report_storage E"]
  obtain res r1 where h: "oc_GetHistoryOrderIDs ?CA r = (res, r1)" by fastforce
  obtain b r2 where b: "oc_GetOrdersBatch ?CA (ids_or_none res) r1 = (b, r2)" by fastforce
  let ?m = "case b of Inl e \<Rightarrow> [] | Inr m \<Rightarrow> m"
  have "cached_view view r1 \<subseteq>\<^sub>m cached_view view r" using cache_laws.history_law [OF laws h] by simp
  moreover have "(i, o1) \<in> set ?m \<Longrightarrow> cached_view view r1 (KOrder i) = Some (VOrder o1)" for i o1
    using cache_laws.batch_law [OF laws b] by (auto split: sum.splits)
  moreover have "set (iter ?m) = set ?m" using assms(2) mset_eq_setD by blast
  ultimately have cached: "list_all (\<lambda>o1. \<exists>i. cached_view view r (KOrder i) = Some (VOrder o1)) (map snd (iter ?m))"
    unfolding map_le_iff by (fastforce simp: list_all_iff)
  obtain q w' where d: "reportRepository_GetOrderHistory (pg_report_storage E) 0 0 0 w = (q, w')" by fastforce
  with history_limit_zero [of E 0 0 w] have "q \<in> {Inl ErrDatabase, Inr ([], [])}" by simp
  then show ?thesis
    using h b d cached by (auto simp: orderService_GetOrderHistoryV2_def Let_def)
qed

theorem history_v2_only_cached_witness:
  "(case fst (orderService_GetOrderHistoryV2 (NewOrderService sample_env mem_client) rev (sample_shop, Map.empty)) of
      Inl e \<Rightarrow> e = ErrDatabase | Inr os \<Rightarrow> os = []) \<and> orders sample_shop \<noteq> []"
  using history_v2_only_cached [OF memory.redis_server_axioms, where iter = rev and E = sample_env and w = sample_shop and r = Map.empty]
  by (auto simp: cached_view_def list_all_iff split: sum.splits)

end
