(* ===== verification/Auth.thy ===== *)
theory Auth
  imports Order_Storage
begin

text \<open>
  Users: \<^verbatim>\<open>internal/storage/postgres/authstorage\<close>, \<^verbatim>\<open>internal/repository/authrepo\<close>
  and \<^verbatim>\<open>internal/service/auth_service.go\<close>. The hashing of passwords
  (\<^verbatim>\<open>golang.org/x/crypto/bcrypt\<close>) and the signing of tokens
  (\<^verbatim>\<open>github.com/golang-jwt/jwt\<close>) are libraries: they are arguments of the definitions that call
  them. The contract of the storage of users is the locale \<open>user_store\<close>.
\<close>

section \<open>Interfaces and libraries\<close>

record 'w auth_storage =
  as_CreateUser :: "user \<Rightarrow> 'w \<Rightarrow> goerror option \<times> 'w"
  as_GetUserByEmail :: "string \<Rightarrow> 'w \<Rightarrow> (goerror + user) \<times> 'w"

text \<open>
  \<^verbatim>\<open>GenerateFromPassword\<close> draws a salt, which is an argument here, and
  \<^verbatim>\<open>CompareHashAndPassword\<close> returns nil exactly if the password is the one that was hashed.
  What the program relies on is that a hash it made matches its password and has 60 characters.
\<close>

record bcrypt =
  GenerateFromPassword :: "nat \<Rightarrow> string \<Rightarrow> goerror + string"
  CompareHashAndPassword :: "string \<Rightarrow> string \<Rightarrow> goerror option"

definition bcrypt_ok :: "bcrypt \<Rightarrow> bool" where
  "bcrypt_ok B \<longleftrightarrow> (\<forall>salt pw h. GenerateFromPassword B salt pw = Inr h \<longrightarrow>
     CompareHashAndPassword B h pw = None \<and> char_length h = 60)"

section \<open>The storage\<close>

text \<open>\<^verbatim>\<open>email VARCHAR(255) UNIQUE\<close>, \<^verbatim>\<open>password VARCHAR(255)\<close>.\<close>

definition AuthStorage_CreateUser :: "user \<Rightarrow> pg \<Rightarrow> goerror option \<times> pg" where
  "AuthStorage_CreateUser u w = (case db_call w of
      (Some e, w') \<Rightarrow> (Some e, w')
    | (None, w') \<Rightarrow>
        (if char_length (Email u) > 255 \<or> char_length (Password u) > 255 then (Some too_long, w')
         else if Email u \<in> fst ` set (users w')
         then (Some (ErrDriver ''duplicate key value violates unique constraint''), w')
         else (None, w'\<lparr>users := users w' @ [(Email u, Password u)]\<rparr>)))"

definition AuthStorage_GetUserByEmail :: "string \<Rightarrow> pg \<Rightarrow> (goerror + user) \<times> pg" where
  "AuthStorage_GetUserByEmail email w =
     (case query_row (filter (\<lambda>(m, p). m = email) (users w)) w of
        (Inl e, w') \<Rightarrow> (if e = ErrNoRows then (Inl ErrInvalidCredentials, w') else (Inl e, w'))
      | (Inr (m, p), w') \<Rightarrow> (Inr \<lparr>Email = m, Password = p\<rparr>, w'))"

definition pg_auth_storage :: "pg auth_storage" where
  "pg_auth_storage = \<lparr>as_CreateUser = AuthStorage_CreateUser,
     as_GetUserByEmail = AuthStorage_GetUserByEmail\<rparr>"

section \<open>The repository\<close>

definition hashPassword :: "bcrypt \<Rightarrow> nat \<Rightarrow> string \<Rightarrow> string \<times> goerror option" where
  "hashPassword B salt password =
     (case GenerateFromPassword B salt password of Inl e \<Rightarrow> ([], Some e) | Inr bytes \<Rightarrow> (bytes, None))"

definition compareHashAndPassword :: "bcrypt \<Rightarrow> string \<Rightarrow> string \<Rightarrow> bool" where
  "compareHashAndPassword B password hash = (CompareHashAndPassword B hash password = None)"

text \<open>The caller's user is changed through the pointer: it is returned with the error.\<close>

definition AuthRepository_Register ::
    "bcrypt \<Rightarrow> 'w auth_storage \<Rightarrow> nat \<Rightarrow> user \<Rightarrow> 'w \<Rightarrow> (goerror option \<times> user) \<times> 'w" where
  "AuthRepository_Register B S salt user w =
     (if Password user = [] then ((Some ErrEmptyPassword, user), w)
      else case as_GetUserByEmail S (Email user) w of
        (Inr existing, w1) \<Rightarrow> ((Some ErrUserAlreadyExists, user), w1)
      | (Inl e, w1) \<Rightarrow>
          (if \<not> errors_Is e ErrInvalidCredentials then ((Some ErrDatabase, user), w1)
           else case hashPassword B salt (Password user) of
             (hash, Some e2) \<Rightarrow> ((Some ErrHashPassword, user\<lparr>Password := hash\<rparr>), w1)
           | (hash, None) \<Rightarrow>
               (case as_CreateUser S (user\<lparr>Password := hash\<rparr>) w1 of
                  (Some e3, w2) \<Rightarrow> ((Some ErrDatabase, user\<lparr>Password := hash\<rparr>), w2)
                | (None, w2) \<Rightarrow> ((None, user\<lparr>Password := hash\<rparr>), w2))))"

text \<open>An unknown address leaves \<^verbatim>\<open>user\<close> nil, and reading its password panics.\<close>

definition AuthRepository_Login ::
    "bcrypt \<Rightarrow> 'w auth_storage \<Rightarrow> string \<Rightarrow> string \<Rightarrow> 'w \<Rightarrow> goerror option go \<times> 'w" where
  "AuthRepository_Login B S email password w =
     (case as_GetUserByEmail S email w of
        (Inl e, w') \<Rightarrow>
          (if \<not> errors_Is e ErrInvalidCredentials then (Ret (Some ErrDatabase), w') else (Panic, w'))
      | (Inr user, w') \<Rightarrow>
          (if \<not> compareHashAndPassword B password (Password user)
           then (Ret (Some ErrInvalidCredentials), w')
           else (Ret None, w')))"

section \<open>The service\<close>

definition authService_Register ::
    "bcrypt \<Rightarrow> 'w auth_storage \<Rightarrow> nat \<Rightarrow> user \<Rightarrow> 'w \<Rightarrow> (goerror option \<times> user) \<times> 'w" where
  "authService_Register B S salt user w = AuthRepository_Register B S salt user w"

definition authService_Login ::
    "bcrypt \<Rightarrow> 'w auth_storage \<Rightarrow> user \<Rightarrow> 'w \<Rightarrow> goerror option go \<times> 'w" where
  "authService_Login B S user w = AuthRepository_Login B S (Email user) (Password user) w"

text \<open>The seconds since 1970 of a time.\<close>

definition time_Unix :: "time \<Rightarrow> int" where
  "time_Unix t = t div second - 62135596800"

text \<open>\<open>sign\<close> is \<^verbatim>\<open>SignedString\<close> of a token with the given claims under HS256.\<close>

definition authService_GenerateToken ::
    "((string \<times> json) list \<Rightarrow> string \<Rightarrow> goerror + string) \<Rightarrow> time \<Rightarrow> string \<Rightarrow> goerror + string" where
  "authService_GenerateToken sign now email =
     sign [(''email'', JString email),
           (''exp'', JNumber (of_int (time_Unix (now + TokenExpiration))))] JwtSecret"

section \<open>The contract of the storage\<close>

locale user_store =
  fixes S :: "'w auth_storage"
    and known :: "'w \<Rightarrow> string \<Rightarrow> string option"
    and valid :: "'w \<Rightarrow> bool"
  assumes get_law: "valid w \<Longrightarrow> as_GetUserByEmail S m w = (r, w') \<Longrightarrow>
      valid w' \<and> known w' = known w \<and>
      (case r of Inr u \<Rightarrow> known w m = Some (Password u)
       | Inl e \<Rightarrow> errors_Is e ErrInvalidCredentials \<longrightarrow> known w m = None)"
    and create_law: "valid w \<Longrightarrow> as_CreateUser S u w = (q, w') \<Longrightarrow>
      valid w' \<and>
      (case q of None \<Rightarrow> known w (Email u) = None \<and> known w' = (known w)(Email u \<mapsto> Password u)
       | Some e \<Rightarrow> known w' = known w)"
begin

lemma register_success:
  assumes "valid w" "AuthRepository_Register B S salt u w = ((None, u'), w')"
  shows "Password u \<noteq> [] \<and> known w (Email u) = None \<and> valid w' \<and>
    GenerateFromPassword B salt (Password u) = Inr (Password u') \<and> Email u' = Email u \<and>
    known w' = (known w)(Email u \<mapsto> Password u')"
proof -
  from assms(2) obtain e w1 h where a: "Password u \<noteq> []" "as_GetUserByEmail S (Email u) w = (Inl e, w1)"
    "GenerateFromPassword B salt (Password u) = Inr h" "as_CreateUser S (u\<lparr>Password := h\<rparr>) w1 = (None, w')"
    "u' = u\<lparr>Password := h\<rparr>"
    by (auto simp: AuthRepository_Register_def hashPassword_def
        split: if_splits prod.splits sum.splits option.splits)
  from get_law [OF assms(1) a(2)] have w1: "valid w1" "known w1 = known w" by simp_all
  from create_law [OF w1(1) a(4)] w1 a show ?thesis by auto
qed

lemma register_error:
  assumes "valid w" "AuthRepository_Register B S salt u w = ((Some e, u'), w')"
  shows "known w' = known w \<and> valid w'"
proof (cases "Password u = []")
  case True
  with assms show ?thesis by (simp add: AuthRepository_Register_def)
next
  case False
  obtain r w1 where g: "as_GetUserByEmail S (Email u) w = (r, w1)" by fastforce
  from get_law [OF assms(1) g] have w1: "valid w1" "known w1 = known w" by simp_all
  consider "w' = w1" | u2 e3 where "as_CreateUser S u2 w1 = (Some e3, w')"
    using assms(2) False g
    by (auto simp: AuthRepository_Register_def split: if_splits prod.splits sum.splits option.splits)
  then show ?thesis
    using w1 create_law [OF w1(1)] by cases fastforce+
qed

lemma login_known:
  assumes "valid w" "AuthRepository_Login B S m pw w = (r, w')"
  shows "known w' = known w \<and> valid w' \<and>
    (case r of
       Panic \<Rightarrow> known w m = None
     | Ret None \<Rightarrow> \<exists>h. known w m = Some h \<and> CompareHashAndPassword B h pw = None
     | Ret (Some e) \<Rightarrow> e = ErrDatabase \<or>
         e = ErrInvalidCredentials \<and> (\<exists>h. known w m = Some h \<and> CompareHashAndPassword B h pw \<noteq> None))"
proof -
  obtain q w1 where g: "as_GetUserByEmail S m w = (q, w1)" by fastforce
  with get_law [OF assms(1) g] assms(2) show ?thesis
    by (cases q) (auto simp: AuthRepository_Login_def compareHashAndPassword_def split: if_splits)
qed

end

section \<open>The PostgreSQL storage keeps it\<close>

definition known_users :: "pg \<Rightarrow> string \<Rightarrow> string option" where
  "known_users w = map_of (users w)"

definition users_ok :: "pg \<Rightarrow> bool" where
  "users_ok w \<longleftrightarrow> distinct (map fst (users w))"

lemma filter_key: "filter (\<lambda>(m, p). m = k) kvs = [] \<longleftrightarrow> map_of kvs k = None"
  by (induction kvs) auto

lemma filter_key_hd: "filter (\<lambda>(m, p). m = k) kvs = (m', p') # rest \<Longrightarrow> m' = k \<and> map_of kvs k = Some p'"
  by (induction kvs) (auto split: if_splits)

lemma GetUserByEmail_result:
  assumes "AuthStorage_GetUserByEmail m w = (r, w')"
  shows "same_tables w w' \<and>
    (r = (case known_users w m of None \<Rightarrow> Inl ErrInvalidCredentials | Some p \<Rightarrow> Inr \<lparr>Email = m, Password = p\<rparr>) \<or>
     (\<exists>s. r = Inl (ErrDriver s)))"
proof -
  obtain q where q: "query_row (filter (\<lambda>(x, p). x = m) (users w)) w = (q, w')"
    using assms by (auto simp: AuthStorage_GetUserByEmail_def split: prod.splits sum.splits if_splits)
  have "(q = Inl ErrNoRows \<and> map_of (users w) m = None) \<or> (\<exists>p. q = Inr (m, p) \<and> map_of (users w) m = Some p) \<or>
    (\<exists>s. q = Inl (ErrDriver s))"
  proof (cases "db_call w")
    case (Pair c w1)
    show ?thesis
    proof (cases c)
      case (Some e)
      with q Pair db_call_driver [of w e w1] show ?thesis by (auto simp: query_row_def)
    next
      case None
      show ?thesis
      proof (cases "filter (\<lambda>(x, p). x = m) (users w)")
        case Nil
        with q Pair None filter_key [of m "users w"] show ?thesis by (simp add: query_row_def)
      next
        case (Cons x rest)
        obtain m' p' where x: "x = (m', p')" by fastforce
        with Cons filter_key_hd [of m "users w" m' p' rest] q Pair None show ?thesis by (simp add: query_row_def)
      qed
    qed
  qed
  with assms q query_row_same [OF q] show ?thesis
    by (auto simp: AuthStorage_GetUserByEmail_def known_users_def)
qed

lemma CreateUser_result:
  assumes "AuthStorage_CreateUser u w = (q, w')"
  shows "orders w' = orders w \<and> packaging_types w' = packaging_types w \<and> audit_tasks w' = audit_tasks w \<and>
    (case q of None \<Rightarrow> Email u \<notin> fst ` set (users w) \<and> users w' = users w @ [(Email u, Password u)]
     | Some e \<Rightarrow> users w' = users w)"
  using assms db_call_frame [of w]
  by (auto simp: AuthStorage_CreateUser_def split: prod.splits option.splits if_splits)

lemma map_of_snoc: "k \<notin> fst ` set xs \<Longrightarrow> map_of (xs @ [(k, v)]) = (map_of xs)(k \<mapsto> v)"
  by (induction xs) (auto simp: fun_upd_twist)

interpretation pg_users: user_store pg_auth_storage known_users users_ok
proof (unfold_locales, goal_cases)
  case (1 w m r w')
  then have "AuthStorage_GetUserByEmail m w = (r, w')" by (simp add: pg_auth_storage_def)
  from GetUserByEmail_result [OF this] 1(1) show ?case
    by (auto simp: known_users_def users_ok_def same_tables_def errors_Is_flat split: option.splits)
next
  case (2 w u q w')
  then have "AuthStorage_CreateUser u w = (q, w')" by (simp add: pg_auth_storage_def)
  from CreateUser_result [OF this] 2(1) show ?case
    by (auto simp: known_users_def users_ok_def map_of_eq_None_iff map_of_snoc split: option.splits
        simp del: map_of_append)
qed

section \<open>Without server failures\<close>

lemma GetUserByEmail_calm:
  assumes "script w = []"
  shows "AuthStorage_GetUserByEmail m w =
    (case known_users w m of None \<Rightarrow> Inl ErrInvalidCredentials | Some p \<Rightarrow> Inr \<lparr>Email = m, Password = p\<rparr>, w)"
proof (cases "filter (\<lambda>(x, p). x = m) (users w)")
  case Nil
  with filter_key [of m "users w"] assms show ?thesis
    by (simp add: AuthStorage_GetUserByEmail_def query_row_def pg_simps known_users_def)
next
  case (Cons x rest)
  obtain m' p' where x: "x = (m', p')" by fastforce
  with Cons filter_key_hd [of m "users w" m' p' rest] assms show ?thesis
    by (simp add: AuthStorage_GetUserByEmail_def query_row_def pg_simps known_users_def)
qed

lemma login_table:
  assumes "script w = []"
  shows "AuthRepository_Login B pg_auth_storage m pw w =
    (case known_users w m of
       None \<Rightarrow> Panic
     | Some h \<Rightarrow> Ret (if CompareHashAndPassword B h pw = None then None else Some ErrInvalidCredentials), w)"
  by (simp add: AuthRepository_Login_def pg_auth_storage_def GetUserByEmail_calm [OF assms]
      compareHashAndPassword_def errors_Is_flat split: option.splits)

definition sample_bcrypt :: bcrypt where
  "sample_bcrypt = \<lparr>GenerateFromPassword = (\<lambda>salt pw. if length pw > 59 then Inl (ErrText ''too long'')
        else Inr (replicate (59 - length pw) (CHR ''0'') @ CHR ''1'' # map (\<lambda>c. CHR ''a'') pw)),
     CompareHashAndPassword = (\<lambda>h pw. if h = replicate (59 - length pw) (CHR ''0'') @ CHR ''1'' # map (\<lambda>c. CHR ''a'') pw
        then None else Some (ErrText ''mismatch''))\<rparr>"

lemma sample_bcrypt_ok: "bcrypt_ok sample_bcrypt"
  by (auto simp: bcrypt_ok_def sample_bcrypt_def char_length_def filter_replicate filter_map comp_def split: if_splits)

section \<open>Properties\<close>

text \<open>
  Signing up, under every pattern of server failures: success means that the address was free and
  is now known with the bcrypt hash of the password; an error leaves the known users as they were.
\<close>

theorem Register_result:
  assumes "users_ok w"
  shows "(case authService_Register B pg_auth_storage salt u w of
      ((None, u'), w') \<Rightarrow> known_users w (Email u) = None \<and> Password u \<noteq> [] \<and> users_ok w' \<and>
        (\<exists>h. GenerateFromPassword B salt (Password u) = Inr h \<and> u' = u\<lparr>Password := h\<rparr> \<and>
           known_users w' = (known_users w)(Email u \<mapsto> h))
    | ((Some e, u'), w') \<Rightarrow> known_users w' = known_users w \<and> users_ok w')"
proof -
  obtain q u' w' where r: "AuthRepository_Register B pg_auth_storage salt u w = ((q, u'), w')"
    by (metis prod.exhaust)
  show ?thesis
  proof (cases q)
    case None
    with pg_users.register_success [OF assms r [unfolded None]] r show ?thesis
      by (auto simp: authService_Register_def)
  next
    case (Some e)
    with pg_users.register_error [OF assms r [unfolded Some]] r show ?thesis
      by (simp add: authService_Register_def)
  qed
qed

theorem Register_result_witness:
  "users_ok sample_db \<and>
   (\<exists>u' w'. authService_Register sample_bcrypt pg_auth_storage 0 \<lparr>Email = ''a@b.c'', Password = ''secret''\<rparr> sample_db =
      ((None, u'), w') \<and> known_users w' ''a@b.c'' = Some (Password u'))"
proof -
  let ?u = "\<lparr>Email = ''a@b.c'', Password = ''secret''\<rparr>"
  have ok: "users_ok sample_db" by (simp add: users_ok_def sample_db_def)
  obtain u' w' where "authService_Register sample_bcrypt pg_auth_storage 0 ?u sample_db = ((None, u'), w')"
    by (simp add: authService_Register_def AuthRepository_Register_def pg_auth_storage_def GetUserByEmail_calm
        known_users_def sample_db_def hashPassword_def sample_bcrypt_def AuthStorage_CreateUser_def pg_simps
        char_length_def filter_replicate)
  with Register_result [OF ok, where B = sample_bcrypt and salt = 0 and u = ?u] ok show ?thesis by auto
qed

text \<open>
  (C27) Signing up and logging in: once a user has signed up, a login with the same address and the
  same password succeeds, whatever happened to the server during the sign-up.
\<close>

theorem register_then_login:
  assumes "bcrypt_ok B" "users_ok w"
    and "authService_Register B pg_auth_storage salt u w = ((None, u'), w')" "script w' = []"
  shows "authService_Login B pg_auth_storage u w' = (Ret None, w')"
proof -
  from pg_users.register_success [OF assms(2)] assms(3) have
    "GenerateFromPassword B salt (Password u) = Inr (Password u')" "known_users w' (Email u) = Some (Password u')"
    by (auto simp: authService_Register_def)
  moreover from this assms(1) have "CompareHashAndPassword B (Password u') (Password u) = None"
    by (auto simp: bcrypt_ok_def)
  ultimately show ?thesis
    by (simp add: authService_Login_def login_table [OF assms(4)])
qed

theorem register_then_login_witness:
  "\<exists>u' w'. authService_Register sample_bcrypt pg_auth_storage 0 \<lparr>Email = ''a@b.c'', Password = ''secret''\<rparr> sample_db =
      ((None, u'), w') \<and>
    authService_Login sample_bcrypt pg_auth_storage \<lparr>Email = ''a@b.c'', Password = ''secret''\<rparr> w' = (Ret None, w')"
proof -
  let ?u = "\<lparr>Email = ''a@b.c'', Password = ''secret''\<rparr>"
  have ok: "users_ok sample_db" by (simp add: users_ok_def sample_db_def)
  obtain u' w' where "authService_Register sample_bcrypt pg_auth_storage 0 ?u sample_db = ((None, u'), w')" "script w' = []"
    by (simp add: authService_Register_def AuthRepository_Register_def pg_auth_storage_def GetUserByEmail_calm
        known_users_def sample_db_def hashPassword_def sample_bcrypt_def AuthStorage_CreateUser_def pg_simps
        char_length_def filter_replicate)
  with register_then_login [OF sample_bcrypt_ok ok this] show ?thesis by auto
qed

text \<open>
  (C28) The answers of a login without server failures: a wrong password is refused with
  \<^verbatim>\<open>ErrInvalidCredentials\<close>, but an address that nobody signed up with makes the repository
  dereference a nil pointer instead.
\<close>

theorem Login_answer:
  assumes "script w = []"
  shows "authService_Login B pg_auth_storage u w =
    (case known_users w (Email u) of
       None \<Rightarrow> Panic
     | Some h \<Rightarrow> Ret (if CompareHashAndPassword B h (Password u) = None then None else Some ErrInvalidCredentials), w)"
  by (simp add: authService_Login_def login_table [OF assms])

theorem Login_answer_witness:
  "fst (authService_Login sample_bcrypt pg_auth_storage \<lparr>Email = ''a@b.c'', Password = ''secret''\<rparr> sample_db) = Panic"
  using Login_answer [of sample_db sample_bcrypt "\<lparr>Email = ''a@b.c'', Password = ''secret''\<rparr>"]
  by (simp add: sample_db_def known_users_def)

end
