(* ===== verification/Time_Parse.thy ===== *)
theory Time_Parse
  imports Go_Time "HOL-Library.Monad_Syntax"
begin

text \<open>
  What the sources use of \<^verbatim>\<open>time.Parse\<close>: the layouts \<^verbatim>\<open>2006-01-02\<close>,
  \<^verbatim>\<open>RFC3339\<close> and \<^verbatim>\<open>RFC3339Nano\<close>. The last two read the same texts, because a
  fraction is taken after the seconds whether the layout has one or not. A parser consumes a prefix of
  its input and returns the value with the rest; \<open>None\<close> is the error. A time that was read is its
  wall clock and the offset of its zone in seconds.
\<close>

section \<open>Reading\<close>

text \<open>\<^verbatim>\<open>getnum\<close>: two digits, or one of them if the field is not fixed.\<close>

definition getnum :: "bool \<Rightarrow> string \<Rightarrow> (int \<times> string) option" where
  "getnum fixed s = (case s of
      [] \<Rightarrow> None
    | c1 # s1 \<Rightarrow> (case digit_val c1 of
        None \<Rightarrow> None
      | Some a \<Rightarrow> (case (case s1 of [] \<Rightarrow> None | c2 # s2 \<Rightarrow> map_option (\<lambda>b. (b, s2)) (digit_val c2)) of
          None \<Rightarrow> (if fixed then None else Some (int a, s1))
        | Some (b, s2) \<Rightarrow> Some (int (10 * a + b), s2))))"

definition get_year :: "string \<Rightarrow> (int \<times> string) option" where
  "get_year s = (if length s < 4 then None
     else map_option (\<lambda>n. (int n, drop 4 s)) (digits_val 0 (take 4 s)))"

definition skip :: "char \<Rightarrow> string \<Rightarrow> string option" where
  "skip c s = (case s of [] \<Rightarrow> None | x # r \<Rightarrow> if x = c then Some r else None)"

definition in_range :: "int \<Rightarrow> int \<Rightarrow> int \<Rightarrow> unit option" where
  "in_range lo hi n = (if lo \<le> n \<and> n \<le> hi then Some () else None)"

definition day_of_civil :: "int \<Rightarrow> int \<Rightarrow> int \<Rightarrow> int" where
  "day_of_civil y m d = days_before_year y + sum_list (take (nat (m - 1)) (month_lengths y)) + (d - 1)"

definition parse_day :: "string \<Rightarrow> (int \<times> string) option" where
  "parse_day s = do {
     (y, s1) \<leftarrow> get_year s;
     s2 \<leftarrow> skip (CHR ''-'') s1;
     (m, s3) \<leftarrow> getnum True s2;
     in_range 1 12 m;
     s4 \<leftarrow> skip (CHR ''-'') s3;
     (d, s5) \<leftarrow> getnum True s4;
     in_range 1 (month_lengths y ! nat (m - 1)) d;
     Some (day_of_civil y m d, s5)
   }"

definition parse_clock :: "string \<Rightarrow> (int \<times> string) option" where
  "parse_clock s = do {
     (h, s1) \<leftarrow> getnum False s;
     in_range 0 23 h;
     s2 \<leftarrow> skip (CHR '':'') s1;
     (m, s3) \<leftarrow> getnum True s2;
     in_range 0 59 m;
     s4 \<leftarrow> skip (CHR '':'') s3;
     (sec, s5) \<leftarrow> getnum True s4;
     in_range 0 59 sec;
     Some (3600 * h + 60 * m + sec, s5)
   }"

text \<open>\<^verbatim>\<open>parseNanoseconds\<close>: at most nine digits count, and missing ones are zeros.\<close>

definition is_digit :: "char \<Rightarrow> bool" where
  "is_digit c = (digit_val c \<noteq> None)"

definition parseNanoseconds :: "string \<Rightarrow> int" where
  "parseNanoseconds ds = (let k = take 9 ds in case digits_val 0 k of
      None \<Rightarrow> 0 | Some n \<Rightarrow> int n * 10 ^ (9 - length k))"

definition parse_fraction :: "string \<Rightarrow> int \<times> string" where
  "parse_fraction s = (case s of
      c # d # r \<Rightarrow> (if (c = CHR ''.'' \<or> c = CHR '','') \<and> is_digit d
        then (parseNanoseconds (takeWhile is_digit (d # r)), dropWhile is_digit (d # r)) else (0, s))
    | _ \<Rightarrow> (0, s))"

definition parse_zone :: "string \<Rightarrow> (int \<times> string) option" where
  "parse_zone s = (case s of
      [] \<Rightarrow> None
    | sign # s1 \<Rightarrow>
       (if sign = CHR ''Z'' then Some (0, s1)
        else if length s < 6 \<or> s ! 3 \<noteq> CHR '':'' then None
        else do {
          (hr, _) \<leftarrow> getnum True (take 2 s1);
          (mm, _) \<leftarrow> getnum True (take 2 (drop 4 s));
          in_range 0 24 hr;
          in_range 0 60 mm;
          (if sign = CHR ''+'' then Some (60 * (60 * hr + mm), drop 6 s)
           else if sign = CHR ''-'' then Some (- (60 * (60 * hr + mm)), drop 6 s) else None)
        }))"

definition Parse_date :: "string \<Rightarrow> time option" where
  "Parse_date s = do {
     (day, rest) \<leftarrow> parse_day s;
     (if rest = [] then Some (day * (24 * hour)) else None)
   }"

definition Parse_RFC3339 :: "string \<Rightarrow> (time \<times> int) option" where
  "Parse_RFC3339 s = do {
     (day, s1) \<leftarrow> parse_day s;
     s2 \<leftarrow> skip (CHR ''T'') s1;
     (clock, s3) \<leftarrow> parse_clock s2;
     (zone, rest) \<leftarrow> parse_zone (snd (parse_fraction s3));
     (if rest = [] then Some (day * (24 * hour) + clock * second + fst (parse_fraction s3), zone) else None)
   }"

section \<open>The calendar\<close>

text \<open>The year found holds the day: it does not begin after it.\<close>

lemma days_before_year_upper: "1 \<le> y \<Longrightarrow> days_before_year y \<le> 366 * (y - 1)"
proof -
  assume "1 \<le> y"
  have "(y - 1) div 4 \<le> y - 1" "(y - 1) div 400 \<le> (y - 1) div 100"
    using \<open>1 \<le> y\<close> by (auto intro: zdiv_mono2 simp: div_le_dividend)
  then show ?thesis by (simp add: days_before_year_def)
qed

lemma find_Cons_prev:
  assumes "find P [lo..hi] = Some (y :: int)"
  shows "y = lo \<or> (lo \<le> y - 1 \<and> \<not> P (y - 1))"
proof (rule ccontr)
  assume a: "\<not> ?thesis"
  from assms obtain i where i: "i < length [lo..hi]" "y = [lo..hi] ! i" "\<And>j. j < i \<Longrightarrow> \<not> P ([lo..hi] ! j)"
    by (auto simp: find_Some_iff)
  then have "y = lo + int i" by simp
  with a have "0 < i" "P (y - 1)" by auto
  moreover from \<open>0 < i\<close> have "\<not> P ([lo..hi] ! (i - 1))" by (intro i(3)) simp
  moreover have "[lo..hi] ! (i - 1) = y - 1" using i(1) \<open>0 < i\<close> \<open>y = lo + int i\<close> by simp
  ultimately show False by simp
qed

lemma year_of_day_lower:
  assumes "0 \<le> d"
  shows "days_before_year (year_of_day d) \<le> d \<and> 1 \<le> year_of_day d"
proof -
  let ?lo = "d div 366 + 1" and ?hi = "d div 365 + 1"
  let ?P = "\<lambda>y. d < days_before_year (y + 1)"
  have "?lo \<le> ?hi" using assms by (simp add: zdiv_mono2)
  have "?P ?hi" using year_of_day_bounds [OF assms] days_before_year_lower [of "?hi + 1"] assms
      pos_mod_bound [of 365 d] mult_div_mod_eq [of 365 d] by (simp add: pos_imp_zdiv_nonneg_iff algebra_simps)
  with \<open>?lo \<le> ?hi\<close> have "find ?P [?lo..?hi] \<noteq> None"
    by (auto simp: find_None_iff)
  then obtain y where y: "find ?P [?lo..?hi] = Some y" by blast
  then have yy: "year_of_day d = y" "?lo \<le> y" by (auto simp: year_of_day_def dest: find_SomeD)
  from find_Cons_prev [OF y] show ?thesis
  proof
    assume "y = ?lo"
    moreover have "days_before_year ?lo \<le> 366 * (d div 366)"
      using days_before_year_upper [of ?lo] assms by (simp add: pos_imp_zdiv_nonneg_iff)
    moreover have "366 * (d div 366) \<le> d"
      using pos_mod_sign [of 366 d] mult_div_mod_eq [of 366 d] by linarith
    ultimately show ?thesis using yy assms by (simp add: pos_imp_zdiv_nonneg_iff)
  next
    assume "?lo \<le> y - 1 \<and> \<not> ?P (y - 1)"
    then show ?thesis using yy assms by (auto simp: pos_imp_zdiv_nonneg_iff dest: order.trans [rotated])
  qed
qed

lemma div_pred: "0 < k \<Longrightarrow> (y - 1) div k = y div k - (if k dvd y then 1 else 0)" for k y :: int
proof (cases "k dvd y")
  case True
  assume "0 < k"
  from True obtain q where q: "y = k * q" by blast
  have "(y - 1) div k = q - 1"
    using \<open>0 < k\<close> q by (intro int_div_pos_eq [of _ _ _ "k - 1"]) (simp_all add: algebra_simps)
  with q \<open>0 < k\<close> show ?thesis by simp
next
  case False
  assume "0 < k"
  then have "y mod k < k" "0 \<le> y mod k" by simp_all
  moreover have "y mod k \<noteq> 0" using False by (simp add: dvd_eq_mod_eq_0)
  moreover have "k * (y div k) + y mod k = y" by (rule mult_div_mod_eq)
  ultimately have "(y - 1) div k = y div k"
    by (intro int_div_pos_eq [of _ _ _ "y mod k - 1"]) linarith+
  with False show ?thesis by simp
qed

lemma year_length: "sum_list (month_lengths y) = days_before_year (y + 1) - days_before_year y"
proof -
  have "(100::int) dvd y \<Longrightarrow> 4 dvd y" "(400::int) dvd y \<Longrightarrow> 100 dvd y" by (auto intro: dvd_trans)
  moreover have "leap_year y \<longleftrightarrow> 4 dvd y \<and> (\<not> 100 dvd y \<or> 400 dvd y)"
    by (simp add: leap_year_def dvd_eq_mod_eq_0)
  moreover have "(y - 1) div 4 = y div 4 - (if 4 dvd y then 1 else 0)"
    "(y - 1) div 100 = y div 100 - (if 100 dvd y then 1 else 0)"
    "(y - 1) div 400 = y div 400 - (if 400 dvd y then 1 else 0)" by (rule div_pred, simp)+
  ultimately show ?thesis
    unfolding days_before_year_def month_lengths_def by (cases "4 dvd y"; cases "100 dvd y"; cases "400 dvd y") simp_all
qed

lemma month_split_sound:
  assumes "0 \<le> d" "d < sum_list ls"
  shows "\<exists>k dd. month_split ls m d = (m + int k, dd) \<and> k < length ls \<and> 1 \<le> dd \<and> dd \<le> ls ! k \<and>
    d = sum_list (take k ls) + (dd - 1)"
  using assms
proof (induction ls m d rule: month_split.induct)
  case (2 l ls m d)
  show ?case
  proof (cases "d < l")
    case True
    with 2 show ?thesis by (intro exI [of _ 0] exI [of _ "d + 1"]) simp
  next
    case False
    with 2 obtain k dd where "month_split ls (m + 1) (d - l) = (m + 1 + int k, dd)" "k < length ls" "1 \<le> dd"
      "dd \<le> ls ! k" "d - l = sum_list (take k ls) + (dd - 1)" by auto
    with False show ?thesis by (intro exI [of _ "Suc k"] exI [of _ dd]) auto
  qed
qed simp

lemma civil_of_day_sound:
  assumes "0 \<le> d" "civil_of_day d = (y, m, dd)"
  shows "1 \<le> y \<and> 1 \<le> m \<and> m \<le> 12 \<and> 1 \<le> dd \<and> dd \<le> month_lengths y ! nat (m - 1) \<and> day_of_civil y m dd = d"
proof -
  let ?y = "year_of_day d"
  note b = year_of_day_bounds [OF assms(1)] year_of_day_lower [OF assms(1)]
  then have "0 \<le> d - days_before_year ?y" "d - days_before_year ?y < sum_list (month_lengths ?y)"
    by (simp_all add: year_length)
  from month_split_sound [OF this, of 1] obtain k e where
    k: "month_split (month_lengths ?y) 1 (d - days_before_year ?y) = (1 + int k, e)" "k < length (month_lengths ?y)"
    "1 \<le> e" "e \<le> month_lengths ?y ! k" "d - days_before_year ?y = sum_list (take k (month_lengths ?y)) + (e - 1)" by blast
  have "length (month_lengths ?y) = 12" by (simp add: month_lengths_def)
  with k b assms(2) show ?thesis by (auto simp: civil_of_day_def Let_def day_of_civil_def)
qed

section \<open>Padded numbers\<close>

lemma length_nat_digits: "n < 10 ^ k \<Longrightarrow> 0 < k \<Longrightarrow> length (nat_digits n) \<le> k"
proof (induction n arbitrary: k rule: nat_digits.induct)
  case (1 n)
  show ?case
  proof (cases "n < 10")
    case False
    with 1(2,3) obtain j where j: "k = Suc j" "0 < j" by (cases k; cases "k - 1") auto
    with 1(2) have "n div 10 < 10 ^ j" by (simp add: less_mult_imp_div_less mult.commute)
    with 1(1) [OF False _ j(2)] False j show ?thesis by (subst nat_digits.simps) simp
  qed (use 1(3) in \<open>simp add: nat_digits.simps [of n]\<close>)
qed

lemma digits_val_zeros: "digits_val 0 (replicate j (CHR ''0'') @ s) = digits_val 0 s"
proof -
  have "digit_val CHR ''0'' = Some 0" by (simp add: digit_val_def)
  then show ?thesis by (induction j) simp_all
qed

lemma pad_digits:
  assumes "0 \<le> n" "n < 10 ^ k" "0 < k"
  shows "length (pad k n) = k" "digits_val 0 (pad k n) = Some (nat n)"
proof -
  have "nat n < 10 ^ k" using assms by (simp add: nat_less_iff)
  from length_nat_digits [OF this assms(3)] show "length (pad k n) = k"
    by (simp add: pad_def Let_def)
  show "digits_val 0 (pad k n) = Some (nat n)"
    by (simp add: pad_def Let_def digits_val_zeros digits_val_nat_digits)
qed

lemma getnum_pad:
  assumes "0 \<le> n" "n < 100"
  shows "getnum fixed (pad 2 n @ rest) = Some (n, rest)"
proof -
  obtain a b where ab: "pad 2 n = [a, b]"
    using pad_digits(1) [of n 2] assms by (auto simp: length_Suc_conv numeral_2_eq_2)
  with pad_digits(2) [of n 2] assms obtain x y where "digit_val a = Some x" "digit_val b = Some y" "10 * x + y = nat n"
    by (auto split: option.splits)
  with ab assms show ?thesis by (simp add: getnum_def)
qed

lemma get_year_pad: "0 \<le> n \<Longrightarrow> n < 10000 \<Longrightarrow> get_year (pad 4 n @ rest) = Some (n, rest)"
  using pad_digits [of n 4] by (simp add: get_year_def)

lemma set_pad_digit: "c \<in> set (pad k n) \<Longrightarrow> is_digit c"
  using set_pad [of c k n] by (auto simp: is_digit_def digit_val_def [of "CHR ''0''"])

lemma digits_val_trailing: "digits_val 0 (s @ replicate j (CHR ''0'')) = map_option (\<lambda>m. m * 10 ^ j) (digits_val 0 s)"
proof -
  have z: "digit_val CHR ''0'' = Some 0" by (simp add: digit_val_def)
  have "digits_val m (replicate j (CHR ''0'')) = Some (m * 10 ^ j)" for m
    using z by (induction j arbitrary: m) simp_all
  then show ?thesis by (cases "digits_val 0 s") (simp_all add: digits_val_append)
qed

text \<open>A fraction printed without its trailing zeros is read back.\<close>

lemma parse_format_fraction:
  assumes "0 \<le> n" "n < second"
  shows "parse_fraction (format_fraction n @ ''Z'') = (n, ''Z'')"
proof (cases "n = 0")
  case False
  define ds where "ds = rev (dropWhile (\<lambda>c. c = CHR ''0'') (rev (pad 9 n)))"
  define j where "j = length (takeWhile (\<lambda>c. c = CHR ''0'') (rev (pad 9 n)))"
  have "takeWhile (\<lambda>c. c = CHR ''0'') (rev (pad 9 n)) = replicate j (CHR ''0'')"
    unfolding j_def by (rule replicate_eqI [OF refl]) (auto dest: set_takeWhileD)
  then have split: "pad 9 n = ds @ replicate j (CHR ''0'')"
    unfolding ds_def by (metis rev_append rev_replicate rev_rev_ident takeWhile_dropWhile_id)
  from pad_digits [of n 9] assms have len: "length (pad 9 n) = 9" and val: "digits_val 0 (pad 9 n) = Some (nat n)"
    by simp_all
  from val [unfolded split digits_val_trailing] obtain m where m: "digits_val 0 ds = Some m" "m * 10 ^ j = nat n" by auto
  have "ds \<noteq> []" using m False assms(1) by auto
  then obtain d r where dr: "ds = d # r" by (cases ds) auto
  have digits: "\<forall>c \<in> set ds. is_digit c" using set_pad_digit [of _ 9 n] split by auto
  have "\<not> is_digit (CHR ''Z'')" by (simp add: is_digit_def digit_val_def)
  with digits have "takeWhile is_digit (ds @ ''Z'') = ds" "dropWhile is_digit (ds @ ''Z'') = ''Z''"
    by (simp_all add: takeWhile_append2 dropWhile_append2)
  moreover have "length ds = 9 - j" "j \<le> 9" using len split by auto
  moreover have "int m * 10 ^ j = n" using m(2) assms(1) by (metis int_nat_eq of_nat_mult of_nat_numeral of_nat_power)
  ultimately have "parseNanoseconds ds = n" using m(1) by (simp add: parseNanoseconds_def Let_def)
  moreover have "format_fraction n = CHR ''.'' # ds" using False by (simp add: format_fraction_def ds_def)
  ultimately show ?thesis
    using digits \<open>takeWhile is_digit (ds @ ''Z'') = ds\<close> \<open>dropWhile is_digit (ds @ ''Z'') = ''Z''\<close>
    by (simp add: parse_fraction_def dr)
qed (simp add: parse_fraction_def format_fraction_def)

section \<open>Reading what was printed\<close>

lemma days_before_year_mono: "a \<le> b \<Longrightarrow> days_before_year a \<le> days_before_year b"
proof (induction b rule: int_ge_induct)
  case (step b)
  have "0 \<le> sum_list (month_lengths b)" by (simp add: month_lengths_def)
  with step year_length [of b] show ?case by simp
qed simp

lemma year_of_day_four_digits: "0 \<le> d \<Longrightarrow> d < 3652059 \<Longrightarrow> year_of_day d < 10000"
proof (rule ccontr)
  assume "0 \<le> d" "d < 3652059" "\<not> year_of_day d < 10000"
  moreover have "days_before_year 10000 = 3652059" by (simp add: days_before_year_def)
  ultimately show False
    using days_before_year_mono [of 10000 "year_of_day d"] year_of_day_lower [of d] by linarith
qed

lemma month_lengths_le: "k < 12 \<Longrightarrow> month_lengths y ! k \<le> 31"
  by (auto simp: month_lengths_def less_Suc_eq numeral_eq_Suc)

lemma skip_simp [simp]: "skip c (c # r) = Some r"
  by (simp add: skip_def)

lemma in_range_simp [simp]: "lo \<le> n \<Longrightarrow> n \<le> hi \<Longrightarrow> in_range lo hi n = Some ()"
  by (simp add: in_range_def)

lemma parse_format_date:
  assumes "0 \<le> d" "d < 3652059"
  shows "parse_day (format_date d @ rest) = Some (d, rest)"
proof -
  obtain y m dd where c: "civil_of_day d = (y, m, dd)" by (metis prod.exhaust)
  from civil_of_day_sound [OF assms(1) c] have b: "1 \<le> y" "1 \<le> m" "m \<le> 12" "1 \<le> dd"
    "dd \<le> month_lengths y ! nat (m - 1)" "day_of_civil y m dd = d" by simp_all
  have "y < 10000" using c year_of_day_four_digits [OF assms] by (simp add: civil_of_day_def Let_def split: prod.splits)
  moreover have "dd < 100" using b(5) month_lengths_le [of "nat (m - 1)" y] b(2,3) by linarith
  ultimately show ?thesis
    using b by (simp add: parse_day_def format_date_def c get_year_pad getnum_pad)
qed

lemma div_less_int: "0 < k \<Longrightarrow> t < m * k \<Longrightarrow> t div k < m" for k t m :: int
proof (rule ccontr)
  assume a: "0 < k" "t < m * k" "\<not> t div k < m"
  then have "m * k \<le> t div k * k" by simp
  also have "\<dots> \<le> t" using a(1) pos_mod_sign [of k t] div_mult_mod_eq [of t k] by linarith
  finally show False using a(2) by simp
qed

lemma parse_format_clock:
  assumes "0 \<le> s" "s < 86400"
  shows "parse_clock (format_clock s @ rest) = Some (s, rest)"
proof -
  have b: "0 \<le> s div 3600" "s div 3600 \<le> 23" "0 \<le> s div 60 mod 60" "s div 60 mod 60 \<le> 59" "0 \<le> s mod 60" "s mod 60 \<le> 59"
    using assms pos_mod_bound [of 60 "s div 60"] pos_mod_bound [of 60 s] div_less_int [of 3600 s 24]
    by (simp_all add: pos_imp_zdiv_nonneg_iff)
  have "s div 60 div 60 = s div 3600" by (simp add: zdiv_zmult2_eq [symmetric])
  then have "3600 * (s div 3600) + 60 * (s div 60 mod 60) + s mod 60 = s"
    using mult_div_mod_eq [of 60 s] mult_div_mod_eq [of 60 "s div 60"] by linarith
  with b show ?thesis by (simp add: parse_clock_def format_clock_def getnum_pad)
qed

lemma time_parts: "t div (24 * hour) * (24 * hour) + t div second mod 86400 * second + t mod second = t"
proof -
  have "t div (24 * hour) = t div second div 86400" by (simp add: zdiv_zmult2_eq [symmetric])
  then show ?thesis
    using mult_div_mod_eq [of 86400 "t div second"] mult_div_mod_eq [of second t] by linarith
qed

lemma time_day_bounds:
  assumes "0 \<le> t" "t < 3652059 * (24 * hour)"
  shows "0 \<le> t div (24 * hour)" "t div (24 * hour) < 3652059"
  using assms by (simp_all add: pos_imp_zdiv_nonneg_iff div_less_int)

lemma Parse_Format_Nano:
  assumes "0 \<le> t" "t < 3652059 * (24 * hour)"
  shows "Parse_RFC3339 (Format_RFC3339Nano t) = Some (t, 0)"
  using time_day_bounds [OF assms] time_parts [of t]
  by (simp add: Parse_RFC3339_def Format_RFC3339Nano_def parse_format_date parse_format_clock parse_format_fraction
      parse_zone_def)

text \<open>\<^verbatim>\<open>RFC3339\<close> drops the fraction of the second.\<close>

lemma Parse_Format_RFC3339:
  assumes "0 \<le> t" "t < 3652059 * (24 * hour)"
  shows "Parse_RFC3339 (Format_RFC3339 t) = Some (t - t mod second, 0)"
proof -
  have "parse_fraction ''Z'' = (0, ''Z'')" by (simp add: parse_fraction_def)
  with time_day_bounds [OF assms] time_parts [of t] show ?thesis
    by (simp add: Parse_RFC3339_def Format_RFC3339_def parse_format_date parse_format_clock parse_zone_def algebra_simps)
qed

lemma Parse_date_format: "0 \<le> d \<Longrightarrow> d < 3652059 \<Longrightarrow> Parse_date (format_date d) = Some (d * (24 * hour))"
  using parse_format_date [of d "[]"] by (simp add: Parse_date_def)

end
