(* ===== verification/Api_Texts.thy ===== *)
theory Api_Texts
  imports Domain
begin

text \<open>
  The texts of the answers of the two servers, by code points: the messages and errors of
  \<^verbatim>\<open>internal/api\<close>, \<^verbatim>\<open>internal/middleware\<close> and
  \<^verbatim>\<open>internal/transport/grpc\<close>.
\<close>

definition text_time_format :: string where
  "text_time_format = u8 [1085, 1077, 1074, 1077, 1088, 1085, 1099, 1081, 32, 1092, 1086, 1088, 1084,
     1072, 1090, 32, 1074, 1088, 1077, 1084, 1077, 1085, 1080]"

definition text_order_accepted :: string where
  "text_order_accepted = u8 [1079, 1072, 1082, 1072, 1079, 32, 1087, 1088, 1080, 1085, 1103, 1090]"

definition text_need_order_id :: string where
  "text_need_order_id = u8 [1085, 1091, 1078, 1085, 1086, 32, 1091, 1082, 1072, 1079, 1072, 1090,
     1100, 32, 111, 114, 100, 101, 114, 32, 105, 100]"

definition text_order_deleted :: string where
  "text_order_deleted = u8 [1079, 1072, 1082, 1072, 1079, 32, 1091, 1076, 1072, 1083, 1077, 1085]"

definition text_wrong_command :: string where
  "text_wrong_command = u8 [1085, 1077, 1074, 1077, 1088, 1085, 1072, 1103, 32, 1082, 1086, 1084,
     1072, 1085, 1076, 1072]"

definition text_need_user_id :: string where
  "text_need_user_id = u8 [1090, 1088, 1077, 1073, 1091, 1077, 1090, 1089, 1103, 32, 1091, 1082, 1072,
     1079, 1072, 1090, 1100, 32, 117, 115, 101, 114, 32, 105, 100]"

definition text_limit_format :: string where
  "text_limit_format = u8 [1085, 1077, 1074, 1077, 1088, 1085, 1099, 1081, 32, 1092, 1086, 1088, 1084,
     1072, 1090, 32, 1083, 1080, 1084, 1080, 1090, 1072]"

definition text_cursor_format :: string where
  "text_cursor_format = u8 [1085, 1077, 1074, 1077, 1088, 1085, 1099, 1081, 32, 1092, 1086, 1088,
     1084, 1072, 1090, 32, 1082, 1091, 1088, 1089, 1086, 1088, 1072]"

definition text_wrong_limit :: string where
  "text_wrong_limit = u8 [1085, 1077, 1074, 1077, 1088, 1085, 1099, 1081, 32, 1083, 1080, 1084, 1080,
     1090]"

definition text_wrong_cursor_time :: string where
  "text_wrong_cursor_time = u8 [1085, 1077, 1074, 1077, 1088, 1085, 1086, 1077, 32, 1074, 1088, 1077,
     1084, 1103, 32, 1082, 1091, 1088, 1089, 1086, 1088, 1072]"

definition text_wrong_cursor_id :: string where
  "text_wrong_cursor_id = u8 [1085, 1077, 1074, 1077, 1088, 1085, 1086, 1077, 32, 105, 100, 32, 1082,
     1091, 1088, 1089, 1086, 1088, 1072]"

definition text_user_registered :: string where
  "text_user_registered = u8 [1087, 1086, 1083, 1100, 1079, 1086, 1074, 1072, 1090, 1077, 1083, 1100,
     32, 1079, 1072, 1088, 1077, 1075, 1080, 1089, 1090, 1088, 1080, 1088, 1086, 1074, 1072, 1085]"

definition text_login_done :: string where
  "text_login_done = u8 [1074, 1093, 1086, 1076, 32, 1091, 1089, 1087, 1077, 1096, 1077, 1085]"

definition text_login_needed :: string where
  "text_login_needed = u8 [1085, 1077, 1086, 1073, 1093, 1086, 1076, 1080, 1084, 1086, 32, 1074, 1099,
     1087, 1086, 1083, 1085, 1080, 1090, 1100, 32, 1074, 1093, 1086, 1076]"

definition text_login_again :: string where
  "text_login_again = u8 [1085, 1077, 1086, 1073, 1093, 1086, 1076, 1080, 1084, 1086, 32, 1074, 1099,
     1087, 1086, 1083, 1085, 1080, 1090, 1100, 32, 1074, 1093, 1086, 1076, 32, 1079, 1072, 1085, 1086,
     1074, 1086]"

definition text_grpc_time_format :: string where
  "text_grpc_time_format = u8 [1085, 1077, 1087, 1088, 1072, 1074, 1080, 1083, 1100, 1085, 1099, 1081,
     32, 1092, 1086, 1088, 1084, 1072, 1090, 32, 1074, 1088, 1077, 1084, 1077, 1085, 1080, 58, 32]"

definition text_grpc_cursor_format :: string where
  "text_grpc_cursor_format = u8 [1085, 1077, 1074, 1077, 1088, 1085, 1099, 1081, 32, 1092, 1086, 1088,
     1084, 1072, 1090, 32, 1082, 1091, 1088, 1089, 1086, 1088, 1072, 58, 32]"

definition text_grpc_need_user_id :: string where
  "text_grpc_need_user_id = u8 [1085, 1091, 1078, 1085, 1086, 32, 1091, 1082, 1072, 1079, 1072, 1090,
     1100, 32, 117, 115, 101, 114, 95, 105, 100]"

definition text_need_credentials :: string where
  "text_need_credentials = u8 [1085, 1091, 1078, 1085, 1086, 32, 1091, 1082, 1072, 1079, 1072, 1090,
     1100, 32, 101, 109, 97, 105, 108, 32, 1080, 32, 1087, 1072, 1088, 1086, 1083, 1100]"

definition text_token_failed :: string where
  "text_token_failed = u8 [1086, 1096, 1080, 1073, 1082, 1072, 32, 1075, 1077, 1085, 1077, 1088, 1072,
     1094, 1080, 1080, 32, 1090, 1086, 1082, 1077, 1085, 1072]"

definition text_no_metadata :: string where
  "text_no_metadata = u8 [1086, 1090, 1089, 1091, 1090, 1089, 1090, 1074, 1091, 1102, 1090, 32, 1084,
     1077, 1090, 1072, 1076, 1072, 1085, 1085, 1099, 1077]"

definition text_token_check_failed :: string where
  "text_token_check_failed = u8 [1086, 1096, 1080, 1073, 1082, 1072, 32, 1087, 1088, 1086, 1074, 1077,
     1088, 1082, 1080, 32, 1090, 1086, 1082, 1077, 1085, 1072, 58, 32]"

definition text_wrong_token :: string where
  "text_wrong_token = u8 [1085, 1077, 1074, 1077, 1088, 1085, 1099, 1081, 32, 1090, 1086, 1082, 1077,
     1085]"

definition text_no_auth_header :: string where
  "text_no_auth_header = u8 [1086, 1090, 1089, 1091, 1090, 1089, 1090, 1074, 1091, 1077, 1090, 32,
     1079, 1072, 1075, 1086, 1083, 1086, 1074, 1086, 1082, 32, 1072, 1074, 1090, 1086, 1088, 1080, 1079,
     1072, 1094, 1080, 1080]"

end
