(* ===== verification/Http_Api.thy ===== *)
theory Http_Api
  imports Order_Service Auth Time_Parse Api_Texts
begin

text \<open>
  The HTTP handlers, \<^verbatim>\<open>internal/api\<close>. The framework (\<^verbatim>\<open>gin\<close>) is not part of the
  program: a handler is the list of the calls it makes on gin's context, and what gin decodes for it is an
  argument: the path parameters, the query parameters (absent ones are empty) and
  \<open>bindJSON\<close>, which stands for \<^verbatim>\<open>ShouldBindJSON\<close> and gives the decoded request or the
  text of an error. A handler also returns the calls of \<^verbatim>\<open>Pipeline.SendEvent\<close> it makes,
  the jobs the service started and the calls of collectors.
\<close>

section \<open>Requests and answers\<close>

datatype body_value =
    BString string
  | BStrings "string list"
  | BResponses "order_response list"
  | BOrders "order list"
  | BError goerror

type_synonym doc = "(string \<times> body_value) list"

datatype gin_call =
    JSON int doc
  | SetCookie string string int
  | AbortWithStatusJSON int doc
  | SetStatus int
  | ServeMetrics

type_synonym audit_call = "event_type \<times> (string \<times> any) list"

record outcome =
  out_calls :: "gin_call list"
  out_audits :: "audit_call list"
  out_jobs :: "cache_job list"
  out_metrics :: "metric_call list"

record accept_order_request =
  req_ID :: string
  req_RecipientID :: string
  req_Expiry :: string
  req_BasePrice :: float64
  req_Weight :: float64
  req_Packaging :: string

record issue_refund_request =
  req_Command :: string
  req_UserID :: string
  req_OrderIDs :: "string list"

record signup_request =
  req_Email :: string
  req_Password :: string

definition answer :: "int \<Rightarrow> doc \<Rightarrow> outcome" where
  "answer code body = \<lparr>out_calls = [JSON code body], out_audits = [], out_jobs = [], out_metrics = []\<rparr>"

definition bad_request :: "string \<Rightarrow> outcome" where
  "bad_request msg = answer 400 [(''error'', BString msg)]"

definition wrong_json :: "string \<Rightarrow> outcome" where
  "wrong_json err = bad_request (Error ErrWrongJSON @ '': '' @ err)"

definition server_error :: "goerror \<Rightarrow> outcome" where
  "server_error e = answer 500 [(''error'', BString (Error e))]"

definition status_change :: "string \<Rightarrow> any \<Rightarrow> audit_call" where
  "status_change orderID status = (EventStatusChange, [(''order_id'', AnyString orderID), (''status'', status)])"

section \<open>Orders\<close>

definition order_of_request :: "time \<Rightarrow> time \<Rightarrow> accept_order_request \<Rightarrow> order" where
  "order_of_request day storedAt req = \<lparr>ID = req_ID req, RecipientID = req_RecipientID req,
     Expiry = day + 24 * hour, StoredAt = Some storedAt, IssuedAt = None, RefundedAt = None,
     BasePrice = req_BasePrice req, PackagePrice = Fin 0, Weight = req_Weight req, Packaging = req_Packaging req\<rparr>"

definition APIHandler_AcceptOrder ::
    "('w, 'r) order_service \<Rightarrow> ('b \<Rightarrow> string + accept_order_request) \<Rightarrow> time \<times> time \<times> time \<Rightarrow> 'b \<Rightarrow>
     'w \<times> 'r \<Rightarrow> outcome \<times> 'w \<times> 'r" where
  "APIHandler_AcceptOrder SV bindJSON now body s =
     (case bindJSON body of
        Inl err \<Rightarrow> (wrong_json err, s)
      | Inr req \<Rightarrow>
          (case Parse_date (req_Expiry req) of
             None \<Rightarrow> (bad_request text_time_format, s)
           | Some day \<Rightarrow>
               (case now of (storedAt, now1, now2) \<Rightarrow>
                case orderService_AcceptOrder SV now1 now2 (order_of_request day storedAt req) s of
                  ((Some e, jobs), s') \<Rightarrow>
                    ((if errors_Is e ErrDatabase then server_error e
                      else if errors_Is e ErrDuplicateOrder then answer 409 [(''error'', BString (Error e))]
                      else bad_request (Error e))\<lparr>out_jobs := jobs\<rparr>, s')
                | ((None, jobs), s') \<Rightarrow>
                    (\<lparr>out_calls = [JSON 201 [(''message'', BString text_order_accepted)]],
                      out_audits = [status_change (req_ID req) (AnyStatus StatusStored)], out_jobs = jobs, out_metrics = []\<rparr>, s'))))"

definition APIHandler_ReturnOrder ::
    "('w, 'r) order_service \<Rightarrow> time \<Rightarrow> string \<Rightarrow> 'w \<times> 'r \<Rightarrow> outcome go \<times> 'w \<times> 'r" where
  "APIHandler_ReturnOrder SV now orderID s =
     (if orderID = [] then (Ret (bad_request text_need_order_id), s)
      else case orderService_ReturnOrder SV now orderID s of
        (Panic, s') \<Rightarrow> (Panic, s')
      | (Ret (Some e, jobs), s') \<Rightarrow>
          (Ret ((if errors_Is e ErrDatabase then server_error e else bad_request (Error e))\<lparr>out_jobs := jobs\<rparr>), s')
      | (Ret (None, jobs), s') \<Rightarrow>
          (Ret \<lparr>out_calls = [JSON 200 [(''message'', BString text_order_deleted)]],
             out_audits = [status_change orderID (AnyString ''Deleted'')], out_jobs = jobs, out_metrics = []\<rparr>, s'))"

definition issue_refund_answer ::
    "order_status \<Rightarrow> (goerror + issue_refund_response) \<times> 's \<Rightarrow> outcome \<times> 's" where
  "issue_refund_answer status res = (case res of
      (Inl e, s') \<Rightarrow> (server_error e, s')
    | (Inr result, s') \<Rightarrow>
        (\<lparr>out_calls = [JSON 200 [(''processed_order_ids'', BStrings (ProcessedOrderIDs result)),
             (''failed_order_ids'', BStrings (FailedOrderIds result)),
             (''error'', BString (ResponseError result))]],
          out_audits = map (\<lambda>i. status_change i (AnyStatus status)) (ProcessedOrderIDs result),
          out_jobs = [], out_metrics = []\<rparr>, s'))"

definition APIHandler_IssueRefundOrders ::
    "('w, 'r) order_service \<Rightarrow> ('b \<Rightarrow> string + issue_refund_request) \<Rightarrow> time \<Rightarrow> (nat \<Rightarrow> time \<times> time) \<Rightarrow> 'b \<Rightarrow>
     'w \<times> 'r \<Rightarrow> outcome \<times> 'w \<times> 'r" where
  "APIHandler_IssueRefundOrders SV bindJSON now clock body s =
     (case bindJSON body of
        Inl err \<Rightarrow> (wrong_json err, s)
      | Inr req \<Rightarrow>
          (if req_Command req = ''issue''
           then issue_refund_answer StatusIssued
             (orderService_IssueOrders SV now clock (req_UserID req) (req_OrderIDs req) s)
           else if req_Command req = ''refund''
           then issue_refund_answer StatusRefunded
             (orderService_RefundOrders SV now (req_UserID req) (req_OrderIDs req) s)
           else (bad_request text_wrong_command, s)))"

section \<open>Reports\<close>

text \<open>The page size: ten if the request has none; \<open>None\<close> is a text that is refused.\<close>

definition parse_limit :: "string \<Rightarrow> int option" where
  "parse_limit limitParam =
     (if limitParam = [] then Some 10
      else case Atoi limitParam of None \<Rightarrow> None | Some limit \<Rightarrow> if limit < 1 then None else Some limit)"

definition parse_id_cursor :: "string \<Rightarrow> int option option" where
  "parse_id_cursor cursor = (if cursor = [] then Some None else map_option Some (Atoi cursor))"

text \<open>
  The cursor of the history is a time and a number. The driver sends the wall clock of a time as the
  parameter of type \<^verbatim>\<open>timestamp\<close> and drops its zone, so the wall clock is what is kept.
\<close>

definition parse_history_cursor :: "string \<Rightarrow> string + time \<times> int" where
  "parse_history_cursor cursor =
     (if cursor = [] then Inr (0, 0)
      else case split_on (CHR '','') cursor of
        [a, b] \<Rightarrow> (case Parse_RFC3339 a of
            None \<Rightarrow> Inl text_wrong_cursor_time
          | Some (wall, zone) \<Rightarrow> (case Atoi b of None \<Rightarrow> Inl text_wrong_cursor_id | Some i \<Rightarrow> Inr (wall, i)))
      | _ \<Rightarrow> Inl text_cursor_format)"

definition page_answer :: "(goerror + order_response list \<times> string) \<times> 's \<Rightarrow> outcome \<times> 's" where
  "page_answer res = (case res of
      (Inl e, s') \<Rightarrow> (server_error e, s')
    | (Inr (os, nextCursor), s') \<Rightarrow>
        (answer 200 ((''orders'', BResponses os) #
           (if nextCursor \<noteq> [] then [(''next_cursor'', BString nextCursor)] else [])), s'))"

definition APIHandler_GetUserOrders ::
    "('w, 'r) order_service \<Rightarrow> string \<Rightarrow> (string \<Rightarrow> string) \<Rightarrow> 'w \<times> 'r \<Rightarrow> outcome \<times> 'w \<times> 'r" where
  "APIHandler_GetUserOrders SV userID query s =
     (if userID = [] then (bad_request text_need_user_id, s)
      else case parse_limit (query ''limit'') of
        None \<Rightarrow> (bad_request text_limit_format, s)
      | Some limit \<Rightarrow>
          (case parse_id_cursor (query ''cursor'') of
             None \<Rightarrow> (bad_request text_cursor_format, s)
           | Some cursor \<Rightarrow> page_answer (orderService_GetUserOrders SV userID limit cursor (query ''status'') s)))"

definition APIHandler_GetRefundedOrders ::
    "('w, 'r) order_service \<Rightarrow> (string \<Rightarrow> string) \<Rightarrow> 'w \<times> 'r \<Rightarrow> outcome \<times> 'w \<times> 'r" where
  "APIHandler_GetRefundedOrders SV query s =
     (case parse_limit (query ''limit'') of
        None \<Rightarrow> (bad_request text_limit_format, s)
      | Some limit \<Rightarrow>
          (case parse_id_cursor (query ''cursor'') of
             None \<Rightarrow> (bad_request text_cursor_format, s)
           | Some cursor \<Rightarrow> page_answer (orderService_GetRefundedOrders SV limit cursor s)))"

definition APIHandler_GetOrderHistory ::
    "('w, 'r) order_service \<Rightarrow> (string \<Rightarrow> string) \<Rightarrow> 'w \<times> 'r \<Rightarrow> outcome \<times> 'w \<times> 'r" where
  "APIHandler_GetOrderHistory SV query s =
     (case parse_limit (query ''limit'') of
        None \<Rightarrow> (bad_request text_wrong_limit, s)
      | Some limit \<Rightarrow>
          (case parse_history_cursor (query ''cursor'') of
             Inl msg \<Rightarrow> (bad_request msg, s)
           | Inr (lastUpdated, idCursor) \<Rightarrow> page_answer (orderService_GetOrderHistory SV limit lastUpdated idCursor s)))"

definition orders_answer :: "((goerror + order list) \<times> metric_call list) \<times> 's \<Rightarrow> outcome \<times> 's" where
  "orders_answer res = (case res of
      ((Inl e, ms), s') \<Rightarrow> ((server_error e)\<lparr>out_metrics := ms\<rparr>, s')
    | ((Inr os, ms), s') \<Rightarrow> ((answer 200 [(''orders'', BOrders os)])\<lparr>out_metrics := ms\<rparr>, s'))"

definition APIHandler_GetUserActiveOrders ::
    "('w, 'r) order_service \<Rightarrow> time \<Rightarrow> (nat \<Rightarrow> time) \<Rightarrow> time \<times> time \<Rightarrow> string \<Rightarrow> 'w \<times> 'r \<Rightarrow> outcome \<times> 'w \<times> 'r" where
  "APIHandler_GetUserActiveOrders SV now clock timed userID s =
     (if userID = [] then (bad_request text_need_user_id, s)
      else orders_answer (orderService_GetUserActiveOrders SV now clock timed userID s))"

definition APIHandler_GetAllActiveOrders ::
    "('w, 'r) order_service \<Rightarrow> time \<Rightarrow> (nat \<Rightarrow> time) \<Rightarrow> time \<times> time \<Rightarrow> 'w \<times> 'r \<Rightarrow> outcome \<times> 'w \<times> 'r" where
  "APIHandler_GetAllActiveOrders SV now clock timed s =
     orders_answer (orderService_GetAllActiveOrders SV now clock timed s)"

text \<open>The second version of the history calls no collector.\<close>

definition unmeasured :: "'x \<times> 's \<Rightarrow> ('x \<times> metric_call list) \<times> 's" where
  "unmeasured res = (case res of (x, s) \<Rightarrow> ((x, []), s))"

definition APIHandler_GetOrderHistoryV2 ::
    "('w, 'r) order_service \<Rightarrow> ((string \<times> order) list \<Rightarrow> (string \<times> order) list) \<Rightarrow> 'w \<times> 'r \<Rightarrow> outcome \<times> 'w \<times> 'r" where
  "APIHandler_GetOrderHistoryV2 SV iter s = orders_answer (unmeasured (orderService_GetOrderHistoryV2 SV iter s))"

definition APIHandler_GetMetrics :: "'s \<Rightarrow> outcome \<times> 's" where
  "APIHandler_GetMetrics s = (\<lparr>out_calls = [ServeMetrics], out_audits = [], out_jobs = [], out_metrics = []\<rparr>, s)"

section \<open>Users\<close>

definition AuthHandler_Signup ::
    "bcrypt \<Rightarrow> 'w auth_storage \<Rightarrow> ('b \<Rightarrow> string + signup_request) \<Rightarrow> nat \<Rightarrow> 'b \<Rightarrow> 'w \<Rightarrow> outcome \<times> 'w" where
  "AuthHandler_Signup B S bindJSON salt body w =
     (case bindJSON body of
        Inl err \<Rightarrow> (bad_request (Error ErrWrongJSON), w)
      | Inr req \<Rightarrow>
          (case authService_Register B S salt \<lparr>Email = req_Email req, Password = req_Password req\<rparr> w of
             ((Some e, u), w') \<Rightarrow>
               (if errors_Is e ErrUserAlreadyExists then answer 409 [(''error'', BString (Error e))]
                else if errors_Is e ErrDatabase \<or> errors_Is e ErrHashPassword then server_error e
                else bad_request (Error e), w')
           | ((None, u), w') \<Rightarrow> (answer 201 [(''message'', BString text_user_registered)], w')))"

text \<open>
  After a failure to make the token the handler goes on: it has answered with an error and then sets the
  cookie to the empty text that came with the error and answers a second time.
\<close>

definition AuthHandler_Login ::
    "bcrypt \<Rightarrow> 'w auth_storage \<Rightarrow> ('b \<Rightarrow> string + user) \<Rightarrow>
     ((string \<times> json) list \<Rightarrow> string \<Rightarrow> goerror + string) \<Rightarrow> time \<Rightarrow> 'b \<Rightarrow> 'w \<Rightarrow> outcome go \<times> 'w" where
  "AuthHandler_Login B S bindJSON sign now body w =
     (case bindJSON body of
        Inl err \<Rightarrow> (Ret (bad_request err), w)
      | Inr user \<Rightarrow>
          (case authService_Login B S user w of
             (Panic, w') \<Rightarrow> (Panic, w')
           | (Ret (Some e), w') \<Rightarrow>
               (Ret (if errors_Is e ErrDatabase then server_error e else bad_request (Error e)), w')
           | (Ret None, w') \<Rightarrow>
               (let (failed, tok) = (case authService_GenerateToken sign now (Email user) of
                      Inl e \<Rightarrow> ([JSON 500 [(''error'', BError ErrTokenGeneration)]], [])
                    | Inr t \<Rightarrow> ([], t))
                in (Ret \<lparr>out_calls = failed @ [SetCookie ''jwt'' tok (TokenExpiration div second),
                       JSON 200 [(''message'', BString text_login_done)]],
                     out_audits = [], out_jobs = [], out_metrics = []\<rparr>, w'))))"

end
