(* ===== verification/Http_Server.thy ===== *)
theory Http_Server
  imports Http_Api
begin

text \<open>
  The HTTP server around the handlers: the table of routes (\<^verbatim>\<open>internal/router/routes.go\<close>) and
  the middleware (\<^verbatim>\<open>internal/middleware\<close>). Finding the route of a request is gin's work: a
  request comes with its row of the table. gin's \<^verbatim>\<open>Recovery\<close>, which
  \<^verbatim>\<open>gin.Default\<close> installs first, turns a panic into an empty answer with status 500.
\<close>

section \<open>Routes\<close>

datatype endpoint =
    AcceptOrder_ep | ReturnOrder_ep | IssueRefundOrders_ep
  | GetUserOrders_ep | GetRefundedOrders_ep | GetOrderHistory_ep
  | GetUserActiveOrders_ep | GetAllActiveOrders_ep | GetOrderHistoryV2_ep
  | Signup_ep | Login_ep | Health_ep | Metrics_ep

datatype guard = Guarded | Open

definition routes :: "(string \<times> string \<times> guard \<times> endpoint) list" where
  "routes =
    [(''POST'', ''/orders'', Guarded, AcceptOrder_ep),
     (''DELETE'', ''/orders/:id/return'', Guarded, ReturnOrder_ep),
     (''PUT'', ''/actions/issues_refunds'', Guarded, IssueRefundOrders_ep),
     (''GET'', ''/reports/:user_id/orders'', Guarded, GetUserOrders_ep),
     (''GET'', ''/reports/refunded'', Guarded, GetRefundedOrders_ep),
     (''GET'', ''/reports/history'', Guarded, GetOrderHistory_ep),
     (''GET'', ''/reports/:user_id/orders/active'', Guarded, GetUserActiveOrders_ep),
     (''GET'', ''/reports/active'', Guarded, GetAllActiveOrders_ep),
     (''GET'', ''/reports/history/v2'', Guarded, GetOrderHistoryV2_ep),
     (''POST'', ''/users/signup'', Open, Signup_ep),
     (''POST'', ''/users/login'', Open, Login_ep),
     (''GET'', ''/health'', Open, Health_ep),
     (''GET'', ''/metrics'', Open, Metrics_ep)]"

section \<open>Requests\<close>

text \<open>\<open>rq_full_path\<close> is the path of the row of the table; \<open>rq_cookie\<close> is the value of the cookie
  \<^verbatim>\<open>jwt\<close>, if there is one; \<open>rq_param\<close> gives the path parameters.\<close>

record 'b http_request =
  rq_method :: string
  rq_path :: string
  rq_full_path :: string
  rq_cookie :: "string option"
  rq_param :: "string \<Rightarrow> string"
  rq_query :: "string \<Rightarrow> string"
  rq_body :: 'b

text \<open>The services and libraries behind the handlers. \<open>srv_verify\<close> is
  \<^verbatim>\<open>jwt.Parse\<close> with the given key: an error, or whether the token is valid.\<close>

record ('w, 'r, 'b) http_env =
  srv_orders :: "('w, 'r) order_service"
  srv_users :: "'w auth_storage"
  srv_bcrypt :: bcrypt
  srv_sign :: "(string \<times> json) list \<Rightarrow> string \<Rightarrow> goerror + string"
  srv_verify :: "string \<Rightarrow> string \<Rightarrow> goerror + bool"
  srv_bind_accept :: "'b \<Rightarrow> string + accept_order_request"
  srv_bind_issue :: "'b \<Rightarrow> string + issue_refund_request"
  srv_bind_signup :: "'b \<Rightarrow> string + signup_request"
  srv_bind_user :: "'b \<Rightarrow> string + user"

text \<open>What a request reads from outside: the clock, the salt of a hash and the order of a map. The clock is
  also read around the service's operations and around the whole request, to observe how long they took.\<close>

record chance =
  ch_now :: "time \<times> time \<times> time"
  ch_clock :: "nat \<Rightarrow> time \<times> time"
  ch_timed :: "time \<times> time"
  ch_request :: "time \<times> time"
  ch_salt :: nat
  ch_iter :: "(string \<times> order) list \<Rightarrow> (string \<times> order) list"

definition on_users :: "('w \<Rightarrow> 'x \<times> 'w) \<Rightarrow> 'w \<times> 'r \<Rightarrow> 'x \<times> 'w \<times> 'r" where
  "on_users f s = on_db f s"

definition returned :: "'x \<times> 's \<Rightarrow> 'x go \<times> 's" where
  "returned res = (case res of (x, s) \<Rightarrow> (Ret x, s))"

definition dispatch ::
    "('w, 'r, 'b) http_env \<Rightarrow> chance \<Rightarrow> endpoint \<Rightarrow> 'b http_request \<Rightarrow> 'w \<times> 'r \<Rightarrow> outcome go \<times> 'w \<times> 'r" where
  "dispatch H ch ep rq s = (let SV = srv_orders H; now = fst (ch_now ch) in case ep of
      AcceptOrder_ep \<Rightarrow> returned (APIHandler_AcceptOrder SV (srv_bind_accept H) (ch_now ch) (rq_body rq) s)
    | ReturnOrder_ep \<Rightarrow> APIHandler_ReturnOrder SV now (rq_param rq ''id'') s
    | IssueRefundOrders_ep \<Rightarrow>
        returned (APIHandler_IssueRefundOrders SV (srv_bind_issue H) now (ch_clock ch) (rq_body rq) s)
    | GetUserOrders_ep \<Rightarrow> returned (APIHandler_GetUserOrders SV (rq_param rq ''user_id'') (rq_query rq) s)
    | GetRefundedOrders_ep \<Rightarrow> returned (APIHandler_GetRefundedOrders SV (rq_query rq) s)
    | GetOrderHistory_ep \<Rightarrow> returned (APIHandler_GetOrderHistory SV (rq_query rq) s)
    | GetUserActiveOrders_ep \<Rightarrow>
        returned (APIHandler_GetUserActiveOrders SV now (fst \<circ> ch_clock ch) (ch_timed ch) (rq_param rq ''user_id'') s)
    | GetAllActiveOrders_ep \<Rightarrow> returned (APIHandler_GetAllActiveOrders SV now (fst \<circ> ch_clock ch) (ch_timed ch) s)
    | GetOrderHistoryV2_ep \<Rightarrow> returned (APIHandler_GetOrderHistoryV2 SV (ch_iter ch) s)
    | Signup_ep \<Rightarrow> returned (on_users
        (AuthHandler_Signup (srv_bcrypt H) (srv_users H) (srv_bind_signup H) (ch_salt ch) (rq_body rq)) s)
    | Login_ep \<Rightarrow> on_users
        (AuthHandler_Login (srv_bcrypt H) (srv_users H) (srv_bind_user H) (srv_sign H) now (rq_body rq)) s
    | Health_ep \<Rightarrow> (Ret \<lparr>out_calls = [SetStatus 200], out_audits = [], out_jobs = [], out_metrics = []\<rparr>, s)
    | Metrics_ep \<Rightarrow> returned (APIHandler_GetMetrics s))"

section \<open>Middleware\<close>

text \<open>\<^verbatim>\<open>c.Writer.Status()\<close>: the first call that writes an answer settles the status. The handler of
  the metrics leaves it as it is unless the library cannot gather them, which it answers 500 itself.\<close>

fun writer_status :: "int \<Rightarrow> gin_call list \<Rightarrow> int" where
  "writer_status st [] = st"
| "writer_status st (JSON c d # cs) = c"
| "writer_status st (AbortWithStatusJSON c d # cs) = c"
| "writer_status st (ServeMetrics # cs) = st"
| "writer_status st (SetStatus c # cs) = writer_status c cs"
| "writer_status st (SetCookie n v a # cs) = writer_status st cs"

definition unauthorized :: "string \<Rightarrow> outcome" where
  "unauthorized msg = \<lparr>out_calls = [AbortWithStatusJSON 401 [(''error'', BString msg)]], out_audits = [], out_jobs = [],
     out_metrics = []\<rparr>"

definition AuthMiddleware ::
    "(string \<Rightarrow> string \<Rightarrow> goerror + bool) \<Rightarrow> string option \<Rightarrow> ('s \<Rightarrow> outcome go \<times> 's) \<Rightarrow> 's \<Rightarrow> outcome go \<times> 's" where
  "AuthMiddleware verify cookie next s =
     (case cookie of
        None \<Rightarrow> (Ret (unauthorized text_login_needed), s)
      | Some tokenString \<Rightarrow>
          (case verify tokenString JwtSecret of
             Inl e \<Rightarrow> (Ret (unauthorized text_login_again), s)
           | Inr valid \<Rightarrow> if \<not> valid then (Ret (unauthorized text_login_again), s) else next s))"

text \<open>\<^verbatim>\<open>http.StatusText\<close> for the statuses of the program.\<close>

definition StatusText :: "int \<Rightarrow> string" where
  "StatusText code = (case map_of [(200, ''OK''), (201, ''Created''), (400, ''Bad Request''), (401, ''Unauthorized''),
     (409, ''Conflict''), (500, ''Internal Server Error'')] code of None \<Rightarrow> [] | Some t \<Rightarrow> t)"

text \<open>A panic passes through both: the time of the request and the event for the response are then lost.\<close>

definition MetricsMiddleware ::
    "time \<times> time \<Rightarrow> string \<Rightarrow> string \<Rightarrow> ('s \<Rightarrow> outcome go \<times> 's) \<Rightarrow> 's \<Rightarrow> outcome go \<times> 's" where
  "MetricsMiddleware timed fullPath meth next s =
     (case next s of
        (Panic, s') \<Rightarrow> (Panic, s')
      | (Ret out, s') \<Rightarrow>
          (Ret (out\<lparr>out_metrics := out_metrics out @
             [Observe APIResponseTime [fullPath, meth, StatusText (writer_status 200 (out_calls out))]
                (Seconds (time_Sub (snd timed) (fst timed)))]\<rparr>), s'))"

definition AuditMiddleware ::
    "string \<Rightarrow> string \<Rightarrow> ('s \<Rightarrow> outcome go \<times> 's) \<Rightarrow> 's \<Rightarrow> (outcome go \<times> audit_call list \<times> metric_call list) \<times> 's" where
  "AuditMiddleware meth path next s =
     (let request = (EventAPIRequest, [(''method'', AnyString meth), (''path'', AnyString path)]);
          counted = Inc HTTPRequestCount [meth, path]
      in case next s of
        (Panic, s') \<Rightarrow> ((Panic, [request], [counted]), s')
      | (Ret out, s') \<Rightarrow>
          (let status = writer_status 200 (out_calls out)
           in ((Ret out,
                request # out_audits out @ [(EventAPIResponse, [(''status'', AnyInt status), (''path'', AnyString path)])],
                counted # out_metrics out @ [Inc HTTPResponseStatusCount [Itoa status, path]]), s')))"

text \<open>gin's recovery: an empty answer with status 500.\<close>

definition recovered :: "(outcome go \<times> audit_call list \<times> metric_call list) \<times> 's \<Rightarrow> outcome \<times> 's" where
  "recovered res = (case res of
      ((Panic, audits, ms), s) \<Rightarrow> (\<lparr>out_calls = [SetStatus 500], out_audits = audits, out_jobs = [], out_metrics = ms\<rparr>, s)
    | ((Ret out, audits, ms), s) \<Rightarrow> (out\<lparr>out_audits := audits, out_metrics := ms\<rparr>, s))"

text \<open>The order of the chain: recovery, audit, metrics, the check of the token where the group has it, the handler.\<close>

definition serve ::
    "('w, 'r, 'b) http_env \<Rightarrow> chance \<Rightarrow> guard \<times> endpoint \<Rightarrow> 'b http_request \<Rightarrow> 'w \<times> 'r \<Rightarrow> outcome \<times> 'w \<times> 'r" where
  "serve H ch route rq s = (case route of (g, ep) \<Rightarrow>
     recovered (AuditMiddleware (rq_method rq) (rq_path rq)
       (MetricsMiddleware (ch_request ch) (rq_full_path rq) (rq_method rq)
         (case g of
            Guarded \<Rightarrow> AuthMiddleware (srv_verify H) (rq_cookie rq) (dispatch H ch ep rq)
          | Open \<Rightarrow> dispatch H ch ep rq)) s))"

section \<open>Facts\<close>

abbreviation answered :: "outcome \<Rightarrow> int" where
  "answered out \<equiv> writer_status 200 (out_calls out)"

lemma outcome_simps [simp]:
  "out_calls (answer c d) = [JSON c d]" "out_audits (answer c d) = []" "out_jobs (answer c d) = []" "out_metrics (answer c d) = []"
  "bad_request m = answer 400 [(''error'', BString m)]"
  "server_error e = answer 500 [(''error'', BString (Error e))]"
  by (simp_all add: answer_def bad_request_def server_error_def)

lemma ParsePackaging_error: "ParsePackaging s = Inl e \<Longrightarrow> unwrap e = None \<and> e \<notin> {ErrDuplicateOrder, ErrDatabase}"
proof -
  have parts: "parse_parts ps a b = Inl e \<Longrightarrow> unwrap e = None \<and> e \<notin> {ErrDuplicateOrder, ErrDatabase}" for ps a b
    by (induction ps a b rule: parse_parts.induct)
      (auto simp: ErrUnknownPackaging_def ErrMainPackagings_def unwrap_def packaging_of_def split: option.splits if_splits)
  assume "ParsePackaging s = Inl e"
  with parts show ?thesis by (auto simp: ParsePackaging_def Let_def split: sum.splits prod.splits option.splits if_splits)
qed

context order_store
begin

lemma accept_duplicate:
  assumes "valid w" "orderRepository_AcceptOrder S now1 now2 o1 w = (Some e, w')" "errors_Is e ErrDuplicateOrder"
  shows "stored w (ID o1) \<noteq> None"
proof -
  obtain r w1 where f: "os_FindOrderByID S (ID o1) w = (r, w1)" by fastforce
  have "\<exists>o2. r = Inr o2"
    using assms(2,3) f ParsePackaging_error [of "Packaging o1" e]
    by (auto simp: orderRepository_AcceptOrder_def errors_Is_flat unwrap_def
        split: if_splits sum.splits prod.splits option.splits)
  with find_law [OF assms(1) f] show ?thesis by auto
qed

end

text \<open>What a decoded request to take an order in leads to.\<close>

lemma AcceptOrder_decoded:
  assumes "bindJSON body = Inr req" "Parse_date (req_Expiry req) = Some day"
    and "orderRepository_AcceptOrder (svc_orders SV) t1 t2 (order_of_request day t0 req) w = (q, w')"
  shows "\<exists>out. APIHandler_AcceptOrder SV bindJSON (t0, t1, t2) body (w, r) = (out, w', r) \<and>
    (case q of
       None \<Rightarrow> answered out = 201 \<and> out_audits out = [status_change (req_ID req) (AnyStatus StatusStored)] \<and>
         out_jobs out = [AfterAccept (order_of_request day t0 req)]
     | Some e \<Rightarrow> out_audits out = [] \<and> out_jobs out = [] \<and>
         answered out = (if errors_Is e ErrDatabase then 500 else if errors_Is e ErrDuplicateOrder then 409 else 400))"
  using assms by (cases q) (auto simp: APIHandler_AcceptOrder_def orderService_AcceptOrder_def)

lemma AcceptOrder_undecoded:
  assumes "\<nexists>req day. bindJSON body = Inr req \<and> Parse_date (req_Expiry req) = Some day"
  shows "\<exists>out. APIHandler_AcceptOrder SV bindJSON now body s = (out, s) \<and> answered out = 400 \<and>
    out_audits out = [] \<and> out_jobs out = []"
  using assms by (auto simp: APIHandler_AcceptOrder_def wrong_json_def split: sum.splits option.splits)

lemma issue_refund_failed:
  assumes "issue_refund_answer st (Inl e, w1, r1) = (out, w', r')" "same_tables w w1"
  shows "out = server_error e \<and> r' = r1 \<and> stored_orders w' = stored_orders w"
  using assms by (auto simp: issue_refund_answer_def same_tables_def stored_orders_def fun_eq_iff)

lemma issue_refund_done:
  assumes "issue_refund_answer st (Inr (processed_response y), s1) = (out, s2)"
  shows "s2 = s1 \<and> answered out = 200 \<and> out_jobs out = [] \<and>
    out_audits out = map (\<lambda>i. status_change i (AnyStatus st)) (OrderIDs y) \<and>
    out_calls out = [JSON 200 [(''processed_order_ids'', BStrings (OrderIDs y)), (''failed_order_ids'', BStrings (Failed y)),
      (''error'', BString (errorToString (ProcError y)))]]"
  using assms by (auto simp: issue_refund_answer_def processed_response_def)

text \<open>A cookie that the library accepts with the program's key.\<close>

definition authorized :: "('w, 'r, 'b) http_env \<Rightarrow> 'b http_request \<Rightarrow> bool" where
  "authorized H rq = (case rq_cookie rq of None \<Rightarrow> False | Some t \<Rightarrow> srv_verify H t JwtSecret = Inr True)"

text \<open>The users' storage does not touch the orders.\<close>

lemma auth_keeps_orders:
  "orders (snd (as_GetUserByEmail pg_auth_storage m w)) = orders w"
  "orders (snd (as_CreateUser pg_auth_storage u w)) = orders w"
  by (auto simp: pg_auth_storage_def AuthStorage_GetUserByEmail_def AuthStorage_CreateUser_def query_row_def db_query_def
      db_call_def next_reply_def split: prod.splits sum.splits list.splits option.splits reply.splits if_splits)

lemma Signup_keeps_orders:
  "AuthHandler_Signup B pg_auth_storage bindJSON salt body w = (out, w') \<Longrightarrow> orders w' = orders w \<and> out_jobs out = []"
  using auth_keeps_orders
  by (auto simp: AuthHandler_Signup_def authService_Register_def AuthRepository_Register_def
      split: sum.splits prod.splits option.splits if_splits) (metis snd_conv)+

lemma Login_keeps_orders:
  "AuthHandler_Login B pg_auth_storage bindJSON sign now body w = (q, w') \<Longrightarrow>
    orders w' = orders w \<and> (case q of Panic \<Rightarrow> True | Ret out \<Rightarrow> out_jobs out = [])"
  using auth_keeps_orders(1) [of _ w]
  by (auto simp: AuthHandler_Login_def authService_Login_def AuthRepository_Login_def Let_def
      split: sum.splits prod.splits option.splits if_splits) (metis snd_conv)+

lemma dispatch_open:
  assumes "ep \<in> {Signup_ep, Login_ep, Health_ep, Metrics_ep}" "srv_users H = pg_auth_storage"
    and "dispatch H ch ep rq (w, r) = (q, w', r')"
  shows "orders w' = orders w \<and> r' = r \<and> (case q of Panic \<Rightarrow> True | Ret out \<Rightarrow> out_jobs out = [])"
  using assms
  by (auto simp: dispatch_def Let_def returned_def on_users_def APIHandler_GetMetrics_def
      dest!: Signup_keeps_orders Login_keeps_orders split: prod.splits)

text \<open>The services only call collectors of their own, and fit them.\<close>

lemma active_metrics_inner [simp]: "list_all inner_metric (active_metrics op timed res)"
  by (simp add: active_metrics_def inner_metric_def collector_desc_def)

lemma active_inner:
  "list_all inner_metric (snd (fst (orderService_GetUserActiveOrders SV now clock timed u s)))"
  "list_all inner_metric (snd (fst (orderService_GetAllActiveOrders SV now clock timed s)))"
  "list_all inner_metric (snd (fst (unmeasured x)))"
  by (auto simp: orderService_GetUserActiveOrders_def orderService_GetAllActiveOrders_def unmeasured_def Let_def
      split: prod.splits sum.splits)

text \<open>What a handler answers: the statuses, one answer at most except for a login, fitting calls of collectors.\<close>

fun is_answer :: "gin_call \<Rightarrow> bool" where
  "is_answer (JSON c d) = True"
| "is_answer (AbortWithStatusJSON c d) = True"
| "is_answer ServeMetrics = True"
| "is_answer _ = False"

definition answers_ok :: "nat \<Rightarrow> outcome \<Rightarrow> bool" where
  "answers_ok n out \<longleftrightarrow> answered out \<in> {200, 201, 400, 401, 409, 500} \<and> list_all inner_metric (out_metrics out) \<and>
     length (filter is_answer (out_calls out)) \<le> n"

lemma answers_ok_answer [simp]: "answers_ok (Suc n) (answer c d) \<longleftrightarrow> c \<in> {200, 201, 400, 401, 409, 500}"
  by (simp add: answers_ok_def)

lemma handlers_ok:
  "answers_ok (Suc 0) (fst (APIHandler_AcceptOrder SV bindA now3 body s))"
  "APIHandler_ReturnOrder SV now i s = (Ret out, s') \<Longrightarrow> answers_ok (Suc 0) out"
  "answers_ok (Suc 0) (fst (APIHandler_IssueRefundOrders SV bindI now clock body s))"
  "answers_ok (Suc 0) (fst (page_answer res))"
  "list_all inner_metric (snd (fst ores)) \<Longrightarrow> answers_ok (Suc 0) (fst (orders_answer ores))"
  "answers_ok (Suc 0) (fst (APIHandler_GetMetrics s))"
  "answers_ok (Suc 0) (fst (AuthHandler_Signup B S bindS salt body w))"
  "AuthHandler_Login B S bindU sign now body w = (Ret out, w') \<Longrightarrow> answers_ok 2 out"
proof (goal_cases)
  case 1 show ?case by (auto simp: answers_ok_def APIHandler_AcceptOrder_def wrong_json_def split: sum.splits option.splits prod.splits)
next
  case 2 then show ?case by (auto simp: answers_ok_def APIHandler_ReturnOrder_def split: if_splits go.splits option.splits prod.splits)
next
  case 3 show ?case
    by (auto simp: answers_ok_def APIHandler_IssueRefundOrders_def issue_refund_answer_def wrong_json_def split: sum.splits prod.splits)
next
  case 4 show ?case by (auto simp: answers_ok_def page_answer_def split: sum.splits prod.splits)
next
  case 5 then show ?case by (auto simp: answers_ok_def orders_answer_def split: sum.splits prod.splits)
next
  case 6 show ?case by (simp add: answers_ok_def APIHandler_GetMetrics_def)
next
  case 7 show ?case by (auto simp: answers_ok_def AuthHandler_Signup_def split: sum.splits option.splits prod.splits)
next
  case 8 then show ?case
    by (auto simp: answers_ok_def AuthHandler_Login_def Let_def split: sum.splits option.splits prod.splits go.splits if_splits)
qed

lemma report_handlers_ok:
  "answers_ok (Suc 0) (fst (APIHandler_GetUserOrders SV u query s))"
  "answers_ok (Suc 0) (fst (APIHandler_GetRefundedOrders SV query s))"
  "answers_ok (Suc 0) (fst (APIHandler_GetOrderHistory SV query s))"
  "answers_ok (Suc 0) (fst (APIHandler_GetUserActiveOrders SV now clock timed u s))"
  "answers_ok (Suc 0) (fst (APIHandler_GetAllActiveOrders SV now clock timed s))"
  "answers_ok (Suc 0) (fst (APIHandler_GetOrderHistoryV2 SV iter s))"
  by (auto simp: handlers_ok(4,5) active_inner APIHandler_GetUserOrders_def APIHandler_GetRefundedOrders_def APIHandler_GetOrderHistory_def
      APIHandler_GetUserActiveOrders_def APIHandler_GetAllActiveOrders_def APIHandler_GetOrderHistoryV2_def
      split: option.splits sum.splits prod.splits)

lemma returned_Ret: "returned x = (Ret out, s') \<Longrightarrow> out = fst x"
  by (auto simp: returned_def split: prod.splits)

lemma dispatch_ok:
  assumes "dispatch H ch ep rq s = (Ret out, s')"
  shows "answers_ok (if ep = Login_ep then 2 else 1) out"
proof (cases ep)
  case ReturnOrder_ep
  with assms show ?thesis by (auto simp: dispatch_def Let_def intro: handlers_ok(2))
next
  case Login_ep
  with assms show ?thesis by (auto simp: dispatch_def Let_def on_users_def on_db_def split: prod.splits intro: handlers_ok(8))
next
  case Signup_ep
  with assms handlers_ok(7) show ?thesis by (auto simp: dispatch_def Let_def on_users_def on_db_def split_beta dest!: returned_Ret)
next
  case Health_ep
  with assms show ?thesis by (auto simp: dispatch_def Let_def answers_ok_def)
qed (use assms in \<open>auto simp: dispatch_def Let_def handlers_ok report_handlers_ok dest!: returned_Ret\<close>)

lemma guarded_ok:
  assumes "(case g of Guarded \<Rightarrow> AuthMiddleware verify cookie (dispatch H ch ep rq) | Open \<Rightarrow> dispatch H ch ep rq) s = (Ret out, s')"
  shows "answers_ok (if ep = Login_ep then 2 else 1) out"
proof -
  have "answers_ok (if ep = Login_ep then 2 else 1) (unauthorized msg)" for msg by (simp add: answers_ok_def unauthorized_def)
  with assms show ?thesis
    by (auto simp: AuthMiddleware_def dest: dispatch_ok split: guard.splits option.splits sum.splits if_splits)
qed

text \<open>A request used as an example: the day is the first of all, so the order expires after 24 hours.\<close>

definition sample_request :: accept_order_request where
  "sample_request = \<lparr>req_ID = ''a'', req_RecipientID = ''u'', req_Expiry = ''0001-01-01'', req_BasePrice = Fin 100,
     req_Weight = Fin 2, req_Packaging = sample_packaging\<rparr>"

lemma sample_request_day: "Parse_date (req_Expiry sample_request) = Some 0" "req_ID sample_request = ''a''"
  by (simp_all add: sample_request_def) code_simp

lemma sample_order_request:
  "order_of_request 0 t sample_request = (sample_order ''a'' ''u'')\<lparr>Expiry := 24 * hour, StoredAt := Some t\<rparr>"
  by (simp add: order_of_request_def sample_request_def sample_order_def)

definition sample_http :: "(pg, string \<Rightarrow> redis_data option, unit) http_env" where
  "sample_http = \<lparr>srv_orders = NewOrderService sample_env mem_client, srv_users = pg_auth_storage, srv_bcrypt = sample_bcrypt,
     srv_sign = (\<lambda>claims key. Inr key), srv_verify = (\<lambda>tok key. if tok = key then Inr True else Inl (ErrText ''signature is invalid'')),
     srv_bind_accept = (\<lambda>_. Inr sample_request), srv_bind_issue = (\<lambda>_. Inl ''EOF''), srv_bind_signup = (\<lambda>_. Inl ''EOF''),
     srv_bind_user = (\<lambda>_. Inl ''EOF'')\<rparr>"

definition sample_http_request :: "unit http_request" where
  "sample_http_request = \<lparr>rq_method = ''POST'', rq_path = ''/orders'', rq_full_path = ''/orders'', rq_cookie = Some ''forged'', rq_param = (\<lambda>_. []),
     rq_query = (\<lambda>_. []), rq_body = ()\<rparr>"

definition sample_chance :: chance where
  "sample_chance = \<lparr>ch_now = (1000, 1500, 2000), ch_clock = (\<lambda>_. (2000, 2000)), ch_timed = (1000, 2000), ch_request = (1000, 2000),
     ch_salt = 0, ch_iter = id\<rparr>"

section \<open>Properties\<close>

text \<open>
  (C14) Taking an order in over HTTP, under every pattern of server failures: the answer is 201, 400, 409 or
  500; it is 201 exactly if the order is now in the table, with its time over at the end of the day the
  request names, and then one event and one job for the cache follow; any other answer means that no stored
  order has changed and nothing follows; 409 means that the id was taken.
\<close>

theorem http_AcceptOrder:
  assumes "orders_ok w" and "APIHandler_AcceptOrder (NewOrderService E C) bindJSON (t0, t1, t2) body (w, r) = (out, w', r')"
  shows "r' = r \<and> orders_ok w' \<and> answered out \<in> {201, 400, 409, 500} \<and>
    (if answered out = 201
     then \<exists>req day p o1. bindJSON body = Inr req \<and> Parse_date (req_Expiry req) = Some day \<and>
       o1 = order_of_request day t0 req \<and> t1 \<le> day + 24 * hour \<and> stored_orders w (req_ID req) = None \<and>
       stored_orders w' = (stored_orders w)(req_ID req \<mapsto> pg_kept E (taken_in p t2 o1)) \<and>
       out_audits out = [status_change (req_ID req) (AnyStatus StatusStored)] \<and> out_jobs out = [AfterAccept o1]
     else stored_orders w' = stored_orders w \<and> out_audits out = [] \<and> out_jobs out = [] \<and>
       (answered out = 409 \<longrightarrow> (\<exists>req. bindJSON body = Inr req \<and> stored_orders w (req_ID req) \<noteq> None)))"
proof (cases "\<exists>req day. bindJSON body = Inr req \<and> Parse_date (req_Expiry req) = Some day")
  case False
  from AcceptOrder_undecoded [where bindJSON = bindJSON and body = body and SV = "NewOrderService E C" and now = "(t0, t1, t2)"
      and s = "(w, r)", OF this] assms show ?thesis by auto
next
  case True
  then obtain req day where d: "bindJSON body = Inr req" "Parse_date (req_Expiry req) = Some day" by blast
  let ?o = "order_of_request day t0 req"
  have o: "ID ?o = req_ID req" "Expiry ?o = day + 24 * hour" by (simp_all add: order_of_request_def)
  obtain q w1 where a: "orderRepository_AcceptOrder (pg_order_storage E) t1 t2 ?o w = (q, w1)" by fastforce
  with AcceptOrder_decoded [where bindJSON = bindJSON and body = body and SV = "NewOrderService E C" and r = r,
      OF d, of t1 t2 t0 w q w1] assms(2)
  have ans: "r' = r" "w' = w1" "case q of
       None \<Rightarrow> answered out = 201 \<and> out_audits out = [status_change (req_ID req) (AnyStatus StatusStored)] \<and>
         out_jobs out = [AfterAccept ?o]
     | Some e \<Rightarrow> out_audits out = [] \<and> out_jobs out = [] \<and>
         answered out = (if errors_Is e ErrDatabase then 500 else if errors_Is e ErrDuplicateOrder then 409 else 400)"
    by auto
  show ?thesis
  proof (cases q)
    case None
    with pg_orders.accept_success [OF assms(1) a [unfolded None]] ans d o show ?thesis by auto
  next
    case (Some e)
    with pg_orders.accept_error [OF assms(1) a [unfolded Some]] pg_orders.accept_duplicate [OF assms(1) a [unfolded Some]] ans d o
    show ?thesis by auto
  qed
qed

theorem http_AcceptOrder_witness:
  "\<exists>out w'. APIHandler_AcceptOrder (NewOrderService sample_env mem_client) (\<lambda>_. Inr sample_request) (1000, 1500, 2000) ()
      (sample_db, Map.empty) = (out, w', Map.empty) \<and> answered out = 201 \<and>
    Expiry (the (stored_orders w' ''a'')) = 24 * hour"
proof -
  let ?o = "order_of_request 0 1000 sample_request"
  obtain q w1 where a: "orderRepository_AcceptOrder (pg_order_storage sample_env) 1500 2000 ?o sample_db = (q, w1)" by fastforce
  have "order_fits sample_env ?o"
    using sample_fits(2) by (simp add: sample_order_request order_fits_def)
  then have "fst (orderRepository_AcceptOrder (pg_order_storage sample_env) 1500 2000 ?o sample_db) = None"
    by (simp add: accept_table script_sample_db sample_order_request sample_order_film stored_sample_db sample_order_fields)
  with a have "q = None" by simp
  with a AcceptOrder_decoded [of "\<lambda>_. Inr sample_request" "()" sample_request 0 "NewOrderService sample_env mem_client" 1500 2000 1000
      sample_db q w1 Map.empty] obtain out where
    out: "APIHandler_AcceptOrder (NewOrderService sample_env mem_client) (\<lambda>_. Inr sample_request) (1000, 1500, 2000) ()
      (sample_db, Map.empty) = (out, w1, Map.empty)" "answered out = 201"
    by (auto simp: sample_request_day)
  with http_AcceptOrder [OF orders_ok_sample out(1)] show ?thesis
    by (auto simp: sample_request_day pg_kept_def taken_in_def order_of_request_def sample_env_def)
qed

text \<open>
  (C15) Issuing and refunding over HTTP, under every pattern of server failures: the answer is 200, 400 or 500.
  With 200 the table has changed as the specification of a batch says, and exactly one event follows for each
  order that was processed, with its new status; with any other answer no stored order has changed and no
  event follows.
\<close>

theorem http_IssueRefundOrders:
  assumes "orders_ok w"
    and "APIHandler_IssueRefundOrders (NewOrderService E C) bindJSON now clock body (w, r) = (out, w', r')"
  shows "answered out \<in> {200, 400, 500} \<and> out_jobs out = [] \<and>
    (if answered out = 200
     then \<exists>req res st check put. bindJSON body = Inr req \<and>
       (req_Command req, st, check, put) \<in> {(''issue'', StatusIssued, validateOrderForIssue, issued_order E now),
          (''refund'', StatusRefunded, validateOrderForRefund, refunded_order E now)} \<and>
       batch_spec (\<lambda>o1. check o1 (req_UserID req) now) put (req_UserID req) (req_OrderIDs req)
         (stored_orders w) res (stored_orders w') \<and>
       out_audits out = map (\<lambda>i. status_change i (AnyStatus st)) (OrderIDs res) \<and>
       out_calls out = [JSON 200 [(''processed_order_ids'', BStrings (OrderIDs res)), (''failed_order_ids'', BStrings (Failed res)),
         (''error'', BString (errorToString (ProcError res)))]]
     else stored_orders w' = stored_orders w \<and> out_audits out = [] \<and> r' = r)"
proof (cases "bindJSON body")
  case (Inl err)
  with assms show ?thesis by (auto simp: APIHandler_IssueRefundOrders_def wrong_json_def)
next
  case (Inr req)
  let ?u = "req_UserID req" and ?ids = "req_OrderIDs req"
  have batch: ?thesis if "issue_refund_answer st res = (out, w', r')"
      "case res of (Inl e, w1, r1) \<Rightarrow> same_tables w w1 \<and> r1 = r
       | (Inr x, w1, r1) \<Rightarrow> \<exists>y. x = processed_response y \<and>
           batch_spec (\<lambda>o1. check o1 ?u now) put ?u ?ids (stored_orders w) y (stored_orders w1)"
      "(req_Command req, st, check, put) \<in> {(''issue'', StatusIssued, validateOrderForIssue, issued_order E now),
          (''refund'', StatusRefunded, validateOrderForRefund, refunded_order E now)}" for st res check put
  proof (cases "fst res")
    case (Inl e)
    with that(2) obtain w1 where e: "res = (Inl e, w1, r)" "same_tables w w1" by (cases res) auto
    from issue_refund_failed [OF that(1) [unfolded e(1)] e(2)] show ?thesis by simp
  next
    case (Inr x)
    with that(2) obtain y w1 r1 where y: "res = (Inr (processed_response y), w1, r1)"
      "batch_spec (\<lambda>o1. check o1 ?u now) put ?u ?ids (stored_orders w) y (stored_orders w1)"
      by (cases res) auto
    from issue_refund_done [OF that(1) [unfolded y(1)]] y(2) that(3) \<open>bindJSON body = Inr req\<close> show ?thesis
      by (intro iffD2 [OF if_P] conjI exI [of _ req] exI [of _ y] exI [of _ st] exI [of _ check] exI [of _ put]) simp_all
  qed
  consider (issue) "req_Command req = ''issue''" | (refund) "req_Command req = ''refund''"
    | (other) "req_Command req \<notin> {''issue'', ''refund''}" by auto
  then show ?thesis
  proof cases
    case issue
    have "issue_refund_answer StatusIssued (orderService_IssueOrders (NewOrderService E C) now clock ?u ?ids (w, r)) = (out, w', r')"
      using assms(2) Inr issue by (simp add: APIHandler_IssueRefundOrders_def)
    then show ?thesis
    proof (rule batch [where check = validateOrderForIssue and put = "issued_order E now"])
      show "case orderService_IssueOrders (NewOrderService E C) now clock ?u ?ids (w, r) of (Inl e, w1, r1) \<Rightarrow> same_tables w w1 \<and> r1 = r
         | (Inr x, w1, r1) \<Rightarrow> \<exists>y. x = processed_response y \<and>
             batch_spec (\<lambda>o1. validateOrderForIssue o1 ?u now) (issued_order E now) ?u ?ids (stored_orders w) y (stored_orders w1)"
        using issue_orders_spec [OF assms(1), where E = E and now = now and u = ?u and ids = ?ids]
        by (auto simp: orderService_IssueOrders_def split: prod.splits sum.splits)
    qed (use issue in simp)
  next
    case refund
    have "issue_refund_answer StatusRefunded (orderService_RefundOrders (NewOrderService E C) now ?u ?ids (w, r)) = (out, w', r')"
      using assms(2) Inr refund by (simp add: APIHandler_IssueRefundOrders_def)
    then show ?thesis
    proof (rule batch [where check = validateOrderForRefund and put = "refunded_order E now"])
      show "case orderService_RefundOrders (NewOrderService E C) now ?u ?ids (w, r) of (Inl e, w1, r1) \<Rightarrow> same_tables w w1 \<and> r1 = r
         | (Inr x, w1, r1) \<Rightarrow> \<exists>y. x = processed_response y \<and>
             batch_spec (\<lambda>o1. validateOrderForRefund o1 ?u now) (refunded_order E now) ?u ?ids (stored_orders w) y (stored_orders w1)"
        using refund_orders_spec [OF assms(1), where E = E and now = now and u = ?u and ids = ?ids]
        by (auto simp: orderService_RefundOrders_def split: prod.splits sum.splits)
    qed (use refund in simp)
  next
    case other
    with assms Inr show ?thesis by (auto simp: APIHandler_IssueRefundOrders_def)
  qed
qed

theorem http_IssueRefundOrders_witness:
  "\<exists>out w' r'. APIHandler_IssueRefundOrders (NewOrderService sample_env mem_client)
      (\<lambda>_. Inr \<lparr>req_Command = ''issue'', req_UserID = ''u'', req_OrderIDs = [''b'']\<rparr>) 3000 (\<lambda>n. (3000, 3000)) () (sample_shop, Map.empty) =
      (out, w', r') \<and> answered out = 200 \<and> out_audits out = [status_change ''b'' (AnyStatus StatusIssued)] \<and>
    IssuedAt (the (stored_orders w' ''b'')) = Some 3000"
proof -
  let ?req = "\<lparr>req_Command = ''issue'', req_UserID = ''u'', req_OrderIDs = [''b'']\<rparr>"
  obtain w1 where "userOrderRepository_IssueOrders (pg_user_order_storage sample_env) 3000 ''u'' [''b''] sample_shop =
      (Inr \<lparr>UserID = ''u'', OrderIDs = [''b''], Failed = [], ProcError = None\<rparr>, w1)"
    using issue_sample by blast
  then obtain out r' where out: "APIHandler_IssueRefundOrders (NewOrderService sample_env mem_client) (\<lambda>_. Inr ?req) 3000
      (\<lambda>n. (3000, 3000)) () (sample_shop, Map.empty) = (out, w1, r')" "answered out = 200"
      "out_calls out = [JSON 200 [(''processed_order_ids'', BStrings [''b'']), (''failed_order_ids'', BStrings []), (''error'', BString [])]]"
    by (auto simp: APIHandler_IssueRefundOrders_def orderService_IssueOrders_def issue_refund_answer_def processed_response_def
        errorToString_def)
  with http_IssueRefundOrders [OF _ out(1)] show ?thesis
    by (auto simp: batch_spec_def issued_order_def sample_env_def dest!: sym [of "[''b'']"])
qed

text \<open>
  (C9) Without a valid token no request changes an order or the cache: for every route, a request whose cookie
  is missing or does not verify leaves the table of orders and the cache as they were and starts no job;
  on the guarded routes, which are all but signing up, logging in, health and metrics, it changes nothing at
  all and is answered 401.
\<close>

theorem http_guarded:
  assumes "(m, p, g, ep) \<in> set routes" "srv_users H = pg_auth_storage" "\<not> authorized H rq"
    and "serve H ch (g, ep) rq (w, r) = (out, w', r')"
  shows "orders w' = orders w \<and> r' = r \<and> out_jobs out = [] \<and>
    (if ep \<in> {Signup_ep, Login_ep, Health_ep, Metrics_ep} then g = Open
     else g = Guarded \<and> w' = w \<and> answered out = 401 \<and> length (out_audits out) = 2)"
proof (cases g)
  case Guarded
  with assms have "w' = w \<and> r' = r \<and> out_jobs out = [] \<and> answered out = 401 \<and> length (out_audits out) = 2"
    by (auto simp: serve_def recovered_def AuditMiddleware_def MetricsMiddleware_def AuthMiddleware_def authorized_def unauthorized_def Let_def
        split: option.splits sum.splits if_splits)
  moreover have "ep \<notin> {Signup_ep, Login_ep, Health_ep, Metrics_ep}" using assms(1) Guarded by (auto simp: routes_def)
  ultimately show ?thesis using Guarded by simp
next
  case Open
  have ep: "ep \<in> {Signup_ep, Login_ep, Health_ep, Metrics_ep}" using assms(1) Open by (auto simp: routes_def)
  obtain q w1 r1 where d: "dispatch H ch ep rq (w, r) = (q, w1, r1)" by (metis prod.exhaust)
  from dispatch_open [OF ep assms(2) d] have "orders w1 = orders w" "r1 = r" "case q of Panic \<Rightarrow> True | Ret o1 \<Rightarrow> out_jobs o1 = []"
    by simp_all
  with d assms(4) Open ep show ?thesis
    by (auto simp: serve_def recovered_def AuditMiddleware_def MetricsMiddleware_def Let_def split: go.splits)
qed

theorem http_guarded_witness:
  "\<exists>out. serve sample_http sample_chance (Guarded, AcceptOrder_ep) sample_http_request (sample_shop, Map.empty) =
     (out, sample_shop, Map.empty) \<and> answered out = 401"
proof -
  obtain out w' r' where s: "serve sample_http sample_chance (Guarded, AcceptOrder_ep) sample_http_request (sample_shop, Map.empty) =
      (out, w', r')" by (metis prod.exhaust)
  have "\<not> authorized sample_http sample_http_request"
    by (simp add: authorized_def sample_http_def sample_http_request_def JwtSecret_def)
  from http_guarded [where ?m = "''POST''" and ?p = "''/orders''", OF _ _ this s] s show ?thesis
    by (simp add: routes_def sample_http_def)
qed


end
