(* ===== verification/Http_Pages.thy ===== *)
theory Http_Pages
  imports Http_Server
begin

text \<open>
  Reading a report over HTTP page by page: a client sends the \<^verbatim>\<open>next_cursor\<close> of one answer
  as the \<^verbatim>\<open>cursor\<close> of the next request until an answer has none. The cursor of the history
  is a printed time and a row number, so this rests on reading back what was printed. The history meets
  the contract \<open>keyset_report\<close> of a paged report.
\<close>

section \<open>A client that reads all pages\<close>

definition page_query :: "string \<Rightarrow> string \<Rightarrow> string \<Rightarrow> string" where
  "page_query limit cursor key = (if key = ''limit'' then limit else if key = ''cursor'' then cursor else [])"

text \<open>The orders and the cursor of an answer with status 200.\<close>

definition page_of :: "outcome \<Rightarrow> (order_response list \<times> string) option" where
  "page_of out = (case out_calls out of
      [JSON code body] \<Rightarrow>
        (if code = 200
         then (case map_of body ''orders'' of
                 Some (BResponses os) \<Rightarrow>
                   Some (os, case map_of body ''next_cursor'' of Some (BString c) \<Rightarrow> c | _ \<Rightarrow> [])
               | _ \<Rightarrow> None)
         else None)
    | _ \<Rightarrow> None)"

fun read_pages :: "nat \<Rightarrow> (string \<Rightarrow> 's \<Rightarrow> outcome \<times> 's) \<Rightarrow> string \<Rightarrow> 's \<Rightarrow> order_response list option" where
  "read_pages 0 ask c s = None"
| "read_pages (Suc n) ask c s =
     (case ask c s of (out, s') \<Rightarrow>
        (case page_of out of
           None \<Rightarrow> None
         | Some (os, next) \<Rightarrow> if next = [] then Some os else map_option ((@) os) (read_pages n ask next s')))"

section \<open>Cursors of the history\<close>

definition read_history_cursor :: "string \<Rightarrow> (time \<times> int) option" where
  "read_history_cursor c = (case parse_history_cursor c of Inl _ \<Rightarrow> None | Inr k \<Rightarrow> Some k)"

lemma history_cursor_roundtrip:
  assumes "0 \<le> t" "t < 3652059 * (24 * hour)" "int64_ok i"
  shows "parse_history_cursor (Format_RFC3339Nano t @ '','' @ Itoa i) = Inr (t, i)"
  using assms
  by (simp add: parse_history_cursor_def split_on_append_sep comma_notin_Format split_on_no_sep comma_notin_Itoa
      Parse_Format_Nano Atoi_Itoa)

section \<open>The history as a paged report\<close>

abbreviation history_key :: "order_row \<Rightarrow> time \<times> int" where
  "history_key r \<equiv> (last_change r, row_id r)"

text \<open>The server answers, and the times in the table are microseconds of years that print with four digits.\<close>

definition history_calm :: "pg_env \<Rightarrow> pg \<Rightarrow> bool" where
  "history_calm E w \<longleftrightarrow> report_calm E w \<and>
     list_all (\<lambda>r. timeline (row_order r) \<and> pg_timestamp E (last_change r) = last_change r \<and>
       last_change r < 3652059 * (24 * hour)) (orders w)"

definition history_report :: "pg \<Rightarrow> order_row list" where
  "history_report w = order_desc history_key (orders w)"

definition history_bound :: "time \<times> int \<Rightarrow> (time \<times> int) option" where
  "history_bound c = (if c = (0, 0) then None else Some c)"

definition history_page :: "pg_env \<Rightarrow> int \<Rightarrow> time \<times> int \<Rightarrow> pg \<Rightarrow> (goerror + order list \<times> string) \<times> pg" where
  "history_page E limit c w = ReportOrderStorage_GetOrderHistory E limit (fst c) (snd c) w"

lemma history_row:
  assumes "history_calm E w" "r \<in> set (orders w)"
  shows "0 < last_change r" "last_change r < 3652059 * (24 * hour)" "pg_timestamp E (last_change r) = last_change r"
    "LastUpdated (row_order r) = last_change r" "int4_ok (row_id r)" "int64_ok (row_id r)"
proof -
  have tl: "timeline (row_order r)" and r: "last_change r < 3652059 * (24 * hour)" "int4_ok (row_id r)"
      "pg_timestamp E (last_change r) = last_change r"
    using assms by (auto simp: history_calm_def report_calm_def list_all_iff)
  show "LastUpdated (row_order r) = last_change r"
    by (subst LastUpdated_greatest3) (use tl in \<open>auto simp: timeline_def last_change_def split: option.splits\<close>)
  show "0 < last_change r"
    using tl by (auto simp: timeline_def last_change_def greatest3_def split: option.splits)
  show "int64_ok (row_id r)" using r(2) by (simp add: int4_ok_def int64_ok_def)
  show "last_change r < 3652059 * (24 * hour)" "int4_ok (row_id r)" "pg_timestamp E (last_change r) = last_change r"
    by (fact r)+
qed

lemma history_key_distinct: "orders_ok w \<Longrightarrow> distinct (map history_key (orders w))"
  by (auto simp: orders_ok_def distinct_map inj_on_def)

lemma history_filter_bound:
  assumes "pg_env_ok E" "c = (0, 0) \<or> (c \<noteq> (0, 0) \<and> pg_timestamp E (fst c) = fst c)"
  shows "history_filter (pg_timestamp E (fst c)) (snd c) r =
    (case history_bound c of None \<Rightarrow> True | Some k \<Rightarrow> history_key r < k)"
  using assms by (cases c) (auto simp: history_filter_def history_bound_def less_prod_def pg_env_ok_def)

lemma history_page_calm:
  assumes "history_calm E w" "0 \<le> limit"
    and c: "c = (0, 0) \<or> (\<exists>r \<in> set (history_report w). history_bound c = Some (history_key r))"
    and rows: "rows = take (nat limit) (filter (\<lambda>r. case history_bound c of None \<Rightarrow> True | Some k \<Rightarrow> history_key r < k) (history_report w))"
  shows "history_page E limit c w = (Inr (map row_order rows,
    if rows = [] then [] else Format_RFC3339Nano (last_change (last rows)) @ '','' @ Itoa (row_id (last rows))), w)"
proof -
  have calm: "script w = []" "orders_ok w" "mset (scan_orders E (orders w)) = mset (orders w)" "pg_env_ok E"
    using assms(1) by (auto simp: history_calm_def report_calm_def pg_env_ok_def)
  have c': "c = (0, 0) \<or> (c \<noteq> (0, 0) \<and> pg_timestamp E (fst c) = fst c)" "int4_ok (snd c)"
    using c history_row [OF assms(1)] by (auto simp: history_bound_def history_report_def int4_ok_def split: if_splits)
  from order_desc_perm [OF calm(3) history_key_distinct [OF calm(2)]] have "order_desc history_key (filter (history_filter (pg_timestamp E (fst c)) (snd c)) (scan_orders E (orders w))) =
    filter (\<lambda>r. case history_bound c of None \<Rightarrow> True | Some k \<Rightarrow> history_key r < k) (history_report w)"
    unfolding history_report_def filter_order_desc history_filter_bound [OF calm(4) c'(1), abs_def] .
  then have q: "limit_query limit (order_desc history_key
      (filter (history_filter (pg_timestamp E (fst c)) (snd c)) (scan_orders E (orders w)))) w = (Inr (rows, None), w)"
    using calm(1) assms(2) rows by (simp add: limit_query_calm)
  show ?thesis
  proof (cases "rows = []")
    case False
    then have "last rows \<in> set rows" by simp
    then have l: "last rows \<in> set (orders w)"
      unfolding rows by (auto simp: history_report_def dest!: in_set_takeD)
    from select_id_calm [OF calm(1,2) l] history_row(4) [OF assms(1) l] False q c'(2) show ?thesis
      by (simp add: history_page_def ReportOrderStorage_GetOrderHistory_def scanOrders_def last_map Let_def)
  qed (use q c'(2) in \<open>simp add: history_page_def ReportOrderStorage_GetOrderHistory_def scanOrders_def\<close>)
qed

interpretation history: keyset_report "history_page E" read_history_cursor history_bound history_key
    history_report "history_calm E" "(0, 0)" for E
proof (unfold_locales, goal_cases)
  case (1 w)
  then have "distinct (map history_key (orders w))"
    by (intro history_key_distinct) (simp add: history_calm_def report_calm_def)
  then show ?case unfolding history_report_def order_desc_def by (rule desc_on_rev_sort_key)
next
  case 2
  then show ?case by (simp add: history_bound_def)
next
  case (3 w limit rows c)
  from history_page_calm [OF 3(1) _ 3(4,3)] 3(2) have page: "history_page E limit c w = (Inr (map row_order rows,
      if rows = [] then [] else Format_RFC3339Nano (last_change (last rows)) @ '','' @ Itoa (row_id (last rows))), w)" by simp
  show ?case
  proof (cases "rows = []")
    case False
    then have "last rows \<in> set rows" by simp
    then have "last rows \<in> set (orders w)"
      unfolding 3(3) by (auto simp: history_report_def dest!: in_set_takeD)
    note row = history_row [OF 3(1) this]
    with history_cursor_roundtrip [OF _ row(2,6)] have
      "read_history_cursor (Format_RFC3339Nano (last_change (last rows)) @ '','' @ Itoa (row_id (last rows))) =
        Some (history_key (last rows))" by (simp add: read_history_cursor_def)
    with page False row(1) show ?thesis by (auto simp: history_bound_def)
  qed (use page in simp)
qed

section \<open>Pages over HTTP\<close>

lemma page_of_page_answer:
  "page_of (fst (page_answer (Inr (os, next), s))) = Some (os, next)"
  "page_of (fst (page_answer (Inl e, s))) = None"
  by (simp_all add: page_of_def page_answer_def)

lemma page_of_bad_request [simp]: "page_of (bad_request m) = None"
  by (simp add: page_of_def)

text \<open>A handler that reads its cursor and answers with a page lets its client read what the cursors of the
  repository lead to.\<close>

lemma read_pages_follow:
  assumes good: "\<And>c k w. parse c = Some k \<Longrightarrow> h c (w, r) = page_answer (responses (on_db (ask k) (w, r)))"
    and bad: "\<And>c s. parse c = None \<Longrightarrow> page_of (fst (h c s)) = None"
  shows "parse c = Some k \<Longrightarrow>
    read_pages fuel h c (w, r) = map_option mapOrdersToResponses (follow_cursors fuel ask parse k w)"
proof (induction fuel arbitrary: c k w)
  case (Suc fuel)
  obtain q w1 where q: "ask k w = (q, w1)" by fastforce
  show ?case
  proof (cases q)
    case (Inl e)
    with q good [OF Suc.prems] show ?thesis
      by (simp add: responses_def page_answer_def page_of_def)
  next
    case (Inr x)
    obtain os nextc where x: "x = (os, nextc)" by fastforce
    have h: "h c (w, r) = (fst (page_answer (Inr (mapOrdersToResponses os, nextc), (w1, r))), w1, r)"
      using q Inr x good [OF Suc.prems] by (simp add: responses_def page_answer_def)
    have none: "read_pages fuel h nextc (w1, r) = None" if "parse nextc = None"
      using bad [OF that, of "(w1, r)"] by (cases fuel; cases "h nextc (w1, r)") auto
    show ?thesis
    proof (cases "parse nextc")
      case None
      with q Inr x h none show ?thesis by (simp add: page_of_page_answer)
    next
      case (Some k')
      with q Inr x h Suc.IH [OF Some, of w1] show ?thesis
        by (cases "follow_cursors fuel ask parse k' w1") (simp_all add: page_of_page_answer mapOrdersToResponses_def)
    qed
  qed
qed simp

section \<open>Properties\<close>

text \<open>
  (C13) The history over HTTP: for every page size the server accepts, a client that starts without a cursor
  and sends each cursor it receives back comes to an end, and has then read every order of the table exactly
  once, the last changed first. The cursor survives being printed into the answer and read back from the
  request.
\<close>

theorem http_history_pages:
  assumes "history_calm E w" "parse_limit l = Some limit" "length (orders w) < fuel"
  shows "read_pages fuel (\<lambda>c. APIHandler_GetOrderHistory (NewOrderService E C) (page_query l c)) [] (w, r) =
      Some (map (mapOrderToResponse \<circ> row_order) (order_desc history_key (orders w)))"
proof -
  let ?h = "\<lambda>c. APIHandler_GetOrderHistory (NewOrderService E C) (page_query l c)"
  let ?ask = "\<lambda>c w. as_database_error (history_page E limit c w)"
  have "1 \<le> limit" using assms(2) by (auto simp: parse_limit_def split: if_splits option.splits)
  have q: "page_query l c ''limit'' = l" "page_query l c ''cursor'' = c" for c by (simp_all add: page_query_def)
  have "read_pages fuel ?h [] (w, r) = map_option mapOrdersToResponses (follow_cursors fuel ?ask read_history_cursor (0, 0) w)"
  proof (rule read_pages_follow)
    fix c k w assume "read_history_cursor c = Some k"
    then show "?h c (w, r) = page_answer (responses (on_db (?ask k) (w, r)))"
      by (cases k) (auto simp: APIHandler_GetOrderHistory_def q assms(2) read_history_cursor_def orderService_GetOrderHistory_def
          reportRepository_GetOrderHistory_def pg_report_storage_def history_page_def split: sum.splits)
  next
    fix c and s :: "pg \<times> 'a" assume "read_history_cursor c = None"
    then show "page_of (fst (?h c s)) = None"
      by (auto simp: APIHandler_GetOrderHistory_def q assms(2) read_history_cursor_def page_of_def split: sum.splits)
  qed (simp add: read_history_cursor_def parse_history_cursor_def)
  also have "\<dots> = Some (mapOrdersToResponses (map row_order (history_report w)))"
    using history.follow_all [OF assms(1) \<open>1 \<le> limit\<close>, of fuel] assms(3)
    by (simp add: follow_as_database_error history_report_def)
  finally show ?thesis by (simp add: mapOrdersToResponses_def history_report_def)
qed

theorem http_history_pages_witness:
  "\<exists>os. read_pages 3 (\<lambda>c. APIHandler_GetOrderHistory (NewOrderService sample_env mem_client) (page_query ''1'' c)) []
      (sample_shop, Map.empty) = Some os \<and> map resp_ID os = [''b'', ''a'']"
proof -
  have "history_calm sample_env sample_shop"
    by (simp add: history_calm_def timeline_def last_change_def greatest3_def) (simp add: sample_env_def)
  moreover have "parse_limit ''1'' = Some 1" by code_simp
  ultimately show ?thesis
    using http_history_pages [of sample_env sample_shop "''1''" 1 3 mem_client Map.empty]
    by (simp add: order_desc_def mapOrderToResponse_def last_change_def)
qed

end
