(* ===== verification/Lifecycle.thy ===== *)
theory Lifecycle
  imports Order_Repo User_Order_Storage Report_Repo
begin

text \<open>
  The life of the table of orders. Every change the program makes to the table is one of four
  transactions of the storage packages; a run of the program is a sequence of them, from any
  number of requests in any interleaving. The step relation \<open>order_step\<close> has one rule per
  transaction, with what the callers guarantee of its arguments as premises. A transaction carries
  the time its request read from the clock. The code reads the clock before it has the lock on the
  row, so transactions do not commit in the order of their times, and the relation asks nothing of
  the times but that they lie after the first microsecond. The invariant \<open>shop_ok\<close> holds in every
  reachable state, under every pattern of server failures.
\<close>

section \<open>Steps\<close>

text \<open>
  \<^verbatim>\<open>save\<close> is the last action of \<^verbatim>\<open>orderRepository.AcceptOrder\<close>, which parses the
  packaging and sets the price and the time of storing; the handlers make orders that are not
  yet issued or refunded. \<^verbatim>\<open>delete\<close> is the last action of
  \<^verbatim>\<open>orderRepository.ReturnOrder\<close>.
\<close>

inductive order_step :: "pg_env \<Rightarrow> pg \<Rightarrow> pg \<Rightarrow> bool" for E where
  save: "\<lbrakk> 1000 \<le> now; ParsePackaging (Packaging o1) = Inr p; IssuedAt o1 = None; RefundedAt o1 = None;
          OrderStorage_SaveOrder E (taken_in p now o1) w = (r, w') \<rbrakk> \<Longrightarrow> order_step E w w'"
| delete: "OrderStorage_DeleteOrder i w = (r, w') \<Longrightarrow> order_step E w w'"
| issue: "\<lbrakk> 1000 \<le> now; UserOrderStorage_IssueOrders E now u ids w = (res, w') \<rbrakk> \<Longrightarrow> order_step E w w'"
| refund: "\<lbrakk> 1000 \<le> now; UserOrderStorage_RefundOrders E now u ids w = (res, w') \<rbrakk> \<Longrightarrow> order_step E w w'"

inductive_cases order_stepE: "order_step E w w'"

text \<open>The tables start empty.\<close>

inductive reachable :: "pg_env \<Rightarrow> pg \<Rightarrow> bool" for E where
  start: "\<lbrakk> orders w = []; packaging_types w = [] \<rbrakk> \<Longrightarrow> reachable E w"
| step: "\<lbrakk> reachable E w; order_step E w w' \<rbrakk> \<Longrightarrow> reachable E w'"

section \<open>The invariant\<close>

text \<open>
  The stages of an order: it has a time of storing; a refund comes after an issue, and that issue is not
  before the time of storing. The time of issue of an order that is not refunded may be before its time of
  storing, and a refund may be before the issue: such stamps are out of order, while those of a
  \<open>timeline\<close> are in order.
\<close>

definition staged :: "order \<Rightarrow> bool" where
  "staged o1 \<longleftrightarrow>
     (case StoredAt o1 of
        None \<Rightarrow> False
      | Some s \<Rightarrow> 0 < s \<and>
          (case IssuedAt o1 of
             None \<Rightarrow> RefundedAt o1 = None
           | Some i \<Rightarrow> 0 < i \<and> (case RefundedAt o1 of None \<Rightarrow> True | Some r \<Rightarrow> 0 < r \<and> s \<le> i)))"

lemma timeline_staged: "timeline o1 \<Longrightarrow> staged o1"
  by (auto simp: timeline_def staged_def split: option.splits)

lemma Status_staged:
  assumes "staged o1"
  shows "Status o1 =
    (if \<exists>i r. IssuedAt o1 = Some i \<and> RefundedAt o1 = Some r \<and> i \<le> r then StatusRefunded
     else if \<exists>s i. StoredAt o1 = Some s \<and> IssuedAt o1 = Some i \<and> s \<le> i then StatusIssued else StatusStored)"
  using assms by (auto simp: staged_def Status_def Let_def split: option.splits)

definition priced :: "pg_env \<Rightarrow> string \<times> float64 \<Rightarrow> bool" where
  "priced E pp \<longleftrightarrow> (case ParsePackaging (fst pp) of
      Inl e \<Rightarrow> False | Inr p \<Rightarrow> snd pp = pg_numeric E (CalculatePrice p))"

definition shop_ok :: "pg_env \<Rightarrow> pg \<Rightarrow> bool" where
  "shop_ok E w \<longleftrightarrow> orders_ok w \<and> list_all (staged \<circ> row_order) (orders w) \<and>
     distinct (map fst (packaging_types w)) \<and> list_all (priced E) (packaging_types w)"

lemma shop_okI:
  assumes "shop_ok E w" "same_tables w w'" "orders_id_seq w \<le> orders_id_seq w'"
  shows "shop_ok E w'"
  using assms by (fastforce simp: shop_ok_def same_tables_def intro: orders_ok_frame [unfolded same_tables_def])

section \<open>Every step keeps the invariant\<close>

lemma staged_taken_in:
  assumes "pg_env_ok E" "1000 \<le> now" "IssuedAt o1 = None" "RefundedAt o1 = None"
  shows "staged (pg_kept E (taken_in p now o1))"
  using assms by (simp add: staged_def pg_kept_def taken_in_def pg_timestamp_props(3))

text \<open>What the two batches do to one order: the stage stays consistent, and the status does not go back.\<close>

lemma issued_stage:
  assumes "pg_env_ok E" "1000 \<le> now" "staged (row_order r)" "validateOrderForIssue (row_order r) u now = None"
  shows "staged (row_order (mark_issued E now r)) \<and> Status (row_order r) \<le> Status (row_order (mark_issued E now r))"
proof -
  have "0 < pg_timestamp E now" using assms(1,2) by (simp add: pg_timestamp_props(3))
  moreover have st: "Status (row_order r) = StatusStored" using assms(4) by (simp add: validateOrderForIssue_None)
  moreover from st assms(3) have "refunded_at r = None"
    by (auto simp: Status_staged) (auto simp: staged_def split: option.splits if_splits)
  ultimately have "staged (row_order (mark_issued E now r))" using assms(3) by (auto simp: staged_def split: option.splits)
  with st show ?thesis by (simp add: Status_staged less_eq_order_status_def)
qed

lemma refunded_stage:
  assumes "pg_env_ok E" "1000 \<le> now" "staged (row_order r)" "validateOrderForRefund (row_order r) u now = None"
  shows "staged (row_order (mark_refunded E now r)) \<and> Status (row_order r) \<le> Status (row_order (mark_refunded E now r))"
proof -
  have "0 < pg_timestamp E now" using assms(1,2) by (simp add: pg_timestamp_props(3))
  moreover have st: "Status (row_order r) = StatusIssued" using assms(4) by (simp add: validateOrderForRefund_None)
  moreover from st assms(3) have i: "\<exists>s i. stored_at r = Some s \<and> issued_at r = Some i \<and> s \<le> i"
    by (auto simp: Status_staged split: if_splits)
  ultimately have "staged (row_order (mark_refunded E now r))" using assms(3) by (auto simp: staged_def split: option.splits)
  with st i show ?thesis by (auto simp: Status_staged less_eq_order_status_def)
qed

lemma shop_ok_save:
  assumes "pg_env_ok E" "shop_ok E w" "1000 \<le> now" "ParsePackaging (Packaging o1) = Inr p"
    "IssuedAt o1 = None" "RefundedAt o1 = None" "OrderStorage_SaveOrder E (taken_in p now o1) w = (r, w')"
  shows "shop_ok E w'"
proof (cases r)
  case (Some e)
  with assms SaveOrder_Some [of E "taken_in p now o1" w e w'] show ?thesis
    by (auto intro: shop_okI)
next
  case None
  with assms(7) have s: "OrderStorage_SaveOrder E (taken_in p now o1) w = (None, w')" by simp
  have "orders_ok w'" using assms(2) orders_ok_save [OF _ s] by (simp add: shop_ok_def)
  moreover have "priced E (Packaging o1, pg_numeric E (CalculatePrice p))"
    using assms(4) by (simp add: priced_def)
  moreover have "PackagePrice (taken_in p now o1) = CalculatePrice p" "Packaging (taken_in p now o1) = Packaging o1"
    by (simp_all add: taken_in_def)
  ultimately show ?thesis
    using SaveOrder_None [OF s] staged_taken_in [OF assms(1,3,5,6), of p] assms(2)
    by (auto simp: shop_ok_def)
qed

lemma shop_ok_delete:
  assumes "shop_ok E w" "OrderStorage_DeleteOrder i w = (r, w')"
  shows "shop_ok E w'"
proof (cases r)
  case (Some e)
  with assms DeleteOrder_Some [of i w e w'] show ?thesis by (auto intro: shop_okI)
next
  case None
  with assms(2) have d: "OrderStorage_DeleteOrder i w = (None, w')" by simp
  have "orders_ok w'" using assms(1) orders_ok_delete [OF _ d] by (simp add: shop_ok_def)
  then show ?thesis using DeleteOrder_None [OF d] assms(1) by (auto simp: shop_ok_def list_all_iff)
qed

text \<open>A batch stamps the rows of the orders it has checked.\<close>

lemma stamped_row:
  assumes "shop_ok E w" "r \<in> set (orders w)" "order_id r \<in> A"
    and "\<And>i. i \<in> A \<Longrightarrow> \<exists>o1. stored_orders w i = Some o1 \<and> good o1"
  shows "staged (row_order r) \<and> good (row_order r)"
proof -
  from assms(3,4) obtain o1 where "stored_orders w (order_id r) = Some o1" "good o1" by blast
  moreover have "stored_orders w (order_id r) = Some (row_order r)"
    using assms(1,2) by (auto simp: shop_ok_def intro: stored_orders_rows)
  ultimately show ?thesis using assms(1,2) by (auto simp: shop_ok_def list_all_iff)
qed

lemma shop_ok_stamped:
  assumes "shop_ok E w" "orders w' = stamp_rows mk A (orders w)" "orders_ok w'" "packaging_types w' = packaging_types w"
    and "\<And>i. i \<in> A \<Longrightarrow> \<exists>o1. stored_orders w i = Some o1 \<and> good o1"
    and "\<And>r. staged (row_order r) \<Longrightarrow> good (row_order r) \<Longrightarrow> staged (row_order (mk r))"
  shows "shop_ok E w'"
proof -
  have "staged (row_order (if order_id r \<in> A then mk r else r))" if "r \<in> set (orders w)" for r
    using that assms(1,6) stamped_row [OF assms(1) that _ assms(5)] by (auto simp: shop_ok_def list_all_iff)
  then have "list_all (staged \<circ> row_order) (orders w')" unfolding assms(2) stamp_rows_def list.pred_map
    by (simp add: list_all_iff)
  with assms(1,3,4) show ?thesis by (simp add: shop_ok_def)
qed

text \<open>The two batches have the same shape: a failed one changes nothing, the other stamps what it has checked.\<close>

lemma issue_stamps:
  assumes "orders_ok w" "UserOrderStorage_IssueOrders E now u ids w = (res, w')"
  obtains "same_tables w w'" "orders_id_seq w' = orders_id_seq w"
  | A where "orders w' = stamp_rows (mark_issued E now) A (orders w)" "orders_ok w'" "packaging_types w' = packaging_types w"
    "\<And>i. i \<in> A \<Longrightarrow> \<exists>o1. stored_orders w i = Some o1 \<and> validateOrderForIssue o1 u now = None"
proof (cases res)
  case (Inl e)
  with assms(2) issue.transaction_error [of E now u ids w e w'] that(1) show ?thesis
    by (auto simp: UserOrderStorage_IssueOrders_def)
next
  case (Inr x)
  with issue.transaction_result [OF assms(1), of E now u ids x w'] assms(2) obtain handled where
    "orders w' = stamp_rows (mark_issued E now) (set handled) (orders w)" "orders_ok w'" "packaging_types w' = packaging_types w"
    "\<forall>i \<in> set handled. \<exists>o1. stored_orders w i = Some o1 \<and> validateOrderForIssue o1 u now = None"
    by (auto simp: UserOrderStorage_IssueOrders_def)
  with that(2) show ?thesis by blast
qed

lemma refund_stamps:
  assumes "orders_ok w" "UserOrderStorage_RefundOrders E now u ids w = (res, w')"
  obtains "same_tables w w'" "orders_id_seq w' = orders_id_seq w"
  | A where "orders w' = stamp_rows (mark_refunded E now) A (orders w)" "orders_ok w'" "packaging_types w' = packaging_types w"
    "\<And>i. i \<in> A \<Longrightarrow> \<exists>o1. stored_orders w i = Some o1 \<and> validateOrderForRefund o1 u now = None"
proof (cases res)
  case (Inl e)
  with assms(2) refund.transaction_error [of E now u ids w e w'] that(1) show ?thesis
    by (auto simp: UserOrderStorage_RefundOrders_def)
next
  case (Inr x)
  with refund.transaction_result [OF assms(1), of E now u ids x w'] assms(2) obtain handled where
    "orders w' = stamp_rows (mark_refunded E now) (set handled) (orders w)" "orders_ok w'" "packaging_types w' = packaging_types w"
    "\<forall>i \<in> set handled. \<exists>o1. stored_orders w i = Some o1 \<and> validateOrderForRefund o1 u now = None"
    by (auto simp: UserOrderStorage_RefundOrders_def)
  with that(2) show ?thesis by blast
qed

lemma shop_ok_issue:
  assumes "pg_env_ok E" "shop_ok E w" "1000 \<le> now" "UserOrderStorage_IssueOrders E now u ids w = (res, w')"
  shows "shop_ok E w'"
proof -
  have "orders_ok w" using assms(2) by (simp add: shop_ok_def)
  then show ?thesis using assms(4)
  proof (cases rule: issue_stamps)
    case 1
    with assms(2) show ?thesis by (auto intro: shop_okI)
  next
    case (2 A)
    show ?thesis by (rule shop_ok_stamped [OF assms(2) 2]) (auto dest: issued_stage [OF assms(1,3)])
  qed
qed

lemma shop_ok_refund:
  assumes "pg_env_ok E" "shop_ok E w" "1000 \<le> now" "UserOrderStorage_RefundOrders E now u ids w = (res, w')"
  shows "shop_ok E w'"
proof -
  have "orders_ok w" using assms(2) by (simp add: shop_ok_def)
  then show ?thesis using assms(4)
  proof (cases rule: refund_stamps)
    case 1
    with assms(2) show ?thesis by (auto intro: shop_okI)
  next
    case (2 A)
    show ?thesis by (rule shop_ok_stamped [OF assms(2) 2]) (auto dest: refunded_stage [OF assms(1,3)])
  qed
qed

lemmas shop_ok_steps = shop_ok_save shop_ok_delete shop_ok_issue shop_ok_refund

lemma order_step_shop_ok:
  assumes "pg_env_ok E" "order_step E w w'" "shop_ok E w"
  shows "shop_ok E w'"
  using assms(2,1,3) by (induction rule: order_step.induct) (blast intro: shop_ok_steps)+

lemma reachable_shop_ok:
  assumes "pg_env_ok E" "reachable E w"
  shows "shop_ok E w"
  using assms(2)
proof (induction rule: reachable.induct)
  case (start w)
  then show ?case by (simp add: shop_ok_def orders_ok_def)
next
  case (step w w')
  then show ?case by (blast intro: order_step_shop_ok [OF assms(1)])
qed

section \<open>What the invariant gives\<close>

lemma shop_ok_staged:
  assumes "shop_ok E w" "stored_orders w i = Some o1"
  shows "staged o1"
proof -
  from stored_orders_Some [OF assms(2)] obtain r where "r \<in> set (orders w)" "o1 = row_order r" by blast
  with assms(1) show ?thesis by (auto simp: shop_ok_def list_all_iff)
qed

lemma reachable_staged: "pg_env_ok E \<Longrightarrow> reachable E w \<Longrightarrow> r \<in> set (orders w) \<Longrightarrow> staged (row_order r)"
  by (auto dest!: reachable_shop_ok simp: shop_ok_def list_all_iff)

text \<open>On time lines, the status the Go code computes from the stamps is what the SQL conditions
  read off the null columns.\<close>

lemma Status_columns:
  assumes "timeline (row_order r)"
  shows "Status (row_order r) = StatusStored \<longleftrightarrow>
      stored_at r \<noteq> None \<and> issued_at r = None \<and> refunded_at r = None"
    and "Status (row_order r) = StatusRefunded \<longleftrightarrow> refunded_at r \<noteq> None"
    and "Status (row_order r) = StatusIssued \<longleftrightarrow> issued_at r \<noteq> None \<and> refunded_at r = None"
  using assms Status_timeline [OF assms] by (auto simp: timeline_def split: option.splits if_splits)

text \<open>A step never moves an order back in its life cycle.\<close>

lemma stamped_status:
  assumes "shop_ok E w" "orders w' = stamp_rows mk A (orders w)" "\<And>r. order_id (mk r) = order_id r"
    and "\<And>i. i \<in> A \<Longrightarrow> \<exists>o1. stored_orders w i = Some o1 \<and> good o1"
    and "\<And>r. staged (row_order r) \<Longrightarrow> good (row_order r) \<Longrightarrow> Status (row_order r) \<le> Status (row_order (mk r))"
    and "stored_orders w i = Some o1" "stored_orders w' i = Some o2"
  shows "Status o1 \<le> Status o2"
proof -
  have "find (\<lambda>r. order_id r = i) (orders w') =
      map_option (\<lambda>r. if order_id r \<in> A then mk r else r) (find (\<lambda>r. order_id r = i) (orders w))"
    unfolding assms(2) stamp_rows_def by (rule find_map_same_key) (simp add: assms(3))
  moreover from assms(6) obtain r where r: "find (\<lambda>r. order_id r = i) (orders w) = Some r" "o1 = row_order r"
    by (auto simp: stored_orders_def)
  ultimately have "o2 = row_order (if order_id r \<in> A then mk r else r)" using assms(7) by (simp add: stored_orders_def)
  moreover have "r \<in> set (orders w)" using r(1) by (auto simp: find_Some_iff)
  then have "order_id r \<in> A \<Longrightarrow> Status (row_order r) \<le> Status (row_order (mk r))"
    using stamped_row [OF assms(1) _ _ assms(4)] assms(5) by blast
  ultimately show ?thesis using r(2) by simp
qed

lemma order_step_status:
  assumes "pg_env_ok E" "shop_ok E w" "order_step E w w'"
    "stored_orders w i = Some o1" "stored_orders w' i = Some o2"
  shows "Status o1 \<le> Status o2"
proof -
  have ok: "orders_ok w" using assms(2) by (simp add: shop_ok_def)
  have frame: "?thesis" if "same_tables w w'"
    using assms(4,5) stored_orders_frame [OF that] by simp
  show ?thesis
    using assms(3)
  proof cases
    case (save now o3 p r)
    from pg_orders.save_law [OF ok, of E "taken_in p now o3" r w'] save assms(4,5) show ?thesis
      by (auto simp: pg_order_storage_def split: option.splits if_splits)
  next
    case (delete j r)
    from pg_orders.delete_law [OF ok, of E j r w'] delete assms(4,5) show ?thesis
      by (auto simp: pg_order_storage_def split: option.splits if_splits)
  next
    case (issue now u ids res)
    from ok issue(2) show ?thesis
    proof (cases rule: issue_stamps)
      case (2 A)
      show ?thesis
        by (rule stamped_status [OF assms(2) 2(1) _ 2(4) _ assms(4,5)]) (auto dest: issued_stage [OF assms(1) issue(1)] simp: mark_issued_def)
    qed (rule frame)
  next
    case (refund now u ids res)
    from ok refund(2) show ?thesis
    proof (cases rule: refund_stamps)
      case (2 A)
      show ?thesis
        by (rule stamped_status [OF assms(2) 2(1) _ 2(4) _ assms(4,5)]) (auto dest: refunded_stage [OF assms(1) refund(1)] simp: mark_refunded_def)
    qed (rule frame)
  qed
qed

section \<open>A sample run\<close>

lemma sample_reachable: "reachable sample_env sample_shop"
proof -
  let ?a = "sample_order ''a'' ''u''" and ?b = "sample_order ''b'' ''u''"
  let ?w1 = "sample_db\<lparr>orders := [sample_row 1 ''a'' ''u''], orders_id_seq := 2,
     packaging_types := [(sample_packaging, Fin 1)]\<rparr>"
  note save = OrderStorage_SaveOrder_def insert_packaging_def insert_order_def pg_simps sample_db_def Let_def
    taken_in_def sample_order_fields sample_row_def
  have "reachable sample_env sample_db" by (rule reachable.start) (simp_all add: sample_db_def)
  moreover have "OrderStorage_SaveOrder sample_env (taken_in PackagingFilm 2000 ?a) sample_db = (None, ?w1)"
    by (simp add: save) (simp add: sample_env_def)
  then have "order_step sample_env sample_db ?w1"
    by (intro order_step.save [where p = PackagingFilm and now = 2000]) (simp_all add: sample_order_film sample_order_fields)
  moreover have "OrderStorage_SaveOrder sample_env (taken_in PackagingFilm 2000 ?b) ?w1 = (None, sample_shop)"
    by (simp add: save sample_shop_def new_row_fields)
  then have "order_step sample_env ?w1 sample_shop"
    by (intro order_step.save [where p = PackagingFilm and now = 2000]) (simp_all add: sample_order_film sample_order_fields)
  ultimately show ?thesis by (blast intro: reachable.step)
qed

section \<open>Properties\<close>

text \<open>
  (C19) The SQL conditions of the reports and the methods of \<^verbatim>\<open>domain.Order\<close>, on every reachable
  table: the key of the history is \<^verbatim>\<open>LastUpdated\<close>; the filter for stored orders only lists orders of
  status \<^verbatim>\<open>stored\<close>, and an order of status \<^verbatim>\<open>refunded\<close> is in the refund report; and the two
  conditions agree with the status exactly on the orders whose stamps are in order. They differ on the others,
  which are what a transaction leaves that read its clock before another one and got the lock after it.
\<close>

theorem sql_agrees_with_domain:
  assumes "pg_env_ok E" "reachable E w" "r \<in> set (orders w)"
  shows "last_change r = LastUpdated (row_order r) \<and>
    (user_filter u ''stored'' r \<longrightarrow> RecipientID (row_order r) = u \<and> Status (row_order r) = StatusStored) \<and>
    (Status (row_order r) = StatusRefunded \<longrightarrow> refunded_at r \<noteq> None) \<and>
    (timeline (row_order r) \<longleftrightarrow>
       (user_filter (recipient_id r) ''stored'' r \<longleftrightarrow> Status (row_order r) = StatusStored) \<and>
       (refunded_at r \<noteq> None \<longleftrightarrow> Status (row_order r) = StatusRefunded))"
proof -
  have st: "staged (row_order r)" by (rule reachable_staged [OF assms])
  then have "LastUpdated (row_order r) = last_change r"
    by (subst LastUpdated_greatest3) (auto simp: staged_def last_change_def split: option.splits)
  with st show ?thesis
    unfolding Status_staged [OF st] user_filter_def
    by (auto simp: staged_def timeline_def split: option.splits)
qed

theorem sql_agrees_with_domain_witness:
  "user_filter ''u'' ''stored'' (sample_row 1 ''a'' ''u'') \<and>
   Status (row_order (sample_row 1 ''a'' ''u'')) = StatusStored \<and>
   last_change (sample_row 1 ''a'' ''u'') = LastUpdated (row_order (sample_row 1 ''a'' ''u''))"
  using sql_agrees_with_domain [OF sample_env_ok sample_reachable, of "sample_row 1 ''a'' ''u''" "''u''"]
  by (simp add: user_filter_def)

text \<open>
  (C20) An order whose stamps are in order counts as active in the SQL of the reports exactly if its recipient
  could have it issued or could refund it at that moment, but for the one instant of its expiry, when it can
  still be issued.
\<close>

theorem active_means_usable:
  assumes "timeline (row_order r)"
  shows "active_row now r \<longleftrightarrow>
    (validateOrderForIssue (row_order r) (recipient_id r) now = None \<and> expiry r \<noteq> now) \<or>
    validateOrderForRefund (row_order r) (recipient_id r) now = None"
  using assms unfolding validateOrderForIssue_None validateOrderForRefund_None Status_columns [OF assms] active_row_def
  by (auto simp: timeline_def split: option.splits)

theorem active_means_usable_witness:
  "active_row 5000 (sample_row 1 ''a'' ''u'') \<longleftrightarrow>
   validateOrderForIssue (row_order (sample_row 1 ''a'' ''u'')) ''u'' 5000 = None"
  using active_means_usable [of "sample_row 1 ''a'' ''u''" 5000]
  by (simp add: validateOrderForRefund_None timeline_def)

text \<open>
  (C39) A race between an issue and a refund: the refund has read its clock before the issue and gets the lock
  after it. It is accepted, since the order is issued now, and writes a time of refund before the time of issue.
  From then on the order is refunded for the reports, and issued for the code: it is not active, and the same
  order is refunded a second time.
\<close>

theorem refund_race:
  assumes "orders_ok w" "script w = []" "stored_orders w i = Some o1" "timeline o1"
    and "IssuedAt o1 = Some t" "RefundedAt o1 = None" "pg_timestamp E now < t" "now \<le> t"
    and "now2 - t \<le> 48 * hour"
  shows "\<exists>w1 w2 res. res = \<lparr>UserID = RecipientID o1, OrderIDs = [i], Failed = [], ProcError = None\<rparr> \<and>
    UserOrderStorage_RefundOrders E now (RecipientID o1) [i] w = (Inr res, w1) \<and>
    (\<exists>r \<in> set (orders w1). order_id r = i \<and> refunded_at r \<noteq> None \<and> Status (row_order r) = StatusIssued \<and> \<not> active_row now2 r) \<and>
    UserOrderStorage_RefundOrders E now2 (RecipientID o1) [i] w1 = (Inr res, w2)"
proof -
  let ?res = "\<lparr>UserID = RecipientID o1, OrderIDs = [i], Failed = [], ProcError = None\<rparr>"
  have st: "Status o1 = StatusIssued" using assms(5,6) Status_timeline [OF assms(4)] by simp
  have "\<exists>x. stored_orders w j = Some x \<and> validateOrderForRefund x (RecipientID o1) now = None" if "j \<in> set [i]" for j
    using that assms(3,5,8) st by (simp add: validateOrderForRefund_None)
  from refund.transaction_complete [OF assms(1,2) _ this, where E = E and ids = "[i]"] obtain w1 where
    w1: "UserOrderStorage_RefundOrders E now (RecipientID o1) [i] w = (Inr ?res, w1)"
    "orders w1 = stamp_rows (mark_refunded E now) {i} (orders w)" "orders_ok w1" "script w1 = []"
    by (auto simp: UserOrderStorage_RefundOrders_def)
  have o2: "stored_orders w1 i = Some (refunded_order E now o1)"
    using refund.stored_put [OF w1(2)] assms(3) by simp
  obtain s where s: "StoredAt o1 = Some s" "0 < s" "s \<le> t"
    using assms(4,5) by (auto simp: timeline_def split: option.splits)
  have st2: "Status (refunded_order E now o1) = StatusIssued"
    using s assms(5,7) by (simp add: refunded_order_def Status_def)
  have "\<exists>x. stored_orders w1 j = Some x \<and> validateOrderForRefund x (RecipientID o1) now2 = None" if "j \<in> set [i]" for j
    using that o2 st2 assms(5,9) by (simp add: validateOrderForRefund_None) (simp add: refunded_order_def)
  from refund.transaction_complete [OF w1(3,4) _ this, where E = E and ids = "[i]"] obtain w2 where
    w2: "UserOrderStorage_RefundOrders E now2 (RecipientID o1) [i] w1 = (Inr ?res, w2)"
    by (auto simp: UserOrderStorage_RefundOrders_def)
  from stored_orders_Some [OF o2] obtain r where r: "r \<in> set (orders w1)" "order_id r = i" "refunded_order E now o1 = row_order r" by blast
  have "refunded_at r = Some (pg_timestamp E now)" using arg_cong [OF r(3) [symmetric], of RefundedAt] by (simp add: refunded_order_def)
  with r st2 have "\<exists>r \<in> set (orders w1). order_id r = i \<and> refunded_at r \<noteq> None \<and> Status (row_order r) = StatusIssued \<and> \<not> active_row now2 r"
    by (auto simp: active_row_def)
  with w1(1) w2 show ?thesis by blast
qed

theorem refund_race_witness:
  "\<exists>w w1 w2 res. OrderIDs res = [''b''] \<and> reachable sample_env w1 \<and>
     UserOrderStorage_IssueOrders sample_env 3000 ''u'' [''b''] sample_shop = (Inr res, w) \<and>
     UserOrderStorage_RefundOrders sample_env 2500 ''u'' [''b''] w = (Inr res, w1) \<and>
     UserOrderStorage_RefundOrders sample_env 4000 ''u'' [''b''] w1 = (Inr res, w2)"
proof -
  let ?b = "row_order (sample_row 2 ''b'' ''u'')"
  have "\<exists>x. stored_orders sample_shop j = Some x \<and> validateOrderForIssue x ''u'' 3000 = None" if "j \<in> set [''b'']" for j
    using that by (simp add: validateOrderForIssue_None)
  from issue.transaction_complete [OF _ _ _ this, where E = sample_env and ids = "[''b'']"] obtain w where
    w: "UserOrderStorage_IssueOrders sample_env 3000 ''u'' [''b''] sample_shop =
      (Inr \<lparr>UserID = ''u'', OrderIDs = [''b''], Failed = [], ProcError = None\<rparr>, w)"
    "orders w = stamp_rows (mark_issued sample_env 3000) {''b''} (orders sample_shop)" "orders_ok w" "script w = []"
    by (auto simp: UserOrderStorage_IssueOrders_def)
  have b: "stored_orders w ''b'' = Some (issued_order sample_env 3000 ?b)"
    using issue.stored_put [OF w(2)] by simp
  have f: "RecipientID (issued_order sample_env 3000 ?b) = ''u''" "timeline (issued_order sample_env 3000 ?b)"
    "IssuedAt (issued_order sample_env 3000 ?b) = Some 3000" "RefundedAt (issued_order sample_env 3000 ?b) = None"
    "pg_timestamp sample_env 2500 < 3000"
    by (simp_all add: issued_order_def timeline_def) (simp_all add: sample_env_def)
  from refund_race [OF w(3,4) b f(2-5), of 4000] obtain w1 w2 where
    r: "UserOrderStorage_RefundOrders sample_env 2500 ''u'' [''b''] w =
      (Inr \<lparr>UserID = ''u'', OrderIDs = [''b''], Failed = [], ProcError = None\<rparr>, w1)"
    "UserOrderStorage_RefundOrders sample_env 4000 ''u'' [''b''] w1 =
      (Inr \<lparr>UserID = ''u'', OrderIDs = [''b''], Failed = [], ProcError = None\<rparr>, w2)"
    unfolding f(1) by auto
  have "reachable sample_env w" using sample_reachable by (rule reachable.step) (rule order_step.issue [OF _ w(1)], simp)
  then have "reachable sample_env w1" by (rule reachable.step) (rule order_step.refund [OF _ r(1)], simp)
  with w(1) r show ?thesis by auto
qed

end
