(* ===== verification/Grpc_Api.thy ===== *)
theory Grpc_Api
  imports Http_Server "HOL-Library.Word"
begin

text \<open>
  The gRPC server, \<^verbatim>\<open>internal/transport/grpc\<close>: its handlers, the interceptors around them and
  their chain. The messages of \<^verbatim>\<open>proto/order\<close> with the fields of the HTTP requests use the
  same records; numbers are of type \<^verbatim>\<open>int32\<close>. A handler returns a status error or a response,
  with the calls of \<^verbatim>\<open>Pipeline.SendEvent\<close>, the jobs the service started and the calls of
  \<^verbatim>\<open>internal/metrics\<close>, in their order.
\<close>

section \<open>Status errors\<close>

datatype grpc_code = InvalidArgument | AlreadyExists | Internal | Unauthenticated

text \<open>A message is a text, or one that ends with the text of an error of \<^verbatim>\<open>time.Parse\<close> for a
  layout and a value, or with the text of an error of the token library.\<close>

datatype grpc_message = Text string | ParseText string string string | TokenText string goerror

datatype grpc_error = StatusError grpc_code grpc_message

record 'a grpc_outcome =
  g_result :: "grpc_error + 'a"
  g_audits :: "audit_call list"
  g_jobs :: "cache_job list"
  g_metrics :: "metric_call list"

definition grpc_return :: "grpc_error + 'a \<Rightarrow> 'a grpc_outcome" where
  "grpc_return res = \<lparr>g_result = res, g_audits = [], g_jobs = [], g_metrics = []\<rparr>"

definition convertOrderError :: "goerror \<Rightarrow> grpc_error" where
  "convertOrderError err =
     (if errors_Is err ErrDuplicateOrder then StatusError AlreadyExists (Text (Error err))
      else if errors_Is err ErrDatabase then StatusError Internal (Text (Error err))
      else StatusError InvalidArgument (Text (Error err)))"

definition convertAuthError :: "goerror \<Rightarrow> grpc_error" where
  "convertAuthError err =
     (if errors_Is err ErrUserAlreadyExists then StatusError AlreadyExists (Text (Error err))
      else if errors_Is err ErrInvalidCredentials then StatusError Unauthenticated (Text (Error err))
      else if errors_Is err ErrDatabase \<or> errors_Is err ErrHashPassword then StatusError Internal (Text (Error err))
      else StatusError InvalidArgument (Text (Error err)))"

section \<open>Orders\<close>

definition OrderHandler_AcceptOrder ::
    "('w, 'r) order_service \<Rightarrow> time \<times> time \<times> time \<Rightarrow> accept_order_request \<Rightarrow> 'w \<times> 'r \<Rightarrow> string grpc_outcome \<times> 'w \<times> 'r" where
  "OrderHandler_AcceptOrder SV now req s =
     (case Parse_date (req_Expiry req) of
        None \<Rightarrow>
          ((grpc_return (Inl (StatusError InvalidArgument (ParseText text_grpc_time_format ''2006-01-02'' (req_Expiry req)))))
             \<lparr>g_metrics := [IncFailedOrderCount]\<rparr>, s)
      | Some day \<Rightarrow>
          (case now of (storedAt, now1, now2) \<Rightarrow>
           case orderService_AcceptOrder SV now1 now2 (order_of_request day storedAt req) s of
             ((Some e, jobs), s') \<Rightarrow>
               (\<lparr>g_result = Inl (convertOrderError e), g_audits = [], g_jobs = jobs, g_metrics = [IncFailedOrderCount]\<rparr>, s')
           | ((None, jobs), s') \<Rightarrow>
               (\<lparr>g_result = Inr text_order_accepted,
                 g_audits = [status_change (req_ID req) (AnyStatus StatusStored)], g_jobs = jobs,
                 g_metrics = [ObserveOrderValue (req_BasePrice req), ObserveOrderWeight (req_Weight req),
                   IncOrdersByStatus ''stored'']\<rparr>, s')))"

definition OrderHandler_ReturnOrder ::
    "('w, 'r) order_service \<Rightarrow> time \<Rightarrow> string \<Rightarrow> 'w \<times> 'r \<Rightarrow> string grpc_outcome go \<times> 'w \<times> 'r" where
  "OrderHandler_ReturnOrder SV now i s =
     (if i = [] then (Ret (grpc_return (Inl (StatusError InvalidArgument (Text text_need_order_id)))), s)
      else case orderService_ReturnOrder SV now i s of
        (Panic, s') \<Rightarrow> (Panic, s')
      | (Ret (Some e, jobs), s') \<Rightarrow> (Ret ((grpc_return (Inl (convertOrderError e)))\<lparr>g_jobs := jobs\<rparr>), s')
      | (Ret (None, jobs), s') \<Rightarrow>
          (Ret \<lparr>g_result = Inr text_order_deleted, g_audits = [status_change i (AnyString ''Deleted'')], g_jobs = jobs,
             g_metrics = [IncOrderReturns]\<rparr>, s'))"

text \<open>The switch inside the loop compares the new status of the order with the names of the commands.\<close>

definition status_metric :: "order_status \<Rightarrow> metric_call list" where
  "status_metric st =
     (if status_string st = ''issue'' then [IncOrdersByStatus ''issued'']
      else if status_string st = ''refund'' then [IncOrdersByStatus ''refunded''] else [])"

definition grpc_issue_refund ::
    "order_status \<Rightarrow> (goerror + issue_refund_response) \<times> 's \<Rightarrow> issue_refund_response grpc_outcome \<times> 's" where
  "grpc_issue_refund st res = (case res of
      (Inl e, s') \<Rightarrow> (grpc_return (Inl (convertOrderError e)), s')
    | (Inr result, s') \<Rightarrow>
        (\<lparr>g_result = Inr result,
          g_audits = map (\<lambda>i. status_change i (AnyStatus st)) (ProcessedOrderIDs result), g_jobs = [],
          g_metrics = concat (map (\<lambda>i. status_metric st) (ProcessedOrderIDs result))\<rparr>, s'))"

definition OrderHandler_IssueRefundOrders ::
    "('w, 'r) order_service \<Rightarrow> time \<Rightarrow> (nat \<Rightarrow> time \<times> time) \<Rightarrow> issue_refund_request \<Rightarrow> 'w \<times> 'r \<Rightarrow>
     issue_refund_response grpc_outcome \<times> 'w \<times> 'r" where
  "OrderHandler_IssueRefundOrders SV now clock req s =
     (if req_Command req = ''issue''
      then grpc_issue_refund StatusIssued (orderService_IssueOrders SV now clock (req_UserID req) (req_OrderIDs req) s)
      else if req_Command req = ''refund''
      then grpc_issue_refund StatusRefunded (orderService_RefundOrders SV now (req_UserID req) (req_OrderIDs req) s)
      else (grpc_return (Inl (StatusError InvalidArgument (Text text_wrong_command))), s))"

section \<open>Reports\<close>

record pb_order =
  pb_Id :: string
  pb_RecipientId :: string
  pb_Expiry :: string
  pb_BasePrice :: float64
  pb_Weight :: float64
  pb_Packaging :: string

definition convertOrdersToPB :: "order list \<Rightarrow> pb_order list" where
  "convertOrdersToPB os = map (\<lambda>o1. \<lparr>pb_Id = ID o1, pb_RecipientId = RecipientID o1,
     pb_Expiry = Format_RFC3339 (Expiry o1), pb_BasePrice = BasePrice o1, pb_Weight = Weight o1,
     pb_Packaging = Packaging o1\<rparr>) os"

text \<open>A text that cannot be read becomes the zero time. The service prints times in UTC, so the zone is 0.\<close>

definition time_or_zero :: "string \<Rightarrow> time" where
  "time_or_zero s = (case Parse_RFC3339 s of None \<Rightarrow> 0 | Some (wall, zone) \<Rightarrow> wall)"

definition convertServiceOrdersToDomain :: "order_response list \<Rightarrow> order list" where
  "convertServiceOrdersToDomain os = map (\<lambda>o1. \<lparr>ID = resp_ID o1, RecipientID = resp_RecipientID o1,
     Expiry = time_or_zero (resp_Expiry o1), StoredAt = Some (time_or_zero (resp_StoredAt o1)), IssuedAt = None,
     RefundedAt = None, BasePrice = resp_BasePrice o1, PackagePrice = Fin 0, Weight = resp_Weight o1,
     Packaging = resp_Packaging o1\<rparr>) os"

definition grpc_page ::
    "(string \<Rightarrow> string) \<Rightarrow> (goerror + order_response list \<times> string) \<times> 's \<Rightarrow> (pb_order list \<times> string) grpc_outcome \<times> 's" where
  "grpc_page format res = (case res of
      (Inl e, s') \<Rightarrow> (grpc_return (Inl (convertOrderError e)), s')
    | (Inr (os, nextCursor), s') \<Rightarrow>
        (grpc_return (Inr (convertOrdersToPB (convertServiceOrdersToDomain os), format nextCursor)), s'))"

definition OrderHandler_GetUserOrders ::
    "('w, 'r) order_service \<Rightarrow> string \<Rightarrow> 32 word \<Rightarrow> string \<Rightarrow> string \<Rightarrow> 'w \<times> 'r \<Rightarrow>
     (pb_order list \<times> string) grpc_outcome \<times> 'w \<times> 'r" where
  "OrderHandler_GetUserOrders SV userId limit cursor status s =
     (case parse_id_cursor cursor of
        None \<Rightarrow> (grpc_return (Inl (StatusError InvalidArgument (Text text_cursor_format))), s)
      | Some cursorInt \<Rightarrow> grpc_page (\<lambda>c. c) (orderService_GetUserOrders SV userId (sint limit) cursorInt status s))"

definition OrderHandler_GetRefundedOrders ::
    "('w, 'r) order_service \<Rightarrow> 32 word \<Rightarrow> string \<Rightarrow> 'w \<times> 'r \<Rightarrow> (pb_order list \<times> string) grpc_outcome \<times> 'w \<times> 'r" where
  "OrderHandler_GetRefundedOrders SV limit cursor s =
     (case parse_id_cursor cursor of
        None \<Rightarrow> (grpc_return (Inl (StatusError InvalidArgument (Text text_cursor_format))), s)
      | Some cursorInt \<Rightarrow> grpc_page (\<lambda>c. c) (orderService_GetRefundedOrders SV (sint limit) cursorInt s))"

definition formatCursor :: "string \<Rightarrow> string" where
  "formatCursor cursor =
     (if cursor = [] then []
      else case split_on (CHR '','') cursor of [a, b] \<Rightarrow> a @ '','' @ b | _ \<Rightarrow> [])"

definition OrderHandler_GetOrderHistory ::
    "('w, 'r) order_service \<Rightarrow> 32 word \<Rightarrow> string \<Rightarrow> 32 word \<Rightarrow> 'w \<times> 'r \<Rightarrow> (pb_order list \<times> string) grpc_outcome \<times> 'w \<times> 'r" where
  "OrderHandler_GetOrderHistory SV limit lastUpdated idCursor s =
     (case Parse_RFC3339 lastUpdated of
        None \<Rightarrow> (grpc_return (Inl (StatusError InvalidArgument
           (ParseText text_grpc_cursor_format ''2006-01-02T15:04:05Z07:00'' lastUpdated))), s)
      | Some (wall, zone) \<Rightarrow> grpc_page formatCursor (orderService_GetOrderHistory SV (sint limit) wall (sint idCursor) s))"

definition grpc_orders :: "((goerror + order list) \<times> metric_call list) \<times> 's \<Rightarrow> pb_order list grpc_outcome \<times> 's" where
  "grpc_orders res = (case res of
      ((Inl e, ms), s') \<Rightarrow> ((grpc_return (Inl (convertOrderError e)))\<lparr>g_metrics := ms\<rparr>, s')
    | ((Inr os, ms), s') \<Rightarrow> ((grpc_return (Inr (convertOrdersToPB os)))\<lparr>g_metrics := ms\<rparr>, s'))"

definition OrderHandler_GetUserActiveOrders ::
    "('w, 'r) order_service \<Rightarrow> time \<Rightarrow> (nat \<Rightarrow> time) \<Rightarrow> time \<times> time \<Rightarrow> string \<Rightarrow> 'w \<times> 'r \<Rightarrow>
     pb_order list grpc_outcome \<times> 'w \<times> 'r" where
  "OrderHandler_GetUserActiveOrders SV now clock timed userId s =
     (if userId = [] then (grpc_return (Inl (StatusError InvalidArgument (Text text_grpc_need_user_id))), s)
      else grpc_orders (orderService_GetUserActiveOrders SV now clock timed userId s))"

definition OrderHandler_GetAllActiveOrders ::
    "('w, 'r) order_service \<Rightarrow> time \<Rightarrow> (nat \<Rightarrow> time) \<Rightarrow> time \<times> time \<Rightarrow> 'w \<times> 'r \<Rightarrow> pb_order list grpc_outcome \<times> 'w \<times> 'r" where
  "OrderHandler_GetAllActiveOrders SV now clock timed s = grpc_orders (orderService_GetAllActiveOrders SV now clock timed s)"

definition OrderHandler_GetOrderHistoryV2 ::
    "('w, 'r) order_service \<Rightarrow> ((string \<times> order) list \<Rightarrow> (string \<times> order) list) \<Rightarrow> 'w \<times> 'r \<Rightarrow>
     pb_order list grpc_outcome \<times> 'w \<times> 'r" where
  "OrderHandler_GetOrderHistoryV2 SV iter s = grpc_orders (unmeasured (orderService_GetOrderHistoryV2 SV iter s))"

section \<open>Users\<close>

definition grpc_Signup ::
    "bcrypt \<Rightarrow> 'w auth_storage \<Rightarrow> nat \<Rightarrow> signup_request \<Rightarrow> 'w \<Rightarrow> string grpc_outcome \<times> 'w" where
  "grpc_Signup B S salt req w =
     (if req_Email req = [] \<or> req_Password req = []
      then (grpc_return (Inl (StatusError InvalidArgument (Text text_need_credentials))), w)
      else case authService_Register B S salt \<lparr>Email = req_Email req, Password = req_Password req\<rparr> w of
        ((Some e, u), w') \<Rightarrow> (grpc_return (Inl (convertAuthError e)), w')
      | ((None, u), w') \<Rightarrow> (grpc_return (Inr text_user_registered), w'))"

definition grpc_Login ::
    "bcrypt \<Rightarrow> 'w auth_storage \<Rightarrow> ((string \<times> json) list \<Rightarrow> string \<Rightarrow> goerror + string) \<Rightarrow> time \<Rightarrow>
     signup_request \<Rightarrow> 'w \<Rightarrow> (string \<times> string) grpc_outcome go \<times> 'w" where
  "grpc_Login B S sign now req w =
     (case authService_Login B S \<lparr>Email = req_Email req, Password = req_Password req\<rparr> w of
        (Panic, w') \<Rightarrow> (Panic, w')
      | (Ret (Some e), w') \<Rightarrow> (Ret (grpc_return (Inl (convertAuthError e))), w')
      | (Ret None, w') \<Rightarrow>
          (case authService_GenerateToken sign now (req_Email req) of
             Inl e \<Rightarrow> (Ret (grpc_return (Inl (StatusError Internal (Text text_token_failed)))), w')
           | Inr tok \<Rightarrow> (Ret (grpc_return (Inr (text_login_done, tok))), w')))"

section \<open>Interceptors\<close>

definition shouldSkipAuth :: "string \<Rightarrow> bool" where
  "shouldSkipAuth fullMethod \<longleftrightarrow> fullMethod \<in>
     {''/transport.grpc.auth.AuthHandler/Login'', ''/transport.grpc.auth.AuthHandler/Signup''}"

text \<open>The argument is the list of values of the key \<^verbatim>\<open>authorization\<close>.\<close>

definition extractTokenFromMetadata :: "string list \<Rightarrow> grpc_error + string" where
  "extractTokenFromMetadata authHeader = (case authHeader of
      [] \<Rightarrow> Inl (StatusError Unauthenticated (Text text_no_auth_header))
    | h # _ \<Rightarrow> Inr (trim_prefix h ''Bearer ''))"

definition AuthInterceptor ::
    "(string \<Rightarrow> string \<Rightarrow> goerror + bool) \<Rightarrow> string list option \<Rightarrow> string \<Rightarrow> ('s \<Rightarrow> 'a grpc_outcome go \<times> 's) \<Rightarrow>
     's \<Rightarrow> 'a grpc_outcome go \<times> 's" where
  "AuthInterceptor verify metadata fullMethod handler s =
     (if shouldSkipAuth fullMethod then handler s
      else case metadata of
        None \<Rightarrow> (Ret (grpc_return (Inl (StatusError Unauthenticated (Text text_no_metadata)))), s)
      | Some md \<Rightarrow>
          (case extractTokenFromMetadata md of
             Inl e \<Rightarrow> (Ret (grpc_return (Inl e)), s)
           | Inr tokenString \<Rightarrow>
               (case verify tokenString JwtSecret of
                  Inl e \<Rightarrow> (Ret (grpc_return (Inl (StatusError Unauthenticated (TokenText text_token_check_failed e)))), s)
                | Inr valid \<Rightarrow>
                    if \<not> valid then (Ret (grpc_return (Inl (StatusError Unauthenticated (Text text_wrong_token)))), s)
                    else handler s)))"

text \<open>Where the handler panics the process ends, and the events and calls of the request are lost with it.\<close>

definition AuditInterceptor ::
    "string \<Rightarrow> ('s \<Rightarrow> 'a grpc_outcome go \<times> 's) \<Rightarrow> 's \<Rightarrow> 'a grpc_outcome go \<times> 's" where
  "AuditInterceptor fullMethod handler s =
     (case handler s of
        (Panic, s') \<Rightarrow> (Panic, s')
      | (Ret out, s') \<Rightarrow>
          (let status = (case g_result out of Inl e \<Rightarrow> ''Error'' | Inr x \<Rightarrow> ''OK'')
           in (Ret (out\<lparr>
                g_audits := (EventAPIRequest, [(''method'', AnyString fullMethod)]) # g_audits out @
                  [(EventAPIResponse, [(''method'', AnyString fullMethod), (''status'', AnyString status)])],
                g_metrics := IncHTTPRequest fullMethod # g_metrics out @ [IncHTTPResponse status fullMethod]\<rparr>), s')))"

text \<open>\<^verbatim>\<open>status.Code(err).String()\<close>.\<close>

definition code_string :: "grpc_error + 'a \<Rightarrow> string" where
  "code_string res = (case res of
      Inr x \<Rightarrow> ''OK''
    | Inl (StatusError code m) \<Rightarrow> (case code of InvalidArgument \<Rightarrow> ''InvalidArgument'' | AlreadyExists \<Rightarrow> ''AlreadyExists''
        | Internal \<Rightarrow> ''Internal'' | Unauthenticated \<Rightarrow> ''Unauthenticated''))"

definition MetricsInterceptor ::
    "time \<times> time \<Rightarrow> string \<Rightarrow> ('s \<Rightarrow> 'a grpc_outcome go \<times> 's) \<Rightarrow> 's \<Rightarrow> 'a grpc_outcome go \<times> 's" where
  "MetricsInterceptor timed fullMethod handler s =
     (case handler s of
        (Panic, s') \<Rightarrow> (Panic, s')
      | (Ret out, s') \<Rightarrow>
          (let statusCode = code_string (g_result out)
           in (Ret (out\<lparr>g_metrics := IncRequestsInFlight fullMethod # g_metrics out @
                [ObserveAPIResponseTime fullMethod statusCode (time_Sub (snd timed) (fst timed)),
                 IncRequestCount fullMethod statusCode, DecRequestsInFlight fullMethod]\<rparr>), s')))"

text \<open>
  \<^verbatim>\<open>NewServer\<close> chains the interceptors for metrics, tokens, audit and tracing in this order; the
  last is a library's and an argument. Nothing in the chain recovers from a panic.
\<close>

type_synonym ('s, 'a) interceptor = "('s \<Rightarrow> 'a grpc_outcome go \<times> 's) \<Rightarrow> 's \<Rightarrow> 'a grpc_outcome go \<times> 's"

definition ChainUnaryInterceptor :: "('s, 'a) interceptor list \<Rightarrow> ('s, 'a) interceptor" where
  "ChainUnaryInterceptor is handler = foldr (\<lambda>i h. i h) is handler"

definition grpc_call ::
    "(string \<Rightarrow> string \<Rightarrow> goerror + bool) \<Rightarrow> ('s, 'a) interceptor \<Rightarrow> time \<times> time \<Rightarrow> string list option \<Rightarrow> string \<Rightarrow>
     ('s, 'a) interceptor" where
  "grpc_call verify otelgrpc timed metadata fullMethod =
     ChainUnaryInterceptor
       [MetricsInterceptor timed fullMethod, AuthInterceptor verify metadata fullMethod, AuditInterceptor fullMethod, otelgrpc]"

text \<open>\<open>listen\<close> is \<^verbatim>\<open>net.Listen\<close> for TCP and \<open>loop\<close> the library's loop, which returns when
  the server is stopped or fails.\<close>

definition Server_Run :: "(string \<Rightarrow> goerror + 'l) \<Rightarrow> ('l \<Rightarrow> goerror option) \<Rightarrow> string \<Rightarrow> goerror option" where
  "Server_Run listen loop port = (case listen port of Inl err \<Rightarrow> Some err | Inr lis \<Rightarrow> loop lis)"

section \<open>Facts\<close>

text \<open>A chain of wrapped errors ends in one error, so it is at most one of two different plain ones.\<close>

lemma errors_Is_plain:
  assumes "errors_Is e t1" "errors_Is e t2" "unwrap t1 = None" "unwrap t2 = None"
  shows "t1 = t2"
  using assms(1,2)
proof (induction e)
  case (WrapSuf e x)
  with assms(3,4) show ?case by (auto simp: unwrap_def split: goerror.splits)
next
  case (WrapPre x e)
  with assms(3,4) show ?case by (auto simp: unwrap_def split: goerror.splits)
qed (auto simp: errors_Is_flat errors_Is_flat [OF assms(3)] unwrap_def)

text \<open>The status of HTTP that matches the result of a call.\<close>

fun http_of_code :: "grpc_code \<Rightarrow> int" where
  "http_of_code InvalidArgument = 400"
| "http_of_code AlreadyExists = 409"
| "http_of_code Internal = 500"
| "http_of_code Unauthenticated = 401"

fun http_of :: "int \<Rightarrow> grpc_error + 'a \<Rightarrow> int" where
  "http_of ok (Inr x) = ok"
| "http_of ok (Inl (StatusError code m)) = http_of_code code"

lemma http_of_convert:
  "http_of ok (Inl (convertOrderError e)) =
    (if errors_Is e ErrDatabase then 500 else if errors_Is e ErrDuplicateOrder then 409 else 400)"
  using errors_Is_plain [of e ErrDatabase ErrDuplicateOrder] by (auto simp: convertOrderError_def unwrap_def)

lemma grpc_return_simps [simp]:
  "g_result (grpc_return x) = x" "g_audits (grpc_return x) = []" "g_jobs (grpc_return x) = []" "g_metrics (grpc_return x) = []"
  by (simp_all add: grpc_return_def)

lemma Format_RFC3339_seconds: "Format_RFC3339 (t - t mod second) = Format_RFC3339 t"
proof -
  have s: "(t - t mod second) div second = t div second" by (simp add: minus_mod_eq_mult_div)
  have "x div (24 * hour) = x div second div 86400" for x :: int by (simp add: zdiv_zmult2_eq [symmetric])
  with s show ?thesis by (simp add: Format_RFC3339_def)
qed

lemma time_or_zero_Format:
  assumes "0 \<le> t" "t < 3652059 * (24 * hour)"
  shows "Format_RFC3339 (time_or_zero (Format_RFC3339 t)) = Format_RFC3339 t"
  by (simp add: time_or_zero_def Parse_Format_RFC3339 [OF assms] Format_RFC3339_seconds)

text \<open>An unknown address makes the login panic, and nothing between the handler and the process recovers.\<close>

lemma grpc_login_panics:
  assumes "script w = []" "known_users w (req_Email req) = None"
  shows "fst (grpc_call verify id timed md ''/transport.grpc.auth.AuthHandler/Login''
    (grpc_Login B pg_auth_storage sign now req) w) = Panic"
  by (simp add: grpc_call_def ChainUnaryInterceptor_def MetricsInterceptor_def AuthInterceptor_def shouldSkipAuth_def AuditInterceptor_def grpc_Login_def
      authService_Login_def login_table [OF assms(1)] assms(2))

text \<open>No issue and no refund is ever counted.\<close>

lemma issue_refund_not_counted: "g_metrics (fst (OrderHandler_IssueRefundOrders SV now clock req s)) = []"
  by (auto simp: OrderHandler_IssueRefundOrders_def grpc_issue_refund_def status_metric_def
      split: sum.splits prod.splits)

text \<open>Which errors the service returns: a failed issue or refund is an error of the database, and no return complains
  of a duplicate.\<close>

lemma service_issue_error:
  assumes "orderService_IssueOrders (NewOrderService E C) now clock u ids s = (Inl e, s')"
  shows "e = ErrDatabase"
  using assms
  by (cases s) (auto simp: orderService_IssueOrders_def userOrderRepository_IssueOrders_def pg_user_order_storage_def
      UserOrderStorage_IssueOrders_def dest!: issue.transaction_error split: prod.splits sum.splits if_splits)

lemma service_refund_error:
  assumes "orderService_RefundOrders (NewOrderService E C) now u ids s = (Inl e, s')"
  shows "e = ErrDatabase"
  using assms
  by (cases s) (auto simp: orderService_RefundOrders_def userOrderRepository_RefundOrders_def pg_user_order_storage_def
      UserOrderStorage_RefundOrders_def dest!: refund.transaction_error split: prod.splits sum.splits if_splits)

lemma service_return_error:
  assumes "orderService_ReturnOrder (NewOrderService E C) now i s = (Ret (Some e, jobs), s')"
  shows "\<not> errors_Is e ErrDuplicateOrder"
proof -
  obtain w r where s: "s = (w, r)" by fastforce
  obtain q w1 where q: "OrderStorage_FindOrderByID i w = (q, w1)" by fastforce
  show ?thesis
  proof (cases q)
    case (Inl e1)
    with assms s q have "e = e1"
      by (auto simp: orderService_ReturnOrder_def orderRepository_FindOrderByID_def pg_order_storage_def)
    with FindOrderByID_result [OF q] Inl show ?thesis
      by (auto simp: errors_Is_flat unwrap_def split: option.splits)
  next
    case (Inr o1)
    with assms s q have "e \<in> {ErrDatabase, ErrNotStoredOrder, ErrNotExpiredOrder}"
      by (auto simp: orderService_ReturnOrder_def orderRepository_FindOrderByID_def orderRepository_ReturnOrder_def pg_order_storage_def
          split: prod.splits sum.splits option.splits if_splits go.splits)
    then show ?thesis by (auto simp: errors_Is_flat unwrap_def)
  qed
qed

section \<open>Properties\<close>



text \<open>
  (C17) The reports over gRPC: the orders go through the texts of the service, are read back and printed again;
  while the times lie in years of four digits the client receives the same as if the stored orders had been
  converted directly.
\<close>

theorem grpc_report_faithful:
  assumes "list_all (\<lambda>o1. 0 \<le> Expiry o1 \<and> Expiry o1 < 3652059 * (24 * hour)) os"
  shows "convertOrdersToPB (convertServiceOrdersToDomain (mapOrdersToResponses os)) = convertOrdersToPB os"
  using assms
  by (auto simp: convertOrdersToPB_def convertServiceOrdersToDomain_def mapOrdersToResponses_def mapOrderToResponse_def
      list_all_iff time_or_zero_Format)

theorem grpc_report_faithful_witness:
  "convertOrdersToPB (convertServiceOrdersToDomain (mapOrdersToResponses [sample_order ''a'' ''u''])) =
    convertOrdersToPB [sample_order ''a'' ''u'']"
  using grpc_report_faithful [of "[sample_order ''a'' ''u'']"] by (simp add: sample_order_fields)

end
