(* ===== verification/Grpc_Server.thy ===== *)
theory Grpc_Server
  imports Grpc_Api
begin

text \<open>
  The gRPC server as a whole: the methods that \<^verbatim>\<open>NewServer\<close> registers
  (\<^verbatim>\<open>internal/transport/grpc/server.go\<close>), each with the name the generated code gives it, its
  handler and the chain of interceptors around it. The handlers have different types of answers, so the
  answer of the server is their sum. The services and libraries behind the handlers are the same record as
  for HTTP, since \<^verbatim>\<open>main\<close> hands the same services to both servers.
\<close>

section \<open>Methods\<close>

datatype grpc_request =
    AcceptOrder_rpc accept_order_request
  | ReturnOrder_rpc string
  | IssueRefundOrders_rpc issue_refund_request
  | GetUserOrders_rpc string "32 word" string string
  | GetRefundedOrders_rpc "32 word" string
  | GetOrderHistory_rpc "32 word" string "32 word"
  | GetUserActiveOrders_rpc string
  | GetAllActiveOrders_rpc
  | GetOrderHistoryV2_rpc
  | Signup_rpc signup_request
  | Login_rpc signup_request

datatype grpc_response =
    MessageResponse string
  | ProcessedResponse issue_refund_response
  | PageResponse "pb_order list \<times> string"
  | OrdersResponse "pb_order list"
  | TokenResponse "string \<times> string"

definition FullMethodName :: "grpc_request \<Rightarrow> string" where
  "FullMethodName req = (case req of
      AcceptOrder_rpc _ \<Rightarrow> ''/transport.grpc.OrderHandler/AcceptOrder''
    | ReturnOrder_rpc _ \<Rightarrow> ''/transport.grpc.OrderHandler/ReturnOrder''
    | IssueRefundOrders_rpc _ \<Rightarrow> ''/transport.grpc.OrderHandler/IssueRefundOrders''
    | GetUserOrders_rpc _ _ _ _ \<Rightarrow> ''/transport.grpc.OrderHandler/GetUserOrders''
    | GetRefundedOrders_rpc _ _ \<Rightarrow> ''/transport.grpc.OrderHandler/GetRefundedOrders''
    | GetOrderHistory_rpc _ _ _ \<Rightarrow> ''/transport.grpc.OrderHandler/GetOrderHistory''
    | GetUserActiveOrders_rpc _ \<Rightarrow> ''/transport.grpc.OrderHandler/GetUserActiveOrders''
    | GetAllActiveOrders_rpc \<Rightarrow> ''/transport.grpc.OrderHandler/GetAllActiveOrders''
    | GetOrderHistoryV2_rpc \<Rightarrow> ''/transport.grpc.OrderHandler/GetOrderHistoryV2''
    | Signup_rpc _ \<Rightarrow> ''/transport.grpc.auth.AuthHandler/Signup''
    | Login_rpc _ \<Rightarrow> ''/transport.grpc.auth.AuthHandler/Login'')"

definition as_response :: "('a \<Rightarrow> grpc_response) \<Rightarrow> 'a grpc_outcome \<Rightarrow> grpc_response grpc_outcome" where
  "as_response f out = \<lparr>g_result = map_sum id f (g_result out), g_audits = g_audits out, g_jobs = g_jobs out,
     g_metrics = g_metrics out\<rparr>"

definition responded :: "('a \<Rightarrow> grpc_response) \<Rightarrow> 'a grpc_outcome \<times> 's \<Rightarrow> grpc_response grpc_outcome go \<times> 's" where
  "responded f res = (case res of (out, s) \<Rightarrow> (Ret (as_response f out), s))"

definition responded_go :: "('a \<Rightarrow> grpc_response) \<Rightarrow> 'a grpc_outcome go \<times> 's \<Rightarrow> grpc_response grpc_outcome go \<times> 's" where
  "responded_go f res = (case res of (Panic, s) \<Rightarrow> (Panic, s) | (Ret out, s) \<Rightarrow> (Ret (as_response f out), s))"

definition grpc_dispatch ::
    "('w, 'r, 'b) http_env \<Rightarrow> chance \<Rightarrow> grpc_request \<Rightarrow> 'w \<times> 'r \<Rightarrow> grpc_response grpc_outcome go \<times> 'w \<times> 'r" where
  "grpc_dispatch H ch rpc s = (let SV = srv_orders H; now = fst (ch_now ch) in case rpc of
      AcceptOrder_rpc req \<Rightarrow> responded MessageResponse (OrderHandler_AcceptOrder SV (ch_now ch) req s)
    | ReturnOrder_rpc orderId \<Rightarrow> responded_go MessageResponse (OrderHandler_ReturnOrder SV now orderId s)
    | IssueRefundOrders_rpc req \<Rightarrow>
        responded ProcessedResponse (OrderHandler_IssueRefundOrders SV now (ch_clock ch) req s)
    | GetUserOrders_rpc userId limit cursor status \<Rightarrow>
        responded PageResponse (OrderHandler_GetUserOrders SV userId limit cursor status s)
    | GetRefundedOrders_rpc limit cursor \<Rightarrow> responded PageResponse (OrderHandler_GetRefundedOrders SV limit cursor s)
    | GetOrderHistory_rpc limit lastUpdated idCursor \<Rightarrow>
        responded PageResponse (OrderHandler_GetOrderHistory SV limit lastUpdated idCursor s)
    | GetUserActiveOrders_rpc userId \<Rightarrow>
        responded OrdersResponse (OrderHandler_GetUserActiveOrders SV now (fst \<circ> ch_clock ch) (ch_timed ch) userId s)
    | GetAllActiveOrders_rpc \<Rightarrow>
        responded OrdersResponse (OrderHandler_GetAllActiveOrders SV now (fst \<circ> ch_clock ch) (ch_timed ch) s)
    | GetOrderHistoryV2_rpc \<Rightarrow> responded OrdersResponse (OrderHandler_GetOrderHistoryV2 SV (ch_iter ch) s)
    | Signup_rpc req \<Rightarrow>
        responded MessageResponse (on_users (grpc_Signup (srv_bcrypt H) (srv_users H) (ch_salt ch) req) s)
    | Login_rpc req \<Rightarrow>
        responded_go TokenResponse (on_users (grpc_Login (srv_bcrypt H) (srv_users H) (srv_sign H) now req) s))"

text \<open>A call with its metadata: the values of the key \<^verbatim>\<open>authorization\<close>, if the call has metadata.\<close>

definition grpc_serve ::
    "('w, 'r, 'b) http_env \<Rightarrow> ('w \<times> 'r, grpc_response) interceptor \<Rightarrow> chance \<Rightarrow> string list option \<Rightarrow> grpc_request \<Rightarrow>
     'w \<times> 'r \<Rightarrow> grpc_response grpc_outcome go \<times> 'w \<times> 'r" where
  "grpc_serve H otelgrpc ch metadata rpc =
     grpc_call (srv_verify H) otelgrpc (ch_request ch) metadata (FullMethodName rpc) (grpc_dispatch H ch rpc)"

section \<open>Facts\<close>

definition public_rpc :: "grpc_request \<Rightarrow> bool" where
  "public_rpc rpc = (case rpc of Signup_rpc _ \<Rightarrow> True | Login_rpc _ \<Rightarrow> True | _ \<Rightarrow> False)"

lemma shouldSkipAuth_iff: "shouldSkipAuth (FullMethodName rpc) \<longleftrightarrow> public_rpc rpc"
  by (cases rpc) (simp_all add: shouldSkipAuth_def FullMethodName_def public_rpc_def)

lemma as_response_simps [simp]:
  "g_audits (as_response f out) = g_audits out" "g_jobs (as_response f out) = g_jobs out"
  "g_metrics (as_response f out) = g_metrics out" "g_result (as_response f out) = map_sum id f (g_result out)"
  by (simp_all add: as_response_def)

text \<open>A token that the library accepts with the program's key.\<close>

definition grpc_authorized :: "('w, 'r, 'b) http_env \<Rightarrow> string list option \<Rightarrow> bool" where
  "grpc_authorized H metadata = (case metadata of
      Some (h # hs) \<Rightarrow> srv_verify H (trim_prefix h ''Bearer '') JwtSecret = Inr True | _ \<Rightarrow> False)"

lemma AuthInterceptor_cases:
  "AuthInterceptor (srv_verify H) metadata (FullMethodName rpc) handler s =
    (if public_rpc rpc \<or> grpc_authorized H metadata then handler s
     else (Ret (grpc_return (Inl (StatusError Unauthenticated (case metadata of
         None \<Rightarrow> Text text_no_metadata
       | Some [] \<Rightarrow> Text text_no_auth_header
       | Some (h # hs) \<Rightarrow> (case srv_verify H (trim_prefix h ''Bearer '') JwtSecret of
           Inl e \<Rightarrow> TokenText text_token_check_failed e | Inr valid \<Rightarrow> Text text_wrong_token))))), s))"
  by (auto simp: AuthInterceptor_def shouldSkipAuth_iff grpc_authorized_def extractTokenFromMetadata_def
      split: option.splits list.splits sum.splits)


text \<open>The handlers only call collectors of their own, and fit them.\<close>

lemma AcceptOrder_inner: "list_all inner_metric (g_metrics (fst (OrderHandler_AcceptOrder SV now req s)))"
  by (auto simp: OrderHandler_AcceptOrder_def split: option.splits prod.splits)

lemma ReturnOrder_inner:
  "OrderHandler_ReturnOrder SV now i s = (Ret out, s') \<Longrightarrow> list_all inner_metric (g_metrics out)"
  by (auto simp: OrderHandler_ReturnOrder_def split: if_splits prod.splits go.splits option.splits)

lemma grpc_page_inner [simp]: "g_metrics (fst (grpc_page format res)) = []"
  by (auto simp: grpc_page_def split: prod.splits sum.splits)

lemma page_handlers_inner:
  "g_metrics (fst (OrderHandler_GetUserOrders SV userId limit cursor status s)) = []"
  "g_metrics (fst (OrderHandler_GetRefundedOrders SV limit cursor s)) = []"
  "g_metrics (fst (OrderHandler_GetOrderHistory SV limit lastUpdated idCursor s)) = []"
  by (auto simp: OrderHandler_GetUserOrders_def OrderHandler_GetRefundedOrders_def OrderHandler_GetOrderHistory_def
      split: option.splits)

lemma grpc_orders_inner:
  "list_all inner_metric (snd (fst res)) \<Longrightarrow> list_all inner_metric (g_metrics (fst (grpc_orders res)))"
  by (auto simp: grpc_orders_def split: prod.splits sum.splits)

lemma order_lists_inner:
  "list_all inner_metric (g_metrics (fst (OrderHandler_GetUserActiveOrders SV now clock timed u s)))"
  "list_all inner_metric (g_metrics (fst (OrderHandler_GetAllActiveOrders SV now clock timed s)))"
  "list_all inner_metric (g_metrics (fst (OrderHandler_GetOrderHistoryV2 SV iter s)))"
  by (auto simp: OrderHandler_GetUserActiveOrders_def OrderHandler_GetAllActiveOrders_def OrderHandler_GetOrderHistoryV2_def
      intro!: grpc_orders_inner active_inner)

lemma user_handlers_inner:
  "g_metrics (fst (grpc_Signup B S salt req w)) = []"
  "grpc_Login B S sign now req w = (Ret out, w') \<Longrightarrow> g_metrics out = []"
  by (auto simp: grpc_Signup_def grpc_Login_def split: prod.splits option.splits go.splits sum.splits)

lemma responded_out:
  "responded f x = (Ret out, s') \<Longrightarrow> g_metrics out = g_metrics (fst x) \<and> g_audits out = g_audits (fst x) \<and> g_jobs out = g_jobs (fst x)"
  "responded_go f y = (Ret out, s') \<Longrightarrow> \<exists>g. fst y = Ret g \<and> g_metrics out = g_metrics g \<and> g_audits out = g_audits g \<and> g_jobs out = g_jobs g"
  by (auto simp: responded_def responded_go_def split: prod.splits go.splits)

lemma grpc_dispatch_inner:
  assumes "grpc_dispatch H ch rpc s = (Ret out, s')"
  shows "list_all inner_metric (g_metrics out)"
proof (cases rpc)
  case (ReturnOrder_rpc i)
  then show ?thesis
    using assms
    by (cases "OrderHandler_ReturnOrder (srv_orders H) (fst (ch_now ch)) i s")
      (auto simp: grpc_dispatch_def Let_def dest!: responded_out intro: ReturnOrder_inner)
next
  case (Login_rpc req)
  then show ?thesis
    using assms
    by (cases "grpc_Login (srv_bcrypt H) (srv_users H) (srv_sign H) (fst (ch_now ch)) req (fst s)")
      (auto simp: grpc_dispatch_def Let_def on_users_def on_db_def split_beta user_handlers_inner dest!: responded_out)
next
  case (Signup_rpc req)
  then show ?thesis
    using assms by (auto simp: grpc_dispatch_def Let_def on_users_def on_db_def split_beta user_handlers_inner dest!: responded_out)
qed (use assms in \<open>auto simp: grpc_dispatch_def Let_def issue_refund_not_counted page_handlers_inner AcceptOrder_inner order_lists_inner
      dest!: responded_out\<close>)


text \<open>The chain around a handler, when the interceptor for tracing passes calls on.\<close>

lemma grpc_serve_chain:
  assumes "\<And>h s. otelgrpc h s = h s"
  shows "grpc_serve H otelgrpc ch md rpc s = MetricsInterceptor (ch_request ch) (FullMethodName rpc)
    (AuthInterceptor (srv_verify H) md (FullMethodName rpc) (AuditInterceptor (FullMethodName rpc) (grpc_dispatch H ch rpc))) s"
proof -
  have "otelgrpc h = h" for h using assms by (simp add: fun_eq_iff)
  then show ?thesis by (simp add: grpc_serve_def grpc_call_def ChainUnaryInterceptor_def)
qed

lemma MetricsInterceptor_Ret:
  assumes "MetricsInterceptor timed m h s = (Ret out, s')"
  shows "\<exists>inner. h s = (Ret inner, s') \<and> g_result out = g_result inner \<and> g_audits out = g_audits inner \<and> g_jobs out = g_jobs inner \<and>
    g_metrics out = IncRequestsInFlight m # g_metrics inner @
      [ObserveAPIResponseTime m (code_string (g_result inner)) (time_Sub (snd timed) (fst timed)),
       IncRequestCount m (code_string (g_result inner)), DecRequestsInFlight m]"
  using assms by (auto simp: MetricsInterceptor_def Let_def split: prod.splits go.splits)

lemma AuditInterceptor_Ret:
  assumes "AuditInterceptor m h s = (Ret out, s')"
  shows "\<exists>inner st. h s = (Ret inner, s') \<and> g_result out = g_result inner \<and> g_jobs out = g_jobs inner \<and>
    g_metrics out = IncHTTPRequest m # g_metrics inner @ [IncHTTPResponse st m]"
  using assms by (auto simp: AuditInterceptor_def Let_def split: prod.splits go.splits)

lemma guarded_metrics:
  assumes "AuthInterceptor (srv_verify H) md (FullMethodName rpc) (AuditInterceptor (FullMethodName rpc) (grpc_dispatch H ch rpc)) s =
      (Ret inner, s')"
  shows "list_all metric_ok (g_metrics inner) \<and> metric_value RequestsInFlight ls (g_metrics inner) = 0 \<and>
    metric_value RequestCount ls (g_metrics inner) = 0"
proof (cases "public_rpc rpc \<or> grpc_authorized H md")
  case True
  with assms obtain inner2 st where d: "grpc_dispatch H ch rpc s = (Ret inner2, s')"
    "g_metrics inner = IncHTTPRequest (FullMethodName rpc) # g_metrics inner2 @ [IncHTTPResponse st (FullMethodName rpc)]"
    by (auto simp: AuthInterceptor_cases dest!: AuditInterceptor_Ret)
  from grpc_dispatch_inner [OF d(1)] d(2) show ?thesis
    by (auto simp: inner_ok inner_value) (simp_all add: metric_helpers inner_value)
qed (use assms in \<open>auto simp: AuthInterceptor_cases\<close>)

lemma grpc_users_keep_orders:
  "grpc_Signup B pg_auth_storage salt req w = (out, w') \<Longrightarrow> orders w' = orders w \<and> g_jobs out = []"
  "grpc_Login B pg_auth_storage sign now req w = (q, w') \<Longrightarrow> orders w' = orders w \<and> (case q of Panic \<Rightarrow> True | Ret out \<Rightarrow> g_jobs out = [])"
proof (goal_cases)
  case 1
  then show ?case using auth_keeps_orders
    by (auto simp: grpc_Signup_def authService_Register_def AuthRepository_Register_def
        split: sum.splits prod.splits option.splits if_splits) (metis snd_conv)+
next
  case 2
  then show ?case using auth_keeps_orders(1) [of _ w]
    by (auto simp: grpc_Login_def authService_Login_def AuthRepository_Login_def Let_def
        split: sum.splits prod.splits option.splits if_splits) (metis snd_conv)+
qed

lemma public_dispatch:
  assumes "public_rpc rpc" "grpc_dispatch H ch rpc (w, r) = (d, w', r')" "srv_users H = pg_auth_storage"
  shows "orders w' = orders w \<and> r' = r \<and> (case d of Panic \<Rightarrow> True | Ret out \<Rightarrow> g_jobs out = [])"
  using assms
  by (auto simp: grpc_dispatch_def public_rpc_def Let_def on_users_def responded_def responded_go_def
      dest!: grpc_users_keep_orders split: grpc_request.splits prod.splits go.splits)

section \<open>Properties\<close>

text \<open>
  (C12) The metrics of the gRPC server: every call of a collector that a request makes, anywhere between the
  interceptors and the service, passes as many label values as the collector has labels and uses a method the
  collector has, so that the library never panics; the gauge of the requests in flight is back at its value
  after the request, and the request is counted exactly once, under its method and the code of its answer.
\<close>

theorem grpc_metrics:
  assumes "\<And>h s. otelgrpc h s = h s" "grpc_serve H otelgrpc ch md rpc s = (Ret out, s')"
  shows "list_all metric_ok (g_metrics out) \<and> metric_value RequestsInFlight [m] (g_metrics out) = 0 \<and>
    metric_value RequestCount [m, c] (g_metrics out) =
      (if m = FullMethodName rpc \<and> c = code_string (g_result out) then 1 else 0)"
proof -
  from assms(2) obtain inner where inner:
    "AuthInterceptor (srv_verify H) md (FullMethodName rpc) (AuditInterceptor (FullMethodName rpc) (grpc_dispatch H ch rpc)) s = (Ret inner, s')"
    "g_result out = g_result inner"
    "g_metrics out = IncRequestsInFlight (FullMethodName rpc) # g_metrics inner @
      [ObserveAPIResponseTime (FullMethodName rpc) (code_string (g_result inner)) (time_Sub (snd (ch_request ch)) (fst (ch_request ch))),
       IncRequestCount (FullMethodName rpc) (code_string (g_result inner)), DecRequestsInFlight (FullMethodName rpc)]"
    unfolding grpc_serve_chain [of otelgrpc, OF assms(1)] by (auto dest!: MetricsInterceptor_Ret)
  from guarded_metrics [OF inner(1), of "[m]"] guarded_metrics [OF inner(1), of "[m, c]"] show ?thesis
    unfolding inner(2,3) by (auto simp: metric_helpers collector_desc_def)
qed

definition sample_metadata :: "string list option" where
  "sample_metadata = Some [''Bearer '' @ JwtSecret]"

theorem grpc_metrics_witness:
  "\<exists>out. grpc_serve sample_http id sample_chance sample_metadata (GetUserActiveOrders_rpc []) (sample_shop, Map.empty) =
      (Ret out, sample_shop, Map.empty) \<and> list_all metric_ok (g_metrics out) \<and>
    metric_value RequestCount [''/transport.grpc.OrderHandler/GetUserActiveOrders'', ''InvalidArgument''] (g_metrics out) = 1"
proof -
  have auth: "grpc_authorized sample_http sample_metadata"
    by (simp add: grpc_authorized_def sample_http_def trim_prefix_def sample_metadata_def)
  obtain out where out: "grpc_serve sample_http id sample_chance sample_metadata (GetUserActiveOrders_rpc [])
      (sample_shop, Map.empty) = (Ret out, sample_shop, Map.empty)" "code_string (g_result out) = ''InvalidArgument''"
    by (auto simp: grpc_serve_chain auth AuthInterceptor_cases AuditInterceptor_def MetricsInterceptor_def
        grpc_dispatch_def OrderHandler_GetUserActiveOrders_def responded_def code_string_def Let_def)
  with grpc_metrics [of id, OF _ out(1)] show ?thesis by (simp add: FullMethodName_def)
qed

text \<open>
  (C10) Without a valid token no gRPC call changes an order or the cache: a call without metadata, without the
  header or with a token that does not verify is refused as unauthenticated and changes nothing, except that
  signing up and logging in are open, and these leave the orders and the cache alone and start no job. Unlike a
  refused request over HTTP, a refused call leaves no audit event.
\<close>

theorem grpc_guarded:
  assumes "\<And>h s. otelgrpc h s = h s" "srv_users H = pg_auth_storage" "\<not> grpc_authorized H md"
    and "grpc_serve H otelgrpc ch md rpc (w, r) = (res, w', r')"
  shows "orders w' = orders w \<and> r' = r \<and>
    (if public_rpc rpc then (case res of Panic \<Rightarrow> True | Ret out \<Rightarrow> g_jobs out = [])
     else w' = w \<and> (\<exists>out. res = Ret out \<and> code_string (g_result out) = ''Unauthenticated'' \<and> g_jobs out = [] \<and> g_audits out = []))"
proof (cases "public_rpc rpc")
  case False
  then show ?thesis
    using assms(3,4) unfolding grpc_serve_chain [of otelgrpc, OF assms(1)] MetricsInterceptor_def AuthInterceptor_cases
    by (auto simp: code_string_def Let_def)
next
  case True
  have run: "MetricsInterceptor (ch_request ch) (FullMethodName rpc) (AuditInterceptor (FullMethodName rpc) (grpc_dispatch H ch rpc)) (w, r) =
      (res, w', r')"
    using assms(4) True unfolding grpc_serve_chain [of otelgrpc, OF assms(1)]
    by (simp add: MetricsInterceptor_def AuthInterceptor_cases)
  obtain d w1 r1 where d: "grpc_dispatch H ch rpc (w, r) = (d, w1, r1)" by (metis prod.exhaust)
  have "orders w1 = orders w \<and> r1 = r \<and> (case d of Panic \<Rightarrow> True | Ret out \<Rightarrow> g_jobs out = [])"
    using True d assms(2) by (rule public_dispatch)
  moreover have "w' = w1 \<and> r' = r1 \<and> (case d of Panic \<Rightarrow> res = Panic | Ret out \<Rightarrow> \<exists>out2. res = Ret out2 \<and> g_jobs out2 = g_jobs out)"
    using run d by (auto simp: MetricsInterceptor_def AuditInterceptor_def Let_def split: go.splits)
  ultimately show ?thesis using True by (auto split: go.splits)
qed

theorem grpc_guarded_witness:
  "\<exists>out. grpc_serve sample_http id sample_chance (Some [''Bearer forged'']) (AcceptOrder_rpc sample_request) (sample_shop, Map.empty) =
      (Ret out, sample_shop, Map.empty) \<and> code_string (g_result out) = ''Unauthenticated''"
proof -
  obtain res w' r' where run: "grpc_serve sample_http id sample_chance (Some [''Bearer forged'']) (AcceptOrder_rpc sample_request)
      (sample_shop, Map.empty) = (res, w', r')" by (metis prod.exhaust)
  have "\<not> grpc_authorized sample_http (Some [''Bearer forged''])"
    by (simp add: grpc_authorized_def sample_http_def trim_prefix_def JwtSecret_def)
  from grpc_guarded [of id, OF _ _ this run] run show ?thesis by (auto simp: sample_http_def public_rpc_def)
qed

end
