(* ===== verification/Db_Steps.thy ===== *)
theory Db_Steps
  imports Lifecycle Auth Grpc_Server
begin

text \<open>
  What the two servers do to the database, one transaction after the other. \<open>db_step\<close> is a step of the
  database from the point of view of requests: one of the four transactions on orders, the insertion of a user,
  or a statement that only reads. Every request over HTTP and over gRPC, with every pattern of failures, is a
  sequence of such steps, so that what holds of all sequences of steps holds while any number of requests run,
  interleaved transaction by transaction.
\<close>

section \<open>Statements that only read\<close>

definition quiet :: "pg \<Rightarrow> pg \<Rightarrow> bool" where
  "quiet w w' \<longleftrightarrow> same_tables w w' \<and> orders_id_seq w' = orders_id_seq w \<and> tasks_id_seq w' = tasks_id_seq w"

lemma quiet_refl [simp]: "quiet w w"
  by (simp add: quiet_def)

lemma quiet_trans [trans]: "quiet a b \<Longrightarrow> quiet b c \<Longrightarrow> quiet a c"
  by (auto simp: quiet_def intro: same_tables_trans)

lemma db_call_quiet: "quiet w (snd (db_call w))"
  using db_call_same [of w] db_call_frame(5,6) [of w] by (cases "db_call w") (auto simp: quiet_def)

lemma db_query_quiet: "quiet w (snd (db_query rows w))"
  using db_query_same [of rows w] db_query_frame(5,6) [of rows w] by (cases "db_query rows w") (auto simp: quiet_def)

lemma query_row_quiet: "quiet w (snd (query_row rows w))"
  using db_call_quiet [of w] by (auto simp: query_row_def split: prod.splits option.splits list.splits)

lemma limit_query_quiet: "quiet w (snd (limit_query n rows w))"
  using db_query_quiet [of w "[] :: 'a list"] db_query_quiet [of w "take (nat n) rows"]
  by (auto simp: limit_query_def split: prod.splits sum.splits option.splits)

lemma select_id_quiet: "quiet w (snd (select_id i w))"
  by (simp add: select_id_def query_row_quiet)

lemma FindOrderByID_quiet: "quiet w (snd (OrderStorage_FindOrderByID i w))"
  using query_row_quiet [of w "filter (\<lambda>r. order_id r = i) (orders w)"]
  by (auto simp: OrderStorage_FindOrderByID_def split: prod.splits)

lemma FindOrdersByIDs_quiet: "quiet w (snd (OrderStorage_FindOrdersByIDs E ids w))"
  using db_query_quiet [of w "filter (\<lambda>r. order_id r \<in> set ids) (scan_orders E (orders w))"]
  by (auto simp: OrderStorage_FindOrdersByIDs_def split: prod.splits sum.splits option.splits)

lemma GetUserByEmail_quiet: "quiet w (snd (AuthStorage_GetUserByEmail m w))"
  using query_row_quiet [of w "filter (\<lambda>(x, p). x = m) (users w)"]
  by (auto simp: AuthStorage_GetUserByEmail_def split: prod.splits sum.splits)

lemma id_list_quiet: "quiet w (snd (id_list (db_query rows w)))"
  using db_query_quiet [of w rows] by (auto simp: id_list_def split: prod.splits sum.splits)

text \<open>A page: the query, and the query for the cursor.\<close>

lemma page_quiet:
  assumes "limit_query n rows w = (q, w1)"
  shows "quiet w w1" "quiet w (snd (select_id i w1))"
  using limit_query_quiet [of w n rows] select_id_quiet [of w1 i] assms by (auto intro: quiet_trans)

lemma id_page_quiet: "quiet w (snd (id_page E P err n c w))"
  by (auto simp: id_page_def dest: page_quiet split: prod.splits sum.splits)
    (metis page_quiet(2) snd_conv)+

lemma history_quiet: "quiet w (snd (ReportOrderStorage_GetOrderHistory E n t i w))"
  by (auto simp: ReportOrderStorage_GetOrderHistory_def Let_def dest: page_quiet split: prod.splits sum.splits)
    (metis page_quiet(2) snd_conv)+

lemma reports_quiet:
  "quiet w (snd (reportRepository_GetUserOrders (pg_report_storage E) u n c st w))"
  "quiet w (snd (reportRepository_GetRefundedOrders (pg_report_storage E) n c w))"
  "quiet w (snd (reportRepository_GetOrderHistory (pg_report_storage E) n t i w))"
  "quiet w (snd (reportRepository_GetHistoryOrderIDs (pg_report_storage E) w))"
  "quiet w (snd (reportRepository_GetAllActiveOrderIDs (pg_report_storage E) now w))"
  "quiet w (snd (reportRepository_GetUserActiveOrderIDs (pg_report_storage E) now u w))"
  by (simp_all add: reportRepository_GetUserOrders_def reportRepository_GetRefundedOrders_def reportRepository_GetOrderHistory_def
      reportRepository_GetHistoryOrderIDs_def reportRepository_GetAllActiveOrderIDs_def reportRepository_GetUserActiveOrderIDs_def
      pg_report_storage_def ReportOrderStorage_GetUserOrders_def ReportOrderStorage_GetRefundedOrders_def
      ReportOrderStorage_GetHistoryOrderIDs_def ReportOrderStorage_GetAllActiveOrderIDs_def
      ReportOrderStorage_GetUserActiveOrderIDs_def id_page_quiet history_quiet id_list_quiet)

text \<open>The operations of the service that only read, whatever they do to the cache.\<close>

lemma on_db_quiet: "(\<And>w. quiet w (snd (f w))) \<Longrightarrow> quiet (fst s) (fst (snd (on_db f s)))"
  by (cases s) (simp add: split_beta)

lemma on_cache_quiet [simp]: "fst (snd (on_cache f s)) = fst s"
  by (cases s) (simp add: split_beta)

lemma responses_snd [simp]: "snd (responses res) = snd res"
  by (auto simp: responses_def split: prod.splits sum.splits)

lemma lookup_loop_quiet: "quiet (fst s) (fst (snd (lookup_loop (NewOrderService E C) clock ids s)))"
proof (induction ids arbitrary: clock s)
  case (Cons i ids)
  obtain w r where s: "s = (w, r)" by fastforce
  obtain q r1 where g: "oc_GetOrder (svc_cache (NewOrderService E C)) i r = (q, r1)" by fastforce
  obtain f w1 where f: "OrderStorage_FindOrderByID i w = (f, w1)" by fastforce
  have w1: "quiet w w1" using FindOrderByID_quiet [of w i] f by simp
  have rec: "quiet w (fst (snd (lookup_loop (NewOrderService E C) (clock \<circ> Suc) ids (w2, r2))))" if "quiet w w2" for w2 r2
    using Cons.IH [of "(w2, r2)"] that by (auto intro: quiet_trans)
  show ?case
    using g f rec [OF w1] rec [OF quiet_refl]
    by (auto simp: s orderRepository_FindOrderByID_def pg_order_storage_def split: sum.splits option.splits prod.splits
        simp del: NewOrderService_simps(4)) (metis fst_conv snd_conv)+
qed simp

lemma service_pages_quiet:
  "quiet (fst s) (fst (snd (orderService_GetUserOrders (NewOrderService E C) u n c st s)))"
  "quiet (fst s) (fst (snd (orderService_GetRefundedOrders (NewOrderService E C) n c s)))"
  "quiet (fst s) (fst (snd (orderService_GetOrderHistory (NewOrderService E C) n t i s)))"
  by (simp_all add: orderService_GetUserOrders_def orderService_GetRefundedOrders_def orderService_GetOrderHistory_def
      on_db_quiet reports_quiet)

lemma service_history_quiet: "quiet (fst s) (fst (snd (orderService_GetOrderHistoryV2 (NewOrderService E C) iter s)))"
proof -
  have "quiet w (snd (reportRepository_GetOrderHistory (pg_report_storage E) 0 0 0 w))" for w by (rule reports_quiet)
  then show ?thesis
    by (cases s; auto simp: orderService_GetOrderHistoryV2_def Let_def split: prod.splits sum.splits) (metis snd_conv)+
qed

text \<open>Both lists of active orders: a query for the ids, if the cache has none, and the lookups.\<close>

lemma then_lookup_quiet:
  assumes "quiet w w1" "lookup_loop (NewOrderService E C) clock ids (w1, r1) = (os, w2, r2)"
  shows "quiet w w2"
  using assms lookup_loop_quiet [of "(w1, r1)" E C clock ids] by (auto intro: quiet_trans)

lemma user_active_quiet:
  "quiet (fst s) (fst (snd (orderService_GetUserActiveOrders (NewOrderService E C) now clock timed u s)))"
proof -
  obtain w r where s: "s = (w, r)" by fastforce
  obtain q r1 where g: "oc_GetUserActiveOrders (redis_cache (pg_report_storage E) C) u r = (q, r1)" by fastforce
  obtain d w1 where d: "reportRepository_GetUserActiveOrderIDs (pg_report_storage E) now u w = (d, w1)" by fastforce
  have w1: "quiet w w1" using reports_quiet(6) [of w E now u] d by simp
  show ?thesis
    using then_lookup_quiet [OF w1] then_lookup_quiet [OF quiet_refl]
    by (auto simp: orderService_GetUserActiveOrders_def s g d w1 Let_def split: prod.splits sum.splits)
qed

lemma all_active_quiet:
  "quiet (fst s) (fst (snd (orderService_GetAllActiveOrders (NewOrderService E C) now clock timed s)))"
proof -
  obtain w r where s: "s = (w, r)" by fastforce
  obtain q r1 where g: "oc_GetAllActiveOrderIDs (redis_cache (pg_report_storage E) C) r = (q, r1)" by fastforce
  obtain d w1 where d: "reportRepository_GetAllActiveOrderIDs (pg_report_storage E) now w = (d, w1)" by fastforce
  have w1: "quiet w w1" using reports_quiet(5) [of w E now] d by simp
  show ?thesis
    using then_lookup_quiet [OF w1] then_lookup_quiet [OF quiet_refl]
    by (auto simp: orderService_GetAllActiveOrders_def s g d w1 Let_def split: prod.splits sum.splits)
qed

section \<open>Steps of the database\<close>

text \<open>A transaction on orders leaves the users and the audit tasks alone.\<close>

definition spares :: "pg \<Rightarrow> pg \<Rightarrow> bool" where
  "spares w w' \<longleftrightarrow> users w' = users w \<and> audit_tasks w' = audit_tasks w \<and> tasks_id_seq w' = tasks_id_seq w"

lemma spares_refl [simp]: "spares w w"
  by (simp add: spares_def)

lemma spares_trans [trans]: "spares a b \<Longrightarrow> spares b c \<Longrightarrow> spares a c"
  by (simp add: spares_def)

lemma quiet_spares: "quiet w w' \<Longrightarrow> spares w w'"
  by (simp add: quiet_def spares_def same_tables_def)

lemma db_call_spares: "db_call w = (q, w') \<Longrightarrow> spares w w'"
  by (simp add: spares_def db_call_frame)

lemma rollback_spares: "spares w w1 \<Longrightarrow> tasks_id_seq w2 = tasks_id_seq w1 \<Longrightarrow> spares w (rollback w1 w2)"
  by (simp add: spares_def frame_simps)

lemma commit_spares:
  assumes "commit w1 w2 = (q, w')" "spares w w1" "spares w1 w2"
  shows "spares w w'"
proof (cases "db_call w2")
  case (Pair q3 w3)
  with assms(1) have "w' = w3 \<or> w' = rollback w1 w3" by (auto simp: commit_def split: option.splits)
  with db_call_spares [OF Pair] assms(2,3) show ?thesis by (auto simp: spares_def frame_simps)
qed

lemma insert_spares:
  "insert_packaging E i price w = (q, w') \<Longrightarrow> spares w w'"
  "insert_order E o1 w = (q, w') \<Longrightarrow> spares w w'"
  "delete_order i w = (d, w') \<Longrightarrow> spares w w'"
  by (auto simp: insert_packaging_def insert_order_def delete_order_def spares_def db_call_frame Let_def
      split: prod.splits option.splits if_splits)

lemma SaveOrder_spares: "OrderStorage_SaveOrder E o1 w = (q, w') \<Longrightarrow> spares w w'"
proof -
  assume run: "OrderStorage_SaveOrder E o1 w = (q, w')"
  obtain q1 w1 where c: "db_call w = (q1, w1)" by fastforce
  obtain q2 w2 where p: "insert_packaging E (Packaging o1) (PackagePrice o1) w1 = (q2, w2)" by fastforce
  obtain q3 w3 where i: "insert_order E o1 w2 = (q3, w3)" by fastforce
  note sp = db_call_spares [OF c] insert_spares(1) [OF p] insert_spares(2) [OF i]
  then have "spares w1 w3" by (blast intro: spares_trans)
  moreover from this sp have seq: "tasks_id_seq w2 = tasks_id_seq w1" "tasks_id_seq w3 = tasks_id_seq w1" by (simp_all add: spares_def)
  moreover have "w' \<in> {w1, rollback w1 w2, rollback w1 w3} \<or> commit w1 w3 = (q, w')"
    using run c p i by (auto simp: OrderStorage_SaveOrder_def split: option.splits)
  ultimately show ?thesis using sp(1) commit_spares [of w1 w3 q w' w] rollback_spares [OF sp(1)] by auto
qed

lemma DeleteOrder_spares: "OrderStorage_DeleteOrder i w = (q, w') \<Longrightarrow> spares w w'"
proof -
  assume run: "OrderStorage_DeleteOrder i w = (q, w')"
  obtain q1 w1 where c: "db_call w = (q1, w1)" by fastforce
  obtain q2 w2 where d: "delete_order i w1 = (q2, w2)" by fastforce
  note sp = db_call_spares [OF c] insert_spares(3) [OF d]
  then have "tasks_id_seq w2 = tasks_id_seq w1" by (simp add: spares_def)
  moreover have "w' \<in> {w1, rollback w1 w2} \<or> commit w1 w2 = (q, w')"
    using run c d by (auto simp: OrderStorage_DeleteOrder_def split: option.splits sum.splits if_splits)
  ultimately show ?thesis using sp commit_spares [of w1 w2 q w' w] rollback_spares [OF sp(1)] by auto
qed

context order_batch
begin

lemma transaction_spares:
  assumes "order_transaction check stamp now u ids w = (res, w')"
  shows "spares w w'"
proof -
  obtain q1 w1 where c: "db_call w = (q1, w1)" by fastforce
  obtain l w2 where l: "order_loop check stamp u now ids [] None w1 = (l, w2)" by fastforce
  note c1 = db_call_spares [OF c]
  show ?thesis
  proof (cases "q1 = None")
    case False
    with assms c c1 show ?thesis by (auto simp: order_transaction_def)
  next
    case True
    show ?thesis
    proof (cases l)
      case (Inl e)
      with assms c l True have "w' = rollback w1 w2" by (simp add: order_transaction_def)
      with rollback_spares [OF c1] loop_error_seq [OF l [unfolded Inl]] show ?thesis by simp
    next
      case (Inr x)
      obtain pr er where x: "x = (pr, er)" by fastforce
      have "spares w1 w2" using loop_result [OF l [unfolded Inr x]] by (auto simp: spares_def)
      moreover obtain q3 where "commit w1 w2 = (q3, w')"
        using assms c l True Inr x by (auto simp: order_transaction_def split: prod.splits option.splits)
      ultimately show ?thesis using commit_spares c1 by blast
    qed
  qed
qed

end

lemma order_step_spares: "order_step E w w' \<Longrightarrow> spares w w'"
  by (induction rule: order_step.induct)
    (auto simp: UserOrderStorage_IssueOrders_def UserOrderStorage_RefundOrders_def
      dest: SaveOrder_spares DeleteOrder_spares issue.transaction_spares refund.transaction_spares)

inductive db_step :: "pg_env \<Rightarrow> pg \<Rightarrow> pg \<Rightarrow> bool" for E where
  order: "order_step E w w' \<Longrightarrow> db_step E w w'"
| user: "AuthStorage_CreateUser u w = (q, w') \<Longrightarrow> db_step E w w'"
| query: "quiet w w' \<Longrightarrow> db_step E w w'"

definition db_ok :: "pg_env \<Rightarrow> pg \<Rightarrow> bool" where
  "db_ok E w \<longleftrightarrow> shop_ok E w \<and> users_ok w"

lemma CreateUser_orders_seq: "AuthStorage_CreateUser u w = (q, w') \<Longrightarrow> orders_id_seq w' = orders_id_seq w \<and> tasks_id_seq w' = tasks_id_seq w"
  by (auto simp: AuthStorage_CreateUser_def db_call_frame split: prod.splits option.splits if_splits)

lemma db_step_tasks: "db_step E w w' \<Longrightarrow> audit_tasks w' = audit_tasks w \<and> tasks_id_seq w' = tasks_id_seq w"
  by (induction rule: db_step.induct)
    (auto dest: order_step_spares quiet_spares CreateUser_result CreateUser_orders_seq simp: spares_def)

text \<open>The users only matter to the order tables through the frame.\<close>

lemma shop_ok_frame:
  assumes "shop_ok E w" "orders w' = orders w" "packaging_types w' = packaging_types w" "orders_id_seq w' = orders_id_seq w"
  shows "shop_ok E w'"
  using assms by (simp add: shop_ok_def orders_ok_def)

lemma db_step_ok:
  assumes "pg_env_ok E" "db_step E w w'" "db_ok E w"
  shows "db_ok E w'"
  using assms(2,3)
proof (induction rule: db_step.induct)
  case (order w w')
  with order_step_shop_ok [OF assms(1)] order_step_spares show ?case by (auto simp: db_ok_def users_ok_def spares_def)
next
  case (user u w q w')
  with CreateUser_result [OF user(1)] CreateUser_orders_seq [OF user(1)] show ?case
    by (auto simp: db_ok_def users_ok_def intro: shop_ok_frame split: option.splits)
next
  case (query w w')
  then show ?case
    by (auto simp: db_ok_def users_ok_def quiet_def same_tables_def intro: shop_ok_frame)
qed

section \<open>Requests are sequences of steps\<close>

abbreviation db_run :: "pg_env \<Rightarrow> pg \<Rightarrow> pg \<Rightarrow> bool" where
  "db_run E \<equiv> (db_step E)\<^sup>*\<^sup>*"

lemma db_run_query: "quiet w w' \<Longrightarrow> db_run E w w'"
  by (blast intro: db_step.query)

lemma db_run_query_first:
  assumes "quiet w w1" "db_run E w1 w'"
  shows "db_run E w w'"
  using db_run_query [OF assms(1)] assms(2) by (blast intro: rtranclp_trans)

lemma find_quiet: "os_FindOrderByID (pg_order_storage E) i w = (q, w') \<Longrightarrow> quiet w w'"
  using FindOrderByID_quiet [of w i] by (simp add: pg_order_storage_def)

lemma accept_run:
  assumes "orderRepository_AcceptOrder (pg_order_storage E) now1 now2 o1 w = (q, w')" "1000 \<le> now2"
    and "IssuedAt o1 = None" "RefundedAt o1 = None"
  shows "db_run E w w'"
proof (cases "Expiry o1 < now1")
  case True
  with assms show ?thesis by (auto simp: orderRepository_AcceptOrder_def intro: db_run_query)
next
  case False
  obtain f w1 where f: "os_FindOrderByID (pg_order_storage E) (ID o1) w = (f, w1)" by fastforce
  consider "w' = w1" | p r where "ParsePackaging (Packaging o1) = Inr p" "OrderStorage_SaveOrder E (taken_in p now2 o1) w1 = (r, w')"
    using assms(1) False f
    by (auto simp: orderRepository_AcceptOrder_def taken_in_def pg_order_storage_def
        split: if_splits prod.splits sum.splits option.splits)
  then show ?thesis
  proof cases
    case 1
    with find_quiet [OF f] assms(2) show ?thesis by (simp add: db_run_query)
  next
    case 2
    then have "db_step E w1 w'" using assms(2-4) by (blast intro: db_step.order order_step.save)
    with find_quiet [OF f] show ?thesis by (blast intro: db_run_query_first)
  qed
qed

lemma return_run:
  assumes "orderRepository_ReturnOrder (pg_order_storage E) now i w = (q, w')"
  shows "db_run E w w'"
proof -
  obtain f w1 where f: "os_FindOrderByID (pg_order_storage E) i w = (f, w1)" by fastforce
  consider "w' = w1" | r where "OrderStorage_DeleteOrder i w1 = (r, w')"
    using assms(1) f
    by (auto simp: orderRepository_ReturnOrder_def pg_order_storage_def split: if_splits prod.splits sum.splits option.splits)
  then show ?thesis
  proof cases
    case 1
    with find_quiet [OF f] show ?thesis by (simp add: db_run_query)
  next
    case 2
    then have "db_step E w1 w'" by (blast intro: db_step.order order_step.delete)
    with find_quiet [OF f] show ?thesis by (blast intro: db_run_query_first)
  qed
qed

lemma service_return_run:
  assumes "orderService_ReturnOrder (NewOrderService E C) now i (w, r) = (q, w', r')"
  shows "db_run E w w'"
proof -
  obtain f w1 where f: "os_FindOrderByID (pg_order_storage E) i w = (f, w1)" by fastforce
  consider "w' = w1" | d where "orderRepository_ReturnOrder (pg_order_storage E) now i w1 = (d, w')"
    using assms(1) f
    by (auto simp: orderService_ReturnOrder_def orderRepository_FindOrderByID_def split: prod.splits sum.splits go.splits option.splits)
  then show ?thesis
    using find_quiet [OF f] by cases (auto intro: db_run_query db_run_query_first return_run)
qed

lemma service_batch_run:
  assumes "1000 \<le> now"
  shows "orderService_IssueOrders (NewOrderService E C) now clock u ids (w, r) = (q, w', r') \<Longrightarrow> db_run E w w'"
    and "orderService_RefundOrders (NewOrderService E C) now u ids (w, r) = (q, w', r') \<Longrightarrow> db_run E w w'"
proof -
  assume "orderService_IssueOrders (NewOrderService E C) now clock u ids (w, r) = (q, w', r')"
  then have "\<exists>res. UserOrderStorage_IssueOrders E now u ids w = (res, w')"
    by (auto simp: orderService_IssueOrders_def userOrderRepository_IssueOrders_def pg_user_order_storage_def
        split: prod.splits sum.splits if_splits)
  with assms show "db_run E w w'" by (blast intro: db_step.order order_step.issue)
next
  assume "orderService_RefundOrders (NewOrderService E C) now u ids (w, r) = (q, w', r')"
  then have "\<exists>res. UserOrderStorage_RefundOrders E now u ids w = (res, w')"
    by (auto simp: orderService_RefundOrders_def userOrderRepository_RefundOrders_def pg_user_order_storage_def
        split: prod.splits sum.splits if_splits)
  with assms show "db_run E w w'" by (blast intro: db_step.order order_step.refund)
qed

lemma user_quiet: "as_GetUserByEmail pg_auth_storage m w = (q, w') \<Longrightarrow> quiet w w'"
  using GetUserByEmail_quiet [of w m] by (simp add: pg_auth_storage_def)

lemma register_run:
  assumes "authService_Register B pg_auth_storage salt u w = (q, w')"
  shows "db_run E w w'"
proof -
  obtain f w1 where f: "as_GetUserByEmail pg_auth_storage (Email u) w = (f, w1)" by fastforce
  consider "w' \<in> {w, w1}" | v d where "AuthStorage_CreateUser v w1 = (d, w')"
    using assms(1) f
    by (auto simp: authService_Register_def AuthRepository_Register_def pg_auth_storage_def
        split: if_splits prod.splits sum.splits option.splits)
  then show ?thesis
  proof cases
    case 1
    with user_quiet [OF f] show ?thesis by (auto intro: db_run_query)
  next
    case 2
    then have "db_step E w1 w'" by (blast intro: db_step.user)
    with user_quiet [OF f] show ?thesis by (blast intro: db_run_query_first)
  qed
qed

lemma login_quiet: "authService_Login B pg_auth_storage u w = (q, w') \<Longrightarrow> quiet w w'"
  by (auto simp: authService_Login_def AuthRepository_Login_def dest: user_quiet split: prod.splits sum.splits if_splits)

text \<open>The readings of the clock that a request uses lie after the first microsecond of year 1. Nothing is said
  about their order.\<close>

definition clocked :: "chance \<Rightarrow> bool" where
  "clocked ch \<longleftrightarrow> (case ch_now ch of (t0, t1, t2) \<Rightarrow> 1000 \<le> t0 \<and> 1000 \<le> t1 \<and> 1000 \<le> t2)"

definition pg_server :: "pg_env \<Rightarrow> 'r redis_client \<Rightarrow> (pg, 'r, 'b) http_env \<Rightarrow> bool" where
  "pg_server E C H \<longleftrightarrow> srv_orders H = NewOrderService E C \<and> srv_users H = pg_auth_storage"

lemma accept_handlers_run:
  assumes "ch_now ch = (t0, t1, t2)" "1000 \<le> t2"
  shows "APIHandler_AcceptOrder (NewOrderService E C) bindA (ch_now ch) body (w, r) = (out, w', r') \<Longrightarrow> db_run E w w'"
    and "OrderHandler_AcceptOrder (NewOrderService E C) (ch_now ch) req (w, r) = (g, w', r') \<Longrightarrow> db_run E w w'"
proof -
  have idle: "db_run E w w" by simp
  have run: "db_run E w w1" if "orderRepository_AcceptOrder (pg_order_storage E) t1 t2 (order_of_request day t0 req) w = (q, w1)"
    for day req q w1 by (rule accept_run [OF that assms(2)]) (simp_all add: order_of_request_def)
  show "APIHandler_AcceptOrder (NewOrderService E C) bindA (ch_now ch) body (w, r) = (out, w', r') \<Longrightarrow> db_run E w w'"
    using idle run assms(1)
    by (auto simp: APIHandler_AcceptOrder_def orderService_AcceptOrder_def split: sum.splits option.splits prod.splits)
  show "OrderHandler_AcceptOrder (NewOrderService E C) (ch_now ch) req (w, r) = (g, w', r') \<Longrightarrow> db_run E w w'"
    using idle run assms(1)
    by (auto simp: OrderHandler_AcceptOrder_def orderService_AcceptOrder_def split: sum.splits option.splits prod.splits)
qed

lemma return_handlers_run:
  shows "APIHandler_ReturnOrder (NewOrderService E C) now i (w, r) = (q, w', r') \<Longrightarrow> db_run E w w'"
    and "OrderHandler_ReturnOrder (NewOrderService E C) now i (w, r) = (g, w', r') \<Longrightarrow> db_run E w w'"
  by (auto simp: APIHandler_ReturnOrder_def OrderHandler_ReturnOrder_def intro: db_run_query service_return_run
      split: if_splits prod.splits go.splits option.splits)

lemma batch_handlers_run:
  assumes "1000 \<le> now"
  shows "APIHandler_IssueRefundOrders (NewOrderService E C) bindI now clock body (w, r) = (out, w', r') \<Longrightarrow> db_run E w w'"
    and "OrderHandler_IssueRefundOrders (NewOrderService E C) now clock req (w, r) = (g, w', r') \<Longrightarrow> db_run E w w'"
  using assms
  by (auto simp: APIHandler_IssueRefundOrders_def OrderHandler_IssueRefundOrders_def issue_refund_answer_def grpc_issue_refund_def
      intro: db_run_query service_batch_run split: if_splits prod.splits sum.splits)

lemma user_handlers_run:
  shows "AuthHandler_Signup B pg_auth_storage bindS salt body w = (out, w') \<Longrightarrow> db_run E w w'"
    and "AuthHandler_Login B pg_auth_storage bindU sign now2 body w = (q, w') \<Longrightarrow> db_run E w w'"
    and "grpc_Signup B pg_auth_storage salt req w = (g, w') \<Longrightarrow> db_run E w w'"
    and "grpc_Login B pg_auth_storage sign now2 req w = (gq, w') \<Longrightarrow> db_run E w w'"
  by (auto simp: AuthHandler_Signup_def AuthHandler_Login_def grpc_Signup_def grpc_Login_def Let_def
      intro: db_run_query register_run login_quiet split: if_splits prod.splits sum.splits option.splits go.splits)

text \<open>The handlers that only read.\<close>

lemma answer_snd [simp]:
  "snd (page_answer res) = snd res" "snd (orders_answer ores) = snd ores" "snd (unmeasured x) = snd x"
  "snd (grpc_page format res) = snd res" "snd (grpc_orders ores) = snd ores"
  by (auto simp: page_answer_def orders_answer_def unmeasured_def grpc_page_def grpc_orders_def split: prod.splits sum.splits)

lemma report_handlers_quiet:
  "quiet (fst s) (fst (snd (APIHandler_GetUserOrders (NewOrderService E C) u query s)))"
  "quiet (fst s) (fst (snd (APIHandler_GetRefundedOrders (NewOrderService E C) query s)))"
  "quiet (fst s) (fst (snd (APIHandler_GetOrderHistory (NewOrderService E C) query s)))"
  "quiet (fst s) (fst (snd (APIHandler_GetUserActiveOrders (NewOrderService E C) now clock timed u s)))"
  "quiet (fst s) (fst (snd (APIHandler_GetAllActiveOrders (NewOrderService E C) now clock timed s)))"
  "quiet (fst s) (fst (snd (APIHandler_GetOrderHistoryV2 (NewOrderService E C) iter s)))"
  "quiet (fst s) (fst (snd (OrderHandler_GetUserOrders (NewOrderService E C) u limit cursor status s)))"
  "quiet (fst s) (fst (snd (OrderHandler_GetRefundedOrders (NewOrderService E C) limit cursor s)))"
  "quiet (fst s) (fst (snd (OrderHandler_GetOrderHistory (NewOrderService E C) limit lastUpdated idCursor s)))"
  "quiet (fst s) (fst (snd (OrderHandler_GetUserActiveOrders (NewOrderService E C) now clock timed u s)))"
  "quiet (fst s) (fst (snd (OrderHandler_GetAllActiveOrders (NewOrderService E C) now clock timed s)))"
  "quiet (fst s) (fst (snd (OrderHandler_GetOrderHistoryV2 (NewOrderService E C) iter s)))"
  by (auto simp: APIHandler_GetUserOrders_def APIHandler_GetRefundedOrders_def APIHandler_GetOrderHistory_def
      APIHandler_GetUserActiveOrders_def APIHandler_GetAllActiveOrders_def APIHandler_GetOrderHistoryV2_def
      OrderHandler_GetUserOrders_def OrderHandler_GetRefundedOrders_def OrderHandler_GetOrderHistory_def
      OrderHandler_GetUserActiveOrders_def OrderHandler_GetAllActiveOrders_def OrderHandler_GetOrderHistoryV2_def
      service_pages_quiet service_history_quiet user_active_quiet all_active_quiet split: option.splits sum.splits prod.splits)

lemma wrappers_snd [simp]:
  "snd (returned x) = snd x" "snd (responded f y) = snd y" "snd (responded_go f z) = snd z"
  by (auto simp: returned_def responded_def responded_go_def split: prod.splits go.splits)

lemma run_within:
  assumes "\<And>x w' r'. X = (x, w', r') \<Longrightarrow> db_run E w w'"
  shows "db_run E w (fst (snd X))"
  using assms by (cases X) auto

lemma on_users_run:
  assumes "\<And>x w'. f w = (x, w') \<Longrightarrow> db_run E w w'"
  shows "db_run E w (fst (snd (on_users f (w, r))))"
  using assms by (auto simp: on_users_def split: prod.splits)

lemma clocked_cases:
  assumes "clocked ch"
  obtains t0 t1 t2 where "ch_now ch = (t0, t1, t2)" "1000 \<le> t0" "1000 \<le> t2"
  using assms by (auto simp: clocked_def split: prod.splits)

lemmas reading_quiet = report_handlers_quiet [where s = "(w, r)" for w r, simplified]

lemma dispatch_run:
  assumes "pg_server E C H" "clocked ch"
  shows "db_run E w (fst (snd (dispatch H ch ep rq (w, r))))"
proof -
  obtain t0 t1 t2 where now: "ch_now ch = (t0, t1, t2)" "1000 \<le> t0" "1000 \<le> t2"
    using assms(2) by (rule clocked_cases)
  have H: "srv_orders H = NewOrderService E C" "srv_users H = pg_auth_storage" using assms(1) by (simp_all add: pg_server_def)
  show ?thesis
  proof (cases ep)
    case AcceptOrder_ep
    then show ?thesis
      by (simp add: dispatch_def Let_def H) (rule run_within [OF accept_handlers_run(1) [OF now(1,3)]])
  next
    case ReturnOrder_ep
    then show ?thesis
      by (simp add: dispatch_def Let_def H now(1)) (rule run_within [OF return_handlers_run(1)])
  next
    case IssueRefundOrders_ep
    then show ?thesis
      by (simp add: dispatch_def Let_def H now(1)) (rule run_within [OF batch_handlers_run(1) [OF now(2)]])
  next
    case Signup_ep
    then show ?thesis
      by (simp add: dispatch_def Let_def H) (rule on_users_run, rule user_handlers_run(1))
  next
    case Login_ep
    then show ?thesis
      by (simp add: dispatch_def Let_def H) (rule on_users_run, rule user_handlers_run(2))
  qed (simp_all add: dispatch_def Let_def H db_run_query reading_quiet APIHandler_GetMetrics_def)
qed

lemma grpc_dispatch_run:
  assumes "pg_server E C H" "clocked ch"
  shows "db_run E w (fst (snd (grpc_dispatch H ch rpc (w, r))))"
proof -
  obtain t0 t1 t2 where now: "ch_now ch = (t0, t1, t2)" "1000 \<le> t0" "1000 \<le> t2"
    using assms(2) by (rule clocked_cases)
  have H: "srv_orders H = NewOrderService E C" "srv_users H = pg_auth_storage" using assms(1) by (simp_all add: pg_server_def)
  show ?thesis
  proof (cases rpc)
    case AcceptOrder_rpc
    then show ?thesis
      by (simp add: grpc_dispatch_def Let_def H) (rule run_within [OF accept_handlers_run(2) [OF now(1,3)]])
  next
    case ReturnOrder_rpc
    then show ?thesis
      by (simp add: grpc_dispatch_def Let_def H now(1)) (rule run_within [OF return_handlers_run(2)])
  next
    case IssueRefundOrders_rpc
    then show ?thesis
      by (simp add: grpc_dispatch_def Let_def H now(1)) (rule run_within [OF batch_handlers_run(2) [OF now(2)]])
  next
    case Signup_rpc
    then show ?thesis
      by (simp add: grpc_dispatch_def Let_def H) (rule on_users_run, rule user_handlers_run(3))
  next
    case Login_rpc
    then show ?thesis
      by (simp add: grpc_dispatch_def Let_def H) (rule on_users_run, rule user_handlers_run(4))
  qed (simp_all add: grpc_dispatch_def Let_def H db_run_query reading_quiet)
qed

text \<open>The middleware and the interceptors do not touch the database.\<close>

lemma serve_state: "snd (serve H ch (g, ep) rq s) \<in> {s, snd (dispatch H ch ep rq s)}"
proof -
  have auth: "snd (AuthMiddleware v c h s) \<in> {s, snd (h s)}" for v c h
    by (auto simp: AuthMiddleware_def split: option.splits sum.splits)
  have outer: "snd (recovered (AuditMiddleware m p (MetricsMiddleware tm fp m h) s)) = snd (h s)" for m p tm fp h
    by (auto simp: recovered_def AuditMiddleware_def MetricsMiddleware_def Let_def split: prod.splits go.splits)
  show ?thesis using auth by (cases g) (simp_all add: serve_def outer)
qed

lemma grpc_serve_state:
  assumes "\<And>h s. otelgrpc h s = h s"
  shows "snd (grpc_serve H otelgrpc ch md rpc s) \<in> {s, snd (grpc_dispatch H ch rpc s)}"
proof -
  have inner: "snd (AuditInterceptor m h s) = snd (h s)" "snd (MetricsInterceptor tm m h s) = snd (h s)" for m tm and h :: "'a \<times> 'b \<Rightarrow> _"
    by (auto simp: AuditInterceptor_def MetricsInterceptor_def Let_def split: prod.splits go.splits)
  show ?thesis by (simp add: inner grpc_serve_chain [of otelgrpc, OF assms] AuthInterceptor_cases)
qed

text \<open>The service's own goroutines read the database as well: filling the cache at the start, and refreshing it.\<close>

lemma cache_found_quiet: "quiet (fst s) (fst (cache_found (NewOrderService E C) clock ids s))"
  using FindOrdersByIDs_quiet [of "fst s" E ids]
  by (cases s) (auto simp: cache_found_def orderRepository_FindOrdersByIDs_def pg_order_storage_def split: prod.splits sum.splits)

lemma refresh_active_quiet: "quiet (fst s) (fst (snd (oc_RefreshActiveOrders (redis_cache (pg_report_storage E) C) now s)))"
  using reports_quiet(5) [of "fst s" E now]
  by (cases s) (auto simp: redis_cache_def RedisCache_RefreshActiveOrders_def split: prod.splits sum.splits)

lemma refresh_history_quiet: "quiet (fst s) (fst (snd (oc_RefreshHistory (redis_cache (pg_report_storage E) C) s)))"
  using reports_quiet(4) [of "fst s" E]
  by (cases s) (auto simp: redis_cache_def RedisCache_RefreshHistory_def split: prod.splits sum.splits)

lemma CacheRefresh_quiet: "quiet (fst s) (fst (orderService_CacheRefresh (NewOrderService E C) sigs s))"
proof (induction "NewOrderService E C" sigs s rule: orderService_CacheRefresh.induct)
  case (3 now sigs s)
  then show ?case using refresh_active_quiet [of s E C now] by (auto intro: quiet_trans)
next
  case (4 sigs s)
  then show ?case using refresh_history_quiet [of s E C] by (auto intro: quiet_trans)
qed simp_all

lemma InitCache_quiet: "quiet (fst s) (fst (orderService_InitCache (NewOrderService E C) now clock1 clock2 s))"
proof -
  have step: "quiet (fst s) (fst (case on_db f s of (Inl e, s') \<Rightarrow> s' | (Inr ids, s') \<Rightarrow> cache_found (NewOrderService E C) clock ids (g ids s')))"
    if "\<And>w. quiet w (snd (f w))" "\<And>ids s. quiet (fst s) (fst (g ids s))" for f g clock and s :: "pg \<times> 'a"
  proof -
    obtain q s1 where Pair: "on_db f s = (q, s1)" by (metis prod.exhaust)
    with on_db_quiet [of f s, OF that(1)] have s1: "quiet (fst s) (fst s1)" by simp
    have "quiet (fst s) (fst (cache_found (NewOrderService E C) clock ids (g ids s1)))" for ids
      using quiet_trans [OF quiet_trans [OF s1 that(2)] cache_found_quiet] .
    with Pair s1 show ?thesis by (auto split: sum.splits)
  qed
  show ?thesis
    unfolding orderService_InitCache_def Let_def
    by (rule quiet_trans [OF step step]) (simp_all add: reports_quiet refresh_history_quiet)
qed

lemma serve_run:
  assumes "pg_server E C H" "clocked ch"
  shows "db_run E w (fst (snd (serve H ch (g, ep) rq (w, r))))"
proof -
  have "db_run E w w" by simp
  then show ?thesis using serve_state [of H ch g ep rq "(w, r)"] dispatch_run [OF assms, of w ep rq r] by auto
qed

lemma grpc_serve_run:
  assumes "pg_server E C H" "clocked ch" "\<And>h s. otelgrpc h s = h s"
  shows "db_run E w (fst (snd (grpc_serve H otelgrpc ch md rpc (w, r))))"
proof -
  have "db_run E w w" by simp
  then show ?thesis
    using grpc_serve_state [of otelgrpc H ch md rpc "(w, r)", OF assms(3)] grpc_dispatch_run [OF assms(1,2), of w rpc r] by auto
qed

section \<open>Properties\<close>

text \<open>
  Both servers run on the same database by the same transactions: on every route and for every gRPC
  method, with every outcome of the checks and every pattern of failures of the server and of Redis, what a
  request does to the database is a sequence of steps of \<open>db_step\<close>, that is of the four transactions on
  orders with the guarantees the life cycle is proved for, insertions of users and reads.
\<close>

theorem requests_refine:
  assumes "pg_server E C H" "clocked ch" "\<And>h s. otelgrpc h s = h s"
  shows "db_run E w (fst (snd (serve H ch (g, ep) rq (w, r)))) \<and>
    db_run E w (fst (snd (grpc_serve H otelgrpc ch md rpc (w, r))))"
  using serve_run [OF assms(1,2)] grpc_serve_run [OF assms(1,2), of otelgrpc, OF assms(3)] by blast

theorem requests_refine_witness:
  "pg_server sample_env mem_client sample_http \<and>
   db_run sample_env sample_db
     (fst (snd (serve sample_http sample_chance (Open, Signup_ep) sample_http_request (sample_db, Map.empty)))) \<and>
   db_run sample_env sample_db
     (fst (snd (grpc_serve sample_http id sample_chance sample_metadata (AcceptOrder_rpc sample_request) (sample_db, Map.empty))))"
proof -
  have p: "pg_server sample_env mem_client sample_http" by (simp add: pg_server_def sample_http_def)
  have "clocked sample_chance" by (simp add: clocked_def sample_chance_def)
  from requests_refine [OF p this, of id] p show ?thesis by simp
qed

end
