(* ===== verification/Audit_Log.thy ===== *)
theory Audit_Log
  imports Pg "HOL-Library.Char_ord" "HOL-Library.List_Lexorder"
begin

text \<open>
  The log of audit events: \<^verbatim>\<open>internal/storage/postgres/auditlogstorage\<close>,
  \<^verbatim>\<open>internal/repository/auditlogrepo\<close> and
  \<^verbatim>\<open>internal/service/audit_log_service.go\<close>. An event is saved as a task of the outbox: its JSON
  document, a status and a count of attempts. The repository only passes its calls on.
\<close>

section \<open>Events as JSON\<close>

fun event_type_string :: "event_type \<Rightarrow> string" where
  "event_type_string EventStatusChange = ''status_change''"
| "event_type_string EventAPIRequest = ''api_request''"
| "event_type_string EventAPIResponse = ''api_response''"

fun marshal_any :: "any \<Rightarrow> json" where
  "marshal_any (AnyString s) = JString s"
| "marshal_any (AnyInt n) = JNumber (of_int n)"
| "marshal_any (AnyStatus st) = JString (status_string st)"

text \<open>A Go map is marshalled with its keys in order.\<close>

definition marshal_event :: "event \<Rightarrow> json option" where
  "marshal_event e = marshal_object
     [(''Type'', Some (JString (event_type_string (EvType e)))),
      (''Data'', Some (JObject (map (\<lambda>(k, v). (k, marshal_any v)) (sort_key fst (EvData e))))),
      (''Time'', marshal_time (EvTime e))]"

section \<open>The storage\<close>

definition new_task_row :: "pg_env \<Rightarrow> int \<Rightarrow> audit_task \<Rightarrow> task_row" where
  "new_task_row E n t = \<lparr>task_id = n, audit_log = AuditLog t, task_state = TaskStatus t,
     attempt_number = AttemptNumber t, created_at = pg_timestamp E (CreatedAt t),
     updated_at = pg_timestamp E (UpdatedAt t), finished_at = None, next_retry = None\<rparr>"

definition AuditLogStorage_SaveLog :: "pg_env \<Rightarrow> audit_task \<Rightarrow> pg \<Rightarrow> goerror option \<times> pg" where
  "AuditLogStorage_SaveLog E t w = (case db_call w of
      (Some e, w') \<Rightarrow> (Some e, w')
    | (None, w') \<Rightarrow> (None, w'\<lparr>tasks_id_seq := tasks_id_seq w' + 1,
        audit_tasks := audit_tasks w' @ [new_task_row E (tasks_id_seq w') t]\<rparr>))"

definition AuditLogStorage_BeginTx :: "pg \<Rightarrow> goerror option \<times> pg" where
  "AuditLogStorage_BeginTx w = db_call w"

definition zero_time :: "time option \<Rightarrow> time" where
  "zero_time t = (case t of None \<Rightarrow> 0 | Some x \<Rightarrow> x)"

definition row_task :: "task_row \<Rightarrow> audit_task" where
  "row_task r = \<lparr>TaskID = task_id r, AuditLog = audit_log r, TaskStatus = task_state r,
     AttemptNumber = attempt_number r, CreatedAt = created_at r, UpdatedAt = updated_at r,
     FinishedAt = zero_time (finished_at r), NextRetry = zero_time (next_retry r)\<rparr>"

text \<open>The condition of the query; \<open>now\<close> is the server's \<^verbatim>\<open>NOW()\<close>.\<close>

definition pending :: "time \<Rightarrow> task_row \<Rightarrow> bool" where
  "pending now r \<longleftrightarrow> task_state r \<in> {StatusCreated, StatusFailed} \<and>
     (case next_retry r of None \<Rightarrow> True | Some t \<Rightarrow> t < now) \<and> attempt_number r < 3"

text \<open>
  \<open>locked\<close> are the rows that other transactions hold, which \<^verbatim>\<open>SKIP LOCKED\<close> passes over. The
  loop over the rows does not ask \<^verbatim>\<open>rows.Err()\<close>.
\<close>

definition AuditLogStorage_FetchPendingTasksTx ::
    "pg_env \<Rightarrow> time \<Rightarrow> (int \<Rightarrow> bool) \<Rightarrow> nat \<Rightarrow> pg \<Rightarrow> (goerror + audit_task list) \<times> pg" where
  "AuditLogStorage_FetchPendingTasksTx E now locked limit w =
     (case db_query (take limit (filter (\<lambda>r. \<not> locked (task_id r))
          (sort_key created_at (filter (pending now) (scan_tasks E (audit_tasks w)))))) w of
        (Inl e, w') \<Rightarrow> (Inl e, w')
      | (Inr (rows, _), w') \<Rightarrow> (Inr (map row_task rows), w'))"

definition update_task_row :: "pg_env \<Rightarrow> audit_task \<Rightarrow> task_row \<Rightarrow> task_row" where
  "update_task_row E t r =
     (if task_id r = TaskID t
      then r\<lparr>task_state := TaskStatus t, attempt_number := AttemptNumber t,
             updated_at := pg_timestamp E (UpdatedAt t), next_retry := Some (pg_timestamp E (NextRetry t))\<rparr>
      else r)"

definition AuditLogStorage_UpdateTask :: "pg_env \<Rightarrow> audit_task \<Rightarrow> pg \<Rightarrow> goerror option \<times> pg" where
  "AuditLogStorage_UpdateTask E t w = (case db_call w of
      (Some e, w1) \<Rightarrow> (Some e, w1)
    | (None, w1) \<Rightarrow> (case db_call w1 of
        (Some e, w2) \<Rightarrow> (Some e, rollback w1 w2)
      | (None, w2) \<Rightarrow> commit w1 (w2\<lparr>audit_tasks := map (update_task_row E t) (audit_tasks w2)\<rparr>)))"

section \<open>The repository\<close>

definition auditRepository_SaveLog :: "pg_env \<Rightarrow> audit_task \<Rightarrow> pg \<Rightarrow> goerror option \<times> pg" where
  "auditRepository_SaveLog E t w = AuditLogStorage_SaveLog E t w"

definition auditRepository_BeginTx :: "pg \<Rightarrow> goerror option \<times> pg" where
  "auditRepository_BeginTx w = AuditLogStorage_BeginTx w"

definition auditRepository_FetchPendingTasksTx ::
    "pg_env \<Rightarrow> time \<Rightarrow> (int \<Rightarrow> bool) \<Rightarrow> nat \<Rightarrow> pg \<Rightarrow> (goerror + audit_task list) \<times> pg" where
  "auditRepository_FetchPendingTasksTx E now locked limit w =
     AuditLogStorage_FetchPendingTasksTx E now locked limit w"

definition auditRepository_UpdateTask :: "pg_env \<Rightarrow> audit_task \<Rightarrow> pg \<Rightarrow> goerror option \<times> pg" where
  "auditRepository_UpdateTask E t w = AuditLogStorage_UpdateTask E t w"

section \<open>The service\<close>

definition marshal_failure :: goerror where
  "marshal_failure = ErrText ''json: error calling MarshalJSON for type time.Time''"

definition auditService_SaveLog :: "pg_env \<Rightarrow> event \<Rightarrow> pg \<Rightarrow> goerror option \<times> pg" where
  "auditService_SaveLog E e w = (case marshal_event e of
      None \<Rightarrow> (Some marshal_failure, w)
    | Some auditLogJSON \<Rightarrow> auditRepository_SaveLog E
        \<lparr>TaskID = 0, AuditLog = auditLogJSON, TaskStatus = StatusCreated, AttemptNumber = 0,
         CreatedAt = EvTime e, UpdatedAt = EvTime e, FinishedAt = 0, NextRetry = 0\<rparr> w)"

definition auditService_BeginTx :: "pg \<Rightarrow> goerror option \<times> pg" where
  "auditService_BeginTx w = auditRepository_BeginTx w"

definition auditService_FetchPendingTasksTx ::
    "pg_env \<Rightarrow> time \<Rightarrow> (int \<Rightarrow> bool) \<Rightarrow> nat \<Rightarrow> pg \<Rightarrow> (goerror + audit_task list) \<times> pg" where
  "auditService_FetchPendingTasksTx E now locked limit w =
     auditRepository_FetchPendingTasksTx E now locked limit w"

definition auditService_UpdateTask :: "pg_env \<Rightarrow> time \<Rightarrow> audit_task \<Rightarrow> pg \<Rightarrow> goerror option \<times> pg" where
  "auditService_UpdateTask E now t w = auditRepository_UpdateTask E (t\<lparr>UpdatedAt := now\<rparr>) w"

section \<open>Facts\<close>

lemma SaveLog_result:
  assumes "auditService_SaveLog E e w = (q, w')"
  shows "orders w' = orders w \<and> packaging_types w' = packaging_types w \<and> users w' = users w \<and>
    (case q of
       None \<Rightarrow> \<exists>r. audit_tasks w' = audit_tasks w @ [r] \<and> tasks_id_seq w' = tasks_id_seq w + 1 \<and>
         task_id r = tasks_id_seq w \<and> task_state r = StatusCreated \<and> attempt_number r = 0 \<and>
         marshal_event e = Some (audit_log r) \<and> next_retry r = None \<and> finished_at r = None
     | Some _ \<Rightarrow> audit_tasks w' = audit_tasks w \<and> tasks_id_seq w' = tasks_id_seq w)"
  using assms db_call_frame [of w]
  by (auto simp: auditService_SaveLog_def auditRepository_SaveLog_def AuditLogStorage_SaveLog_def new_task_row_def
      split: prod.splits option.splits)

lemma UpdateTask_result:
  assumes "auditService_UpdateTask E now t w = (q, w')"
  shows "orders w' = orders w \<and> packaging_types w' = packaging_types w \<and> users w' = users w \<and>
    tasks_id_seq w' = tasks_id_seq w \<and>
    audit_tasks w' = (case q of None \<Rightarrow> map (update_task_row E (t\<lparr>UpdatedAt := now\<rparr>)) (audit_tasks w)
      | Some e \<Rightarrow> audit_tasks w)"
proof -
  let ?t = "t\<lparr>UpdatedAt := now\<rparr>"
  obtain q1 w1 where c1: "db_call w = (q1, w1)" by fastforce
  obtain q2 w2 where c2: "db_call w1 = (q2, w2)" by fastforce
  let ?w3 = "w2\<lparr>audit_tasks := map (update_task_row E ?t) (audit_tasks w2)\<rparr>"
  note f = db_call_frame [OF c1] db_call_frame [OF c2]
  have u: "AuditLogStorage_UpdateTask E ?t w = (q, w')"
    using assms by (simp add: auditService_UpdateTask_def auditRepository_UpdateTask_def)
  consider "q1 \<noteq> None" | "q1 = None" "q2 \<noteq> None" | "q1 = None" "q2 = None" "commit w1 ?w3 = (q, w')"
    using u c1 c2 by (cases q1; cases q2) (auto simp: AuditLogStorage_UpdateTask_def)
  then show ?thesis
  proof cases
    case 3
    show ?thesis
    proof (cases q)
      case None
      with db_call_frame [OF commit_None [OF 3(3) [unfolded None]]] f show ?thesis by simp
    next
      case (Some e)
      with commit_Some [OF 3(3) [unfolded Some]] commit_seq [OF 3(3)] f show ?thesis by (simp add: same_tables_def)
    qed
  qed (use u c1 c2 f in \<open>auto simp: AuditLogStorage_UpdateTask_def rollback_def\<close>)
qed

lemma UpdateTask_calm:
  assumes "script w = []"
  shows "auditService_UpdateTask E now t w =
    (None, w\<lparr>audit_tasks := map (update_task_row E (t\<lparr>UpdatedAt := now\<rparr>)) (audit_tasks w)\<rparr>)"
  using assms by (simp add: auditService_UpdateTask_def auditRepository_UpdateTask_def AuditLogStorage_UpdateTask_def pg_simps)

lemma FetchPendingTasksTx_result:
  assumes "auditService_FetchPendingTasksTx E now locked limit w = (Inr ts, w')"
  shows "same_tables w w' \<and> tasks_id_seq w' = tasks_id_seq w \<and>
    (\<exists>n. ts = map row_task (take n (take limit (filter (\<lambda>r. \<not> locked (task_id r))
       (sort_key created_at (filter (pending now) (scan_tasks E (audit_tasks w))))))))"
proof -
  let ?rows = "take limit (filter (\<lambda>r. \<not> locked (task_id r))
       (sort_key created_at (filter (pending now) (scan_tasks E (audit_tasks w)))))"
  obtain rs e where q: "db_query ?rows w = (Inr (rs, e), w')" "ts = map row_task rs"
    using assms
    by (auto simp: auditService_FetchPendingTasksTx_def auditRepository_FetchPendingTasksTx_def
        AuditLogStorage_FetchPendingTasksTx_def split: prod.splits sum.splits)
  from db_query_prefix [OF this(1)] obtain n where "rs = take n ?rows" by blast
  with q db_query_same [OF q(1)] db_query_frame(6) [OF q(1)] show ?thesis by blast
qed

end
