(* ===== verification/Outbox.thy ===== *)
theory Outbox
  imports Audit_Log "HOL-Library.Multiset"
begin

text \<open>
  The outbox: \<^verbatim>\<open>internal/audit/outbox_worker.go\<close> and the producer
  \<^verbatim>\<open>internal/kafka/producer.go\<close>. The worker polls the table of audit tasks, marks a task as
  being processed, sends it and records what came of it. The Kafka client
  (\<^verbatim>\<open>github.com/twmb/franz-go\<close>) is a library: its calls are an argument, over a state of its own.
  What the code relies on in it is \<open>kafka_ok\<close>. The runs of the program are the step relation
  \<open>audit_step\<close>; the invariant of all runs bounds how often a task is sent and how often its document
  is in Kafka. There is one worker, as \<^verbatim>\<open>main\<close> starts one and the transactional id of the producer is
  fixed; rows that others hold are locked.
\<close>

section \<open>The producer\<close>

record kgo_record =
  Topic :: string
  Key :: string
  RecordValue :: json

datatype end_try = TryAbort | TryCommit

record 'k kgo_client =
  BeginTransaction :: "'k \<Rightarrow> goerror option \<times> 'k"
  ProduceSync :: "kgo_record \<Rightarrow> 'k \<Rightarrow> goerror option \<times> 'k"
  EndTransaction :: "end_try \<Rightarrow> 'k \<Rightarrow> goerror option \<times> 'k"

definition Producer_SendTransactional ::
    "'k kgo_client \<Rightarrow> int \<Rightarrow> json \<Rightarrow> 'k \<Rightarrow> goerror option \<times> 'k" where
  "Producer_SendTransactional C taskID payload k = (case BeginTransaction C k of
      (Some e, k1) \<Rightarrow> (Some e, k1)
    | (None, k1) \<Rightarrow> (case ProduceSync C \<lparr>Topic = ''audit_logs'', Key = Itoa taskID, RecordValue = payload\<rparr> k1 of
        (Some e, k2) \<Rightarrow> (Some e, snd (EndTransaction C TryAbort k2))
      | (None, k2) \<Rightarrow> (case EndTransaction C TryCommit k2 of
          (Some e, k3) \<Rightarrow> (Some e, k3)
        | (None, k3) \<Rightarrow> (None, k3))))"

text \<open>
  What is documented of a transactional producer. \<open>msgs\<close> are the records the broker has committed,
  \<open>pend\<close> those of a transaction whose outcome is open. A committed record stays; a call adds at most the
  record it was given, and that is pending at first; pending records may be committed or dropped at any call.
  A commit that is reported as done has committed what was pending. A commit that is reported as failed says
  nothing: with the deadline of the context the acknowledgement can be lost after the broker has committed.
\<close>

definition kafka_ok :: "'k kgo_client \<Rightarrow> ('k \<Rightarrow> kgo_record list) \<Rightarrow> ('k \<Rightarrow> kgo_record list) \<Rightarrow> bool" where
  "kafka_ok C msgs pend \<longleftrightarrow>
     (\<forall>k e k'. BeginTransaction C k = (e, k') \<longrightarrow>
        mset (msgs k) \<subseteq># mset (msgs k') \<and> mset (msgs k' @ pend k') \<subseteq># mset (msgs k @ pend k)) \<and>
     (\<forall>rc k e k'. ProduceSync C rc k = (e, k') \<longrightarrow>
        mset (msgs k) \<subseteq># mset (msgs k') \<and> mset (msgs k' @ pend k') \<subseteq># add_mset rc (mset (msgs k @ pend k)) \<and>
        (e = None \<longrightarrow> rc \<in> set (msgs k' @ pend k'))) \<and>
     (\<forall>t k e k'. EndTransaction C t k = (e, k') \<longrightarrow>
        mset (msgs k) \<subseteq># mset (msgs k') \<and> mset (msgs k' @ pend k') \<subseteq># mset (msgs k @ pend k)) \<and>
     (\<forall>k k'. EndTransaction C TryCommit k = (None, k') \<longrightarrow> set (pend k) \<subseteq> set (msgs k'))"

definition audit_record :: "int \<Rightarrow> json \<Rightarrow> kgo_record" where
  "audit_record i payload = \<lparr>Topic = ''audit_logs'', Key = Itoa i, RecordValue = payload\<rparr>"

lemma kafka_laws:
  assumes "kafka_ok C msgs pend"
  shows "BeginTransaction C k = (e, k') \<Longrightarrow> mset (msgs k) \<subseteq># mset (msgs k') \<and> mset (msgs k' @ pend k') \<subseteq># mset (msgs k @ pend k)"
    and "ProduceSync C rc k = (e, k') \<Longrightarrow> mset (msgs k) \<subseteq># mset (msgs k') \<and>
      mset (msgs k' @ pend k') \<subseteq># add_mset rc (mset (msgs k @ pend k)) \<and> (e = None \<longrightarrow> rc \<in> set (msgs k' @ pend k'))"
    and "EndTransaction C t k = (e, k') \<Longrightarrow> mset (msgs k) \<subseteq># mset (msgs k') \<and> mset (msgs k' @ pend k') \<subseteq># mset (msgs k @ pend k)"
    and "EndTransaction C TryCommit k = (None, k') \<Longrightarrow> set (pend k) \<subseteq> set (msgs k')"
  using assms unfolding kafka_ok_def by blast+

text \<open>A send adds at most one copy of its record, keeps what was committed, and if it reports success the record
  is committed.\<close>

lemma SendTransactional_kafka:
  assumes "kafka_ok C msgs pend" "Producer_SendTransactional C i payload k = (e, k')"
  shows "mset (msgs k) \<subseteq># mset (msgs k') \<and> mset (msgs k' @ pend k') \<subseteq># add_mset (audit_record i payload) (mset (msgs k @ pend k)) \<and>
    (e = None \<longrightarrow> audit_record i payload \<in> set (msgs k'))"
proof -
  let ?rc = "audit_record i payload"
  note laws = kafka_laws [OF assms(1)]
  obtain e1 k1 where b: "BeginTransaction C k = (e1, k1)" by fastforce
  obtain e2 k2 where p: "ProduceSync C ?rc k1 = (e2, k2)" by fastforce
  obtain t where t: "t = (if e2 = None then TryCommit else TryAbort)" by simp
  obtain e3 k3 where en: "EndTransaction C t k2 = (e3, k3)" by fastforce
  note l1 = laws(1) [OF b] and l2 = laws(2) [OF p] and l3 = laws(3) [OF en]
  have grow: "mset (msgs k) \<subseteq># mset (msgs k3)" using l1 l2 l3 by (meson subset_mset.trans)
  have bound: "mset (msgs k3 @ pend k3) \<subseteq># add_mset ?rc (mset (msgs k @ pend k))"
    using l1 l2 l3 by (meson mset_subset_eq_add_mset_cancel subset_mset.trans)
  have fst: "mset (msgs k1 @ pend k1) \<subseteq># add_mset ?rc (mset (msgs k @ pend k))"
    using l1 subset_mset.trans [OF _ mset_subset_eq_add_right] by (metis add_mset_add_single mset_subset_eq_add_left subset_mset.trans)
  have run: "(e, k') = (if e1 \<noteq> None then (e1, k1) else if e2 \<noteq> None then (e2, k3) else (e3, k3))"
    using assms(2) b p en
    by (cases e1; cases e2; cases e3) (auto simp: Producer_SendTransactional_def audit_record_def t split: prod.splits)
  have "?rc \<in> set (msgs k3)" if "e2 = None" "e3 = None"
  proof -
    have "?rc \<in> set (msgs k2 @ pend k2)" using l2 that by simp
    moreover have "set (msgs k2) \<subseteq> set (msgs k3)" using l3 set_mset_mono by fastforce
    moreover have "set (pend k2) \<subseteq> set (msgs k3)" using laws(4) en that t by simp
    ultimately show ?thesis by auto
  qed
  with run grow bound fst l1 show ?thesis by (auto split: if_splits)
qed

section \<open>The worker\<close>

record outbox_worker =
  pollInterval :: duration
  batchSize :: nat
  retryDelay :: duration
  maxAttempts :: int

definition NewOutboxWorker :: outbox_worker where
  "NewOutboxWorker = \<lparr>pollInterval = 500 * millisecond, batchSize = 100, retryDelay = 2 * second, maxAttempts = 3\<rparr>"

text \<open>
  \<open>now\<close> is the worker's clock at the start, \<open>t1\<close> and \<open>t2\<close> the service's at the two
  updates; \<open>send\<close> is \<^verbatim>\<open>SendTransactional\<close>.
\<close>

definition OutboxWorker_processTask ::
    "outbox_worker \<Rightarrow> pg_env \<Rightarrow> (int \<Rightarrow> json \<Rightarrow> 'k \<Rightarrow> goerror option \<times> 'k) \<Rightarrow> time \<times> time \<times> time \<Rightarrow>
     audit_task \<Rightarrow> pg \<times> 'k \<Rightarrow> goerror option \<times> pg \<times> 'k" where
  "OutboxWorker_processTask W E send clocks task s =
     (let (w, k) = s; (now, t1, t2) = clocks;
          task = task\<lparr>TaskStatus := StatusProcessing, UpdatedAt := now\<rparr>
      in case auditService_UpdateTask E t1 task w of
        (Some e, w1) \<Rightarrow> (Some e, w1, k)
      | (None, w1) \<Rightarrow>
          (case send (TaskID task) (AuditLog task) k of
             (Some e, k1) \<Rightarrow>
               (let task = task\<lparr>AttemptNumber := AttemptNumber task + 1, TaskStatus := StatusFailed,
                      NextRetry := now + retryDelay W, UpdatedAt := now\<rparr>;
                    task = (if AttemptNumber task \<ge> maxAttempts W
                      then task\<lparr>TaskStatus := StatusNoAttemptsLeft\<rparr> else task);
                    (r, w2) = auditService_UpdateTask E t2 task w1
                in (r, w2, k1))
           | (None, k1) \<Rightarrow>
               (let task = task\<lparr>TaskStatus := StatusFinished, UpdatedAt := now, FinishedAt := now\<rparr>;
                    (r, w2) = auditService_UpdateTask E t2 task w1
                in (r, w2, k1))))"

text \<open>The transaction that fetches a batch; on an error the worker waits for the next tick, that
  is, there is nothing to do.\<close>

definition fetch_batch ::
    "outbox_worker \<Rightarrow> pg_env \<Rightarrow> time \<Rightarrow> (int \<Rightarrow> bool) \<Rightarrow> pg \<Rightarrow> audit_task list \<times> pg" where
  "fetch_batch W E now locked w = (case auditService_BeginTx w of
      (Some e, w1) \<Rightarrow> ([], w1)
    | (None, w1) \<Rightarrow> (case auditService_FetchPendingTasksTx E now locked (batchSize W) w1 of
        (Inl e, w2) \<Rightarrow> ([], rollback w1 w2)
      | (Inr tasks, w2) \<Rightarrow> (case commit w1 w2 of
          (Some e, w3) \<Rightarrow> ([], w3)
        | (None, w3) \<Rightarrow> (tasks, w3))))"

text \<open>The loop over the batch. \<open>live\<close> is how many more tasks start before the context is
  cancelled; \<open>clock\<close> gives the times of each task.\<close>

fun process_tasks ::
    "outbox_worker \<Rightarrow> pg_env \<Rightarrow> (int \<Rightarrow> json \<Rightarrow> 'k \<Rightarrow> goerror option \<times> 'k) \<Rightarrow> (nat \<Rightarrow> time \<times> time \<times> time) \<Rightarrow>
     nat \<Rightarrow> audit_task list \<Rightarrow> pg \<times> 'k \<Rightarrow> pg \<times> 'k" where
  "process_tasks W E send clock live [] s = s"
| "process_tasks W E send clock 0 (task # tasks) s = s"
| "process_tasks W E send clock (Suc live) (task # tasks) s =
     process_tasks W E send (clock \<circ> Suc) live tasks
       (snd (OutboxWorker_processTask W E send (clock 0) task s))"

definition OutboxWorker_processBatch ::
    "outbox_worker \<Rightarrow> pg_env \<Rightarrow> (int \<Rightarrow> json \<Rightarrow> 'k \<Rightarrow> goerror option \<times> 'k) \<Rightarrow> time \<Rightarrow> (int \<Rightarrow> bool) \<Rightarrow>
     (nat \<Rightarrow> time \<times> time \<times> time) \<Rightarrow> nat \<Rightarrow> pg \<times> 'k \<Rightarrow> pg \<times> 'k" where
  "OutboxWorker_processBatch W E send now locked clock live s =
     (case s of (w, k) \<Rightarrow> (case fetch_batch W E now locked w of (tasks, w') \<Rightarrow>
        process_tasks W E send clock live tasks (w', k)))"

section \<open>Runs\<close>

text \<open>
  The state of a run: the database, the Kafka client with the list of sends so far, and the tasks
  the worker has fetched and not yet handled. Between two tasks anything else of the program may run:
  new events are saved, and other parts change other tables. A stop ends the loop of the worker early. The
  process may also die after the update of a task to \<^verbatim>\<open>PROCESSING\<close> and before its send; when it starts
  again it has fetched nothing. A boolean in the list of sends is whether the send was reported as done.
\<close>

type_synonym 'k outbox_state = "pg \<times> ('k \<times> (int \<times> bool) list) \<times> audit_task list"

definition traced ::
    "(int \<Rightarrow> json \<Rightarrow> 'k \<Rightarrow> goerror option \<times> 'k) \<Rightarrow> int \<Rightarrow> json \<Rightarrow>
     'k \<times> (int \<times> bool) list \<Rightarrow> goerror option \<times> 'k \<times> (int \<times> bool) list" where
  "traced send i payload s =
     (case s of (k, tr) \<Rightarrow> (case send i payload k of (e, k') \<Rightarrow> (e, k', tr @ [(i, e = None)])))"

inductive audit_step ::
    "pg_env \<Rightarrow> (int \<Rightarrow> json \<Rightarrow> 'k \<Rightarrow> goerror option \<times> 'k) \<Rightarrow> 'k outbox_state \<Rightarrow> 'k outbox_state \<Rightarrow> bool"
    for E send where
  save: "auditService_SaveLog E e w = (q, w') \<Longrightarrow> audit_step E send (w, k, ts) (w', k, ts)"
| fetch: "fetch_batch NewOutboxWorker E now locked w = (ts, w') \<Longrightarrow> audit_step E send (w, k, []) (w', k, ts)"
| task: "OutboxWorker_processTask NewOutboxWorker E (traced send) clocks t (w, k) = (r, w', k') \<Longrightarrow>
    audit_step E send (w, k, t # ts) (w', k', ts)"
| stop: "audit_step E send (w, k, ts) (w, k, [])"
| died: "auditService_UpdateTask E t1 (t\<lparr>TaskStatus := StatusProcessing, UpdatedAt := now\<rparr>) w = (q, w') \<Longrightarrow>
    audit_step E send (w, k, t # ts) (w', k, [])"
| elsewhere: "\<lbrakk> audit_tasks w' = audit_tasks w; tasks_id_seq w' = tasks_id_seq w \<rbrakk> \<Longrightarrow>
    audit_step E send (w, k, ts) (w', k, ts)"

text \<open>A run starts without tasks, with the Kafka client in the state \<open>k0\<close>.\<close>

inductive audit_run ::
    "pg_env \<Rightarrow> (int \<Rightarrow> json \<Rightarrow> 'k \<Rightarrow> goerror option \<times> 'k) \<Rightarrow> 'k \<Rightarrow> 'k outbox_state \<Rightarrow> bool" for E send k0 where
  start: "audit_tasks w = [] \<Longrightarrow> audit_run E send k0 (w, (k0, []), [])"
| step: "\<lbrakk> audit_run E send k0 s; audit_step E send s s' \<rbrakk> \<Longrightarrow> audit_run E send k0 s'"

section \<open>The invariant\<close>

definition sends :: "(int \<times> bool) list \<Rightarrow> int \<Rightarrow> nat" where
  "sends tr i = length (filter (\<lambda>(j, ok). j = i) tr)"

definition confirmed :: "(int \<times> bool) list \<Rightarrow> int \<Rightarrow> nat" where
  "confirmed tr i = length (filter (\<lambda>(j, ok). j = i \<and> ok) tr)"

text \<open>What the status of a task says about the sends so far.\<close>

definition task_ok :: "(int \<times> bool) list \<Rightarrow> task_row \<Rightarrow> bool" where
  "task_ok tr r \<longleftrightarrow> finished_at r = None \<and> (let n = attempt_number r; s = int (sends tr (task_id r)); d = confirmed tr (task_id r) in
     case task_state r of
       StatusCreated \<Rightarrow> n = 0 \<and> s = 0 \<and> d = 0
     | StatusFailed \<Rightarrow> 1 \<le> n \<and> n < 3 \<and> s = n \<and> d = 0
     | StatusProcessing \<Rightarrow> 0 \<le> n \<and> n < 3 \<and> (s = n \<and> d = 0 \<or> s = n + 1 \<and> d \<le> 1)
     | StatusNoAttemptsLeft \<Rightarrow> n = 3 \<and> s = 3 \<and> d = 0
     | StatusFinished \<Rightarrow> 0 \<le> n \<and> n < 3 \<and> s = n + 1 \<and> d = 1)"

definition holds_task :: "task_row list \<Rightarrow> audit_task \<Rightarrow> bool" where
  "holds_task rows t \<longleftrightarrow> (\<exists>r \<in> set rows. task_id r = TaskID t \<and> attempt_number r = AttemptNumber t \<and>
     task_state r \<in> {StatusCreated, StatusFailed})"

definition audit_ok :: "'k outbox_state \<Rightarrow> bool" where
  "audit_ok s \<longleftrightarrow> (case s of (w, (k, tr), ts) \<Rightarrow>
     distinct (map task_id (audit_tasks w)) \<and>
     list_all (\<lambda>r. task_id r < tasks_id_seq w \<and> task_ok tr r) (audit_tasks w) \<and>
     list_all (\<lambda>(i, ok). i \<in> task_id ` set (audit_tasks w)) tr \<and>
     distinct (map TaskID ts) \<and> list_all (holds_task (audit_tasks w)) ts)"

lemma sends_snoc:
  "sends (tr @ [(j, ok)]) i = sends tr i + (if i = j then 1 else 0)"
  "confirmed (tr @ [(j, ok)]) i = confirmed tr i + (if i = j \<and> ok then 1 else 0)"
  by (auto simp: sends_def confirmed_def)

lemma sends_none: "list_all (\<lambda>(j, ok). j \<in> A) tr \<Longrightarrow> i \<notin> A \<Longrightarrow> sends tr i = 0 \<and> confirmed tr i = 0"
  by (auto simp: sends_def confirmed_def list_all_iff filter_empty_conv)

lemma task_ok_cong:
  "sends tr' (task_id r) = sends tr (task_id r) \<Longrightarrow> confirmed tr' (task_id r) = confirmed tr (task_id r) \<Longrightarrow>
   task_ok tr' r = task_ok tr r"
  by (simp add: task_ok_def)

section \<open>Every step keeps it\<close>

lemma audit_ok_frame:
  assumes "audit_ok (w, k, ts)" "audit_tasks w' = audit_tasks w" "tasks_id_seq w' = tasks_id_seq w"
  shows "audit_ok (w', k, ts)"
  using assms by (simp add: audit_ok_def split: prod.splits)

lemma audit_ok_save:
  assumes "audit_ok (w, k, ts)" "auditService_SaveLog E e w = (q, w')"
  shows "audit_ok (w', k, ts)"
proof (cases q)
  case (Some x)
  with SaveLog_result [OF assms(2)] assms(1) show ?thesis by (auto intro: audit_ok_frame)
next
  case None
  obtain kk tr where k: "k = (kk, tr)" by fastforce
  from SaveLog_result [OF assms(2)] None obtain r where r: "audit_tasks w' = audit_tasks w @ [r]"
    "tasks_id_seq w' = tasks_id_seq w + 1" "task_id r = tasks_id_seq w" "task_state r = StatusCreated"
    "attempt_number r = 0" "finished_at r = None" by auto
  note ok = assms(1) [unfolded audit_ok_def k, simplified]
  have "sends tr (task_id r) = 0 \<and> confirmed tr (task_id r) = 0"
    using ok r(3) by (intro sends_none [of "task_id ` set (audit_tasks w)"]) (auto simp: list_all_iff)
  then have "task_ok tr r" using r by (simp add: task_ok_def)
  with ok r show ?thesis
    by (auto simp: audit_ok_def k list_all_iff holds_task_def)
qed

lemma fetch_batch_result:
  assumes "fetch_batch W E now locked w = (ts, w')"
  shows "same_tables w w' \<and> tasks_id_seq w' = tasks_id_seq w \<and>
    (\<exists>n. ts = map row_task (take n (take (batchSize W) (filter (\<lambda>r. \<not> locked (task_id r))
       (sort_key created_at (filter (pending now) (scan_tasks E (audit_tasks w))))))))"
proof -
  obtain q w1 where b: "db_call w = (q, w1)" by fastforce
  note f = db_call_frame [OF b] db_call_same [OF b]
  obtain r w2 where fe: "auditService_FetchPendingTasksTx E now locked (batchSize W) w1 = (r, w2)" by fastforce
  show ?thesis
  proof (cases "q = None \<and> (\<exists>tasks. r = Inr tasks)")
    case True
    then obtain tasks where r: "q = None" "r = Inr tasks" by blast
    note fr = FetchPendingTasksTx_result [OF fe [unfolded r(2)]]
    obtain q3 w3 where c: "commit w1 w2 = (q3, w3)" by fastforce
    show ?thesis
    proof (cases q3)
      case None
      with assms b r fe c have "ts = tasks" "w' = w3"
        by (auto simp: fetch_batch_def auditService_BeginTx_def auditRepository_BeginTx_def AuditLogStorage_BeginTx_def)
      with fr f db_call_frame [OF commit_None [OF c [unfolded None]]] db_call_same [OF commit_None [OF c [unfolded None]]]
      show ?thesis by (auto intro: same_tables_trans)
    next
      case (Some e)
      with assms b r fe c have "ts = []" "w' = w3"
        by (auto simp: fetch_batch_def auditService_BeginTx_def auditRepository_BeginTx_def AuditLogStorage_BeginTx_def)
      with f fr commit_Some [OF c [unfolded Some]] commit_seq [OF c] show ?thesis
        by (auto intro: same_tables_trans exI [of _ 0])
    qed
  next
    case False
    then have "ts = [] \<and> (w' = w1 \<or> (\<exists>e. r = Inl e \<and> w' = rollback w1 w2))"
      using assms b fe
      by (cases q; cases r)
        (auto simp: fetch_batch_def auditService_BeginTx_def auditRepository_BeginTx_def AuditLogStorage_BeginTx_def)
    moreover have "tasks_id_seq w2 = tasks_id_seq w1" if "r = Inl e" for e
      using fe that db_query_frame(6)
      by (fastforce simp: auditService_FetchPendingTasksTx_def auditRepository_FetchPendingTasksTx_def
          AuditLogStorage_FetchPendingTasksTx_def split: prod.splits sum.splits)
    ultimately show ?thesis
      using f by (auto simp: frame_simps intro: same_tables_trans exI [of _ 0])
  qed
qed

lemma fetched_rows:
  assumes "mset (scan_tasks E rows) = mset rows" "distinct (map task_id rows)"
    and "got = take n (take m (filter P (sort_key created_at (filter (pending now) (scan_tasks E rows)))))"
  shows "distinct (map task_id got)" "set got \<subseteq> {r \<in> set rows. pending now r \<and> P r}"
    "sorted (map created_at got)" "length got \<le> m"
proof -
  have set: "set (scan_tasks E rows) = set rows" using assms(1) by (rule mset_eq_setD)
  have "mset (map task_id (scan_tasks E rows)) = mset (map task_id rows)" using assms(1) by simp
  then have "distinct (map task_id (scan_tasks E rows))"
    using assms(2) mset_eq_imp_distinct_iff by blast
  then have "distinct (map task_id (sort_key created_at (filter (pending now) (scan_tasks E rows))))"
    by (simp add: distinct_map inj_on_def)
  then have "distinct (map task_id (filter P (sort_key created_at (filter (pending now) (scan_tasks E rows)))))"
    by (rule distinct_map_filter)
  then show "distinct (map task_id got)" unfolding assms(3) by (simp add: take_map [symmetric])
  have "set got \<subseteq> set (filter P (sort_key created_at (filter (pending now) (scan_tasks E rows))))"
    unfolding assms(3) by (meson set_take_subset subset_trans)
  with set show "set got \<subseteq> {r \<in> set rows. pending now r \<and> P r}" by auto
  have "sorted (map created_at (filter P (sort_key created_at (filter (pending now) (scan_tasks E rows)))))"
    by (rule sorted_filter) simp
  then show "sorted (map created_at got)" unfolding assms(3) by (simp add: take_map [symmetric] sorted_wrt_take)
  show "length got \<le> m" unfolding assms(3) by simp
qed

lemma audit_ok_fetch:
  assumes "pg_env_ok E" "audit_ok (w, k, [])" "fetch_batch W E now locked w = (ts, w')"
  shows "audit_ok (w', k, ts)"
proof -
  obtain kk tr where k: "k = (kk, tr)" by fastforce
  from fetch_batch_result [OF assms(3)] obtain n got where g: "same_tables w w'" "tasks_id_seq w' = tasks_id_seq w"
    "got = take n (take (batchSize W) (filter (\<lambda>r. \<not> locked (task_id r))
       (sort_key created_at (filter (pending now) (scan_tasks E (audit_tasks w))))))" "ts = map row_task got"
    by blast
  have "mset (scan_tasks E (audit_tasks w)) = mset (audit_tasks w)" "distinct (map task_id (audit_tasks w))"
    using assms(1,2) by (auto simp: pg_env_ok_def audit_ok_def k)
  note rows = fetched_rows [OF this g(3)]
  have "map TaskID ts = map task_id got" by (simp add: g(4) row_task_def comp_def)
  moreover have "list_all (holds_task (audit_tasks w)) ts"
    using rows(2) by (fastforce simp: g(4) list_all_iff holds_task_def row_task_def pending_def)
  ultimately show ?thesis
    using assms(2) g(1,2) rows(1) by (simp add: audit_ok_def k same_tables_def)
qed

text \<open>What a change of the row of one task may be: the other rows and the keys stay.\<close>

definition restates :: "int \<Rightarrow> task_status \<Rightarrow> int \<Rightarrow> (task_row \<Rightarrow> task_row) \<Rightarrow> bool" where
  "restates i st n f \<longleftrightarrow> (\<forall>r. task_id (f r) = task_id r \<and> finished_at (f r) = finished_at r \<and>
     (if task_id r = i then task_state (f r) = st \<and> attempt_number (f r) = n else f r = r))"

lemma restates_update: "restates (TaskID t) (TaskStatus t) (AttemptNumber t) (update_task_row E (t\<lparr>UpdatedAt := now\<rparr>))"
  by (simp add: restates_def update_task_row_def)

lemma restates_comp: "restates i st n f \<Longrightarrow> restates i st' n' g \<Longrightarrow> restates i st' n' (g \<circ> f)"
  by (auto simp: restates_def)

text \<open>The states a task can be left in after it was sent, with or without success.\<close>

definition after_send :: "bool \<Rightarrow> int \<Rightarrow> task_status \<times> int" where
  "after_send ok n = (if ok then (StatusFinished, n)
     else if n + 1 \<ge> 3 then (StatusNoAttemptsLeft, n + 1) else (StatusFailed, n + 1))"

lemma processTask_result:
  assumes "OutboxWorker_processTask NewOutboxWorker E (traced send) clocks t (w, k, tr) = (r, w', k', tr')"
  shows "tasks_id_seq w' = tasks_id_seq w \<and>
    (audit_tasks w' = audit_tasks w \<and> tr' = tr \<or>
     (\<exists>ok f st n. tr' = tr @ [(TaskID t, ok)] \<and> audit_tasks w' = map f (audit_tasks w) \<and>
        restates (TaskID t) st n f \<and>
        (st, n) \<in> {(StatusProcessing, AttemptNumber t), after_send ok (AttemptNumber t)}))"
proof -
  obtain now t1 t2 where c: "clocks = (now, t1, t2)" by (metis prod.exhaust)
  let ?t = "t\<lparr>TaskStatus := StatusProcessing, UpdatedAt := now\<rparr>"
  obtain q1 w1 where u1: "auditService_UpdateTask E t1 ?t w = (q1, w1)" by fastforce
  show ?thesis
  proof (cases q1)
    case (Some e)
    with assms c u1 UpdateTask_result [OF u1] show ?thesis by (auto simp: OutboxWorker_processTask_def)
  next
    case None
    obtain e k1 where s: "send (TaskID t) (AuditLog t) k = (e, k1)" by fastforce
    define t3 where "t3 = (case e of
        None \<Rightarrow> ?t\<lparr>TaskStatus := StatusFinished, UpdatedAt := now, FinishedAt := now\<rparr>
      | Some _ \<Rightarrow> (let u = ?t\<lparr>AttemptNumber := AttemptNumber t + 1, TaskStatus := StatusFailed,
            NextRetry := now + 2 * second, UpdatedAt := now\<rparr>
          in if AttemptNumber t + 1 \<ge> 3 then u\<lparr>TaskStatus := StatusNoAttemptsLeft\<rparr> else u))"
    obtain q2 w2 where u2: "auditService_UpdateTask E t2 t3 w1 = (q2, w2)" by fastforce
    have res: "w' = w2 \<and> tr' = tr @ [(TaskID t, e = None)]"
      using assms c u1 None s u2
      by (cases e) (auto simp: OutboxWorker_processTask_def traced_def t3_def Let_def NewOutboxWorker_def split: prod.splits if_splits)
    have t3: "TaskID t3 = TaskID t" "(TaskStatus t3, AttemptNumber t3) = after_send (e = None) (AttemptNumber t)"
      by (auto simp: t3_def after_send_def Let_def split: option.splits)
    define f1 where "f1 = update_task_row E (?t\<lparr>UpdatedAt := t1\<rparr>)"
    define f2 where "f2 = update_task_row E (t3\<lparr>UpdatedAt := t2\<rparr>)"
    have f1: "restates (TaskID t) StatusProcessing (AttemptNumber t) f1"
      unfolding f1_def using restates_update [of ?t E t1] by simp
    have f2: "restates (TaskID t) (TaskStatus t3) (AttemptNumber t3) f2"
      unfolding f2_def using restates_update [of t3 E t2] t3(1) by simp
    note r1 = UpdateTask_result [OF u1] and r2 = UpdateTask_result [OF u2]
    show ?thesis
    proof (cases q2)
      case (Some e2)
      with r1 r2 None have "audit_tasks w2 = map f1 (audit_tasks w)" "tasks_id_seq w2 = tasks_id_seq w"
        by (simp_all add: f1_def)
      with f1 res show ?thesis by blast
    next
      case None
      with r1 r2 \<open>q1 = None\<close> have "audit_tasks w2 = map (f2 \<circ> f1) (audit_tasks w)" "tasks_id_seq w2 = tasks_id_seq w"
        by (simp_all add: f1_def f2_def)
      moreover have "restates (TaskID t) (TaskStatus t3) (AttemptNumber t3) (f2 \<circ> f1)"
        using restates_comp [OF f1 f2] .
      ultimately show ?thesis using res t3(2) by blast
    qed
  qed
qed

lemma task_ok_after:
  assumes "task_ok tr r" "task_state r \<in> {StatusCreated, StatusFailed}" "restates (task_id r) st n f"
    "(st, n) \<in> {(StatusProcessing, attempt_number r), after_send ok (attempt_number r)}"
  shows "task_ok (tr @ [(task_id r, ok)]) (f r)"
proof -
  have f: "task_id (f r) = task_id r" "finished_at (f r) = finished_at r" "task_state (f r) = st" "attempt_number (f r) = n"
    using assms(3) by (auto simp: restates_def)
  from assms(1,2) have "finished_at r = None" "0 \<le> attempt_number r" "attempt_number r < 3"
    "int (sends tr (task_id r)) = attempt_number r" "confirmed tr (task_id r) = 0"
    by (auto simp: task_ok_def Let_def)
  with assms(4) show ?thesis
    by (auto simp: task_ok_def f sends_snoc after_send_def split: if_splits)
qed

lemma audit_ok_task:
  assumes "audit_ok (w, k, t # ts)"
    "OutboxWorker_processTask NewOutboxWorker E (traced send) clocks t (w, k) = (q, w', k')"
  shows "audit_ok (w', k', ts)"
proof -
  obtain kk tr kk' tr' where k: "k = (kk, tr)" "k' = (kk', tr')" by fastforce
  from processTask_result [OF assms(2) [unfolded k]] consider
      "audit_tasks w' = audit_tasks w" "tasks_id_seq w' = tasks_id_seq w" "tr' = tr"
    | ok f st n where "tasks_id_seq w' = tasks_id_seq w" "tr' = tr @ [(TaskID t, ok)]"
        "audit_tasks w' = map f (audit_tasks w)" "restates (TaskID t) st n f"
        "(st, n) \<in> {(StatusProcessing, AttemptNumber t), after_send ok (AttemptNumber t)}" by blast
  then show ?thesis
  proof cases
    case 1
    with assms(1) show ?thesis by (simp add: audit_ok_def k)
  next
    case 2
    note inv = assms(1) [unfolded audit_ok_def k, simplified]
    have keys: "map task_id (audit_tasks w') = map task_id (audit_tasks w)"
      using 2(4) by (simp add: 2(3) restates_def)
    obtain r0 where r0: "r0 \<in> set (audit_tasks w)" "task_id r0 = TaskID t" "attempt_number r0 = AttemptNumber t"
      "task_state r0 \<in> {StatusCreated, StatusFailed}"
      using inv by (auto simp: holds_task_def)
    have "task_ok tr' (f r)" if r: "r \<in> set (audit_tasks w)" for r
    proof (cases "task_id r = TaskID t")
      case True
      with inv r r0 have "r = r0" by (auto simp: distinct_map inj_on_def)
      with task_ok_after [of tr r0 st n f ok] inv r0 2(2,4,5) show ?thesis
        by (auto simp: list_all_iff)
    next
      case False
      with 2(4) have "f r = r" by (simp add: restates_def)
      with False inv r 2(2) show ?thesis
        by (subst task_ok_cong [of tr' _ tr]) (auto simp: sends_snoc list_all_iff)
    qed
    moreover have "holds_task (audit_tasks w') u" if u: "u \<in> set ts" for u
    proof -
      have "TaskID u \<noteq> TaskID t" using inv u by (metis image_eqI)
      moreover from inv u have "holds_task (audit_tasks w) u" by (simp add: list_all_iff)
      ultimately show ?thesis using 2(4) by (fastforce simp: holds_task_def 2(3) restates_def)
    qed
    moreover have "\<exists>x \<in> set (audit_tasks w). TaskID t = task_id x" using r0(1,2) by force
    moreover have "task_id (f r) = task_id r" for r using 2(4) by (simp add: restates_def)
    ultimately show ?thesis
      using inv 2(1-3) keys r0(1,2) by (auto simp: audit_ok_def k list_all_iff image_iff comp_def)
  qed
qed

lemma audit_ok_died:
  assumes "audit_ok (w, k, t # ts)"
    "auditService_UpdateTask E t1 (t\<lparr>TaskStatus := StatusProcessing, UpdatedAt := now\<rparr>) w = (q, w')"
  shows "audit_ok (w', k, [])"
proof (cases q)
  case (Some e)
  with UpdateTask_result [OF assms(2)] assms(1) show ?thesis by (auto simp: audit_ok_def split: prod.splits)
next
  case None
  obtain kk tr where k: "k = (kk, tr)" by fastforce
  note inv = assms(1) [unfolded audit_ok_def k, simplified]
  define f where "f = update_task_row E (t\<lparr>TaskStatus := StatusProcessing, UpdatedAt := t1\<rparr>)"
  have w': "audit_tasks w' = map f (audit_tasks w)" "tasks_id_seq w' = tasks_id_seq w"
    using UpdateTask_result [OF assms(2)] None by (simp_all add: f_def)
  have f: "restates (TaskID t) StatusProcessing (AttemptNumber t) f"
    unfolding f_def using restates_update [of "t\<lparr>TaskStatus := StatusProcessing\<rparr>" E t1] by simp
  obtain r0 where r0: "r0 \<in> set (audit_tasks w)" "task_id r0 = TaskID t" "attempt_number r0 = AttemptNumber t"
    "task_state r0 \<in> {StatusCreated, StatusFailed}"
    using inv by (auto simp: holds_task_def)
  have id: "task_id (f r) = task_id r" for r using f by (simp add: restates_def)
  have "task_ok tr (f r)" if r: "r \<in> set (audit_tasks w)" for r
  proof (cases "task_id r = TaskID t")
    case True
    with inv r r0 have "r = r0" by (auto simp: distinct_map inj_on_def)
    with True inv r r0 f show ?thesis by (auto simp: task_ok_def restates_def list_all_iff Let_def)
  next
    case False
    with f have "f r = r" by (simp add: restates_def)
    with inv r show ?thesis by (simp add: list_all_iff)
  qed
  with inv w' id show ?thesis by (auto simp: audit_ok_def k list_all_iff image_iff comp_def)
qed

lemma audit_ok_stop: "audit_ok (w, k, ts) \<Longrightarrow> audit_ok (w, k, [])"
  by (simp add: audit_ok_def split: prod.splits)

lemmas audit_ok_steps = audit_ok_save audit_ok_fetch audit_ok_task audit_ok_stop audit_ok_died audit_ok_frame

lemma audit_step_ok:
  assumes "pg_env_ok E" "audit_step E send s s'" "audit_ok s"
  shows "audit_ok s'"
  using assms(2,1,3) by (induction rule: audit_step.induct) (blast intro: audit_ok_steps)+

lemma audit_run_ok:
  assumes "pg_env_ok E" "audit_run E send k0 s"
  shows "audit_ok s"
  using assms(2)
proof (induction rule: audit_run.induct)
  case (start w)
  then show ?case by (simp add: audit_ok_def)
next
  case (step s s')
  then show ?case by (blast intro: audit_step_ok [OF assms(1)])
qed

section \<open>What is final\<close>

lemma fetched_differs:
  assumes "audit_ok (w, k, t # ts)" "r \<in> set (audit_tasks w)" "task_state r \<notin> {StatusCreated, StatusFailed}"
  shows "task_id r \<noteq> TaskID t"
proof
  assume id: "task_id r = TaskID t"
  obtain kk tr where k: "k = (kk, tr)" by fastforce
  from assms(1) obtain r0 where r0: "r0 \<in> set (audit_tasks w)" "task_id r0 = TaskID t"
    "task_state r0 \<in> {StatusCreated, StatusFailed}" by (auto simp: audit_ok_def k holds_task_def)
  with assms(1,2) id have "r = r0" by (auto simp: audit_ok_def k distinct_map inj_on_def)
  with r0(3) assms(3) show False by simp
qed

lemma task_step_keeps:
  assumes "audit_ok (w, k, t # ts)" "r \<in> set (audit_tasks w)" "task_state r \<notin> {StatusCreated, StatusFailed}"
    "OutboxWorker_processTask NewOutboxWorker E (traced send) clocks t (w, k) = (q, w', k')"
  shows "r \<in> set (audit_tasks w')"
proof -
  obtain kk tr kk' tr' where k: "k = (kk, tr)" "k' = (kk', tr')" by fastforce
  have "task_id r \<noteq> TaskID t" by (rule fetched_differs [OF assms(1-3)])
  moreover have "audit_tasks w' = audit_tasks w \<or>
      (\<exists>f st n. audit_tasks w' = map f (audit_tasks w) \<and> restates (TaskID t) st n f)"
    using processTask_result [OF assms(4) [unfolded k]] by blast
  ultimately show ?thesis using assms(2) by (auto simp: restates_def image_iff) metis
qed

lemma died_step_keeps:
  assumes "audit_ok (w, k, t # ts)" "r \<in> set (audit_tasks w)" "task_state r \<notin> {StatusCreated, StatusFailed}"
    "auditService_UpdateTask E t1 (t\<lparr>TaskStatus := StatusProcessing, UpdatedAt := now\<rparr>) w = (q, w')"
  shows "r \<in> set (audit_tasks w')"
proof -
  have "task_id r \<noteq> TaskID t" by (rule fetched_differs [OF assms(1-3)])
  then have "update_task_row E (t\<lparr>TaskStatus := StatusProcessing, UpdatedAt := t1\<rparr>) r = r" by (simp add: update_task_row_def)
  with UpdateTask_result [OF assms(4)] assms(2) show ?thesis by (auto simp: image_iff split: option.splits) metis
qed

lemma audit_step_keeps:
  assumes "audit_step E send s s'" "audit_ok s" "r \<in> set (audit_tasks (fst s))"
    "task_state r \<notin> {StatusCreated, StatusFailed}"
  shows "r \<in> set (audit_tasks (fst s'))"
  using assms
proof (induction rule: audit_step.induct)
  case (save e w q w' k ts)
  with SaveLog_result [OF save.hyps] show ?case by (auto split: option.splits)
next
  case (fetch now locked w ts w' k)
  with fetch_batch_result [OF fetch.hyps] show ?case by (auto simp: same_tables_def)
next
  case (task clocks t w k q w' k' ts)
  then show ?case using task_step_keeps [of w k t ts r] by auto
next
  case (died t1 now t w q w' k ts)
  then show ?case using died_step_keeps [of w k t ts r] by auto
qed auto

lemma audit_run_ids:
  assumes "audit_ok (w, (k, tr), ts)" "sends tr i \<noteq> 0"
  shows "\<exists>r \<in> set (audit_tasks w). task_id r = i \<and> task_ok tr r"
  using assms sends_none [of "task_id ` set (audit_tasks w)" tr i]
  by (fastforce simp: audit_ok_def list_all_iff)

lemma task_ok_bounds: "task_ok tr r \<Longrightarrow> sends tr (task_id r) \<le> 3 \<and> confirmed tr (task_id r) \<le> 1"
  by (cases "task_state r") (auto simp: task_ok_def Let_def)

lemma confirmed_le_sends: "confirmed tr i \<le> sends tr i"
  unfolding confirmed_def sends_def by (induction tr) auto

section \<open>The documents in Kafka\<close>

text \<open>The ids of the tasks with their documents: only a save changes them, and it appends.\<close>

definition task_docs :: "pg \<Rightarrow> (int \<times> json) list" where
  "task_docs w = map (\<lambda>r. (task_id r, audit_log r)) (audit_tasks w)"

definition same_shop :: "pg \<Rightarrow> pg \<Rightarrow> bool" where
  "same_shop w w' \<longleftrightarrow> orders w' = orders w \<and> packaging_types w' = packaging_types w \<and> users w' = users w \<and>
     orders_id_seq w' = orders_id_seq w"

lemma same_shop_trans [trans]: "same_shop a b \<Longrightarrow> same_shop b c \<Longrightarrow> same_shop a c"
  by (simp add: same_shop_def)

lemma same_shop_call: "db_call w = (q, w') \<Longrightarrow> same_shop w w'"
  by (simp add: same_shop_def db_call_frame)

lemma SaveLog_shop:
  assumes "auditService_SaveLog E e w = (q, w')"
  shows "same_shop w w' \<and> (case q of Some x \<Rightarrow> task_docs w' = task_docs w
    | None \<Rightarrow> \<exists>j. marshal_event e = Some j \<and> task_docs w' = task_docs w @ [(tasks_id_seq w, j)])"
proof -
  have "orders_id_seq w' = orders_id_seq w"
    using assms db_call_frame(5) [of w]
    by (auto simp: auditService_SaveLog_def auditRepository_SaveLog_def AuditLogStorage_SaveLog_def
        split: prod.splits option.splits)
  with SaveLog_result [OF assms] show ?thesis by (auto simp: same_shop_def task_docs_def split: option.splits)
qed

lemma UpdateTask_shop:
  assumes "auditService_UpdateTask E now t w = (q, w')"
  shows "same_shop w w' \<and> task_docs w' = task_docs w"
proof -
  obtain q1 w1 where c1: "db_call w = (q1, w1)" by fastforce
  obtain q2 w2 where c2: "db_call w1 = (q2, w2)" by fastforce
  have "orders_id_seq w' = orders_id_seq w"
    using assms c1 c2 db_call_frame(5) [OF c1] db_call_frame(5) [OF c2]
    by (auto simp: auditService_UpdateTask_def auditRepository_UpdateTask_def AuditLogStorage_UpdateTask_def frame_simps
        dest!: commit_seq split: option.splits)
  moreover have "task_docs w' = task_docs w"
    using UpdateTask_result [OF assms] by (auto simp: task_docs_def update_task_row_def split: option.splits)
  ultimately show ?thesis using UpdateTask_result [OF assms] by (simp add: same_shop_def)
qed

lemma processTask_shop:
  assumes "OutboxWorker_processTask W E send clocks t (w, k) = (r, w', k')"
  shows "same_shop w w' \<and> task_docs w' = task_docs w \<and> (k' = k \<or> k' = snd (send (TaskID t) (AuditLog t) k))"
proof -
  obtain now t1 t2 where c: "clocks = (now, t1, t2)" by (metis prod.exhaust)
  obtain q1 w1 where u1: "auditService_UpdateTask E t1 (t\<lparr>TaskStatus := StatusProcessing, UpdatedAt := now\<rparr>) w = (q1, w1)" by fastforce
  obtain e k1 where s: "send (TaskID t) (AuditLog t) k = (e, k1)" by fastforce
  consider "w' = w1" "k' = k" | t3 q2 where "auditService_UpdateTask E t2 t3 w1 = (q2, w')" "k' = k1"
    using assms c u1 s
    by (cases q1; cases e) (auto simp: OutboxWorker_processTask_def Let_def split: prod.splits)
  then show ?thesis
    using UpdateTask_shop [OF u1] UpdateTask_shop s by cases (auto dest: UpdateTask_shop intro: same_shop_trans)
qed

lemma fetch_batch_shop:
  assumes "fetch_batch W E now locked w = (ts, w')"
  shows "same_shop w w' \<and> task_docs w' = task_docs w \<and> set (map (\<lambda>t. (TaskID t, AuditLog t)) ts) \<subseteq> set (map (\<lambda>r. (task_id r, audit_log r)) (scan_tasks E (audit_tasks w)))"
proof -
  obtain q w1 where b: "db_call w = (q, w1)" by fastforce
  obtain r w2 where f: "auditService_FetchPendingTasksTx E now locked (batchSize W) w1 = (r, w2)" by fastforce
  have w2: "orders_id_seq w2 = orders_id_seq w1"
    using f db_query_frame(5)
    by (fastforce simp: auditService_FetchPendingTasksTx_def auditRepository_FetchPendingTasksTx_def
        AuditLogStorage_FetchPendingTasksTx_def split: prod.splits sum.splits)
  have "w' = w1 \<or> w' = rollback w1 w2 \<or> (\<exists>q3. commit w1 w2 = (q3, w'))"
    using assms b f
    by (cases q; cases r) (auto simp: fetch_batch_def auditService_BeginTx_def auditRepository_BeginTx_def AuditLogStorage_BeginTx_def
        split: prod.splits option.splits)
  then have "orders_id_seq w' = orders_id_seq w"
    using w2 db_call_frame(5) [OF b] by (auto simp: frame_simps dest!: commit_seq)
  moreover obtain n where "ts = map row_task (take n (take (batchSize W) (filter (\<lambda>r. \<not> locked (task_id r))
       (sort_key created_at (filter (pending now) (scan_tasks E (audit_tasks w)))))))"
    using fetch_batch_result [OF assms] by blast
  then have "set (map (\<lambda>t. (TaskID t, AuditLog t)) ts) \<subseteq> set (map (\<lambda>r. (task_id r, audit_log r)) (scan_tasks E (audit_tasks w)))"
    by (auto simp: row_task_def dest!: in_set_takeD)
  ultimately show ?thesis using fetch_batch_result [OF assms] by (simp add: same_shop_def same_tables_def task_docs_def)
qed

lemma audit_ok_docs:
  assumes "audit_ok (w, k, ts)"
  shows "distinct (map fst (task_docs w))" "fst ` set (snd k) \<subseteq> fst ` set (task_docs w)"
proof -
  obtain kk tr where k: "k = (kk, tr)" by fastforce
  note inv = assms [unfolded audit_ok_def k, simplified]
  have keys: "map fst (task_docs w) = map task_id (audit_tasks w)" by (simp add: task_docs_def)
  have ids: "fst ` set (task_docs w) = task_id ` set (audit_tasks w)" using arg_cong [OF keys, of set] by simp
  show "distinct (map fst (task_docs w))" using inv by (simp add: keys)
  show "fst ` set (snd k) \<subseteq> fst ` set (task_docs w)" using inv by (auto simp: ids k list_all_iff)
qed

lemma map_of_later: "i \<in> fst ` set xs \<Longrightarrow> map_of (xs @ ys) i = map_of xs i"
  by (induction xs) auto

text \<open>The record of a task, and what holds of Kafka in every run: the records it has, or may still have, are
  the records of the sends so far, and the record of a send that was reported as done is there.\<close>

definition task_record :: "pg \<Rightarrow> int \<Rightarrow> kgo_record" where
  "task_record w i = audit_record i (the (map_of (task_docs w) i))"

definition kafka_inv ::
    "('k \<Rightarrow> kgo_record list) \<Rightarrow> ('k \<Rightarrow> kgo_record list) \<Rightarrow> 'k \<Rightarrow> 'k outbox_state \<Rightarrow> bool" where
  "kafka_inv msgs pend k0 s \<longleftrightarrow> (case s of (w, (k, tr), ts) \<Rightarrow>
     set (map (\<lambda>t. (TaskID t, AuditLog t)) ts) \<subseteq> set (task_docs w) \<and>
     mset (msgs k @ pend k) \<subseteq># mset (msgs k0 @ pend k0) + mset (map (task_record w \<circ> fst) tr) \<and>
     list_all (\<lambda>(i, ok). ok \<longrightarrow> task_record w i \<in> set (msgs k)) tr)"

lemma kafka_inv_later:
  assumes "kafka_inv msgs pend k0 (w, (k, tr), ts)" "audit_ok (w, (k, tr), ts)" "task_docs w' = task_docs w @ xs"
    "set (map (\<lambda>t. (TaskID t, AuditLog t)) ts') \<subseteq> set (task_docs w')"
  shows "kafka_inv msgs pend k0 (w', (k, tr), ts')"
proof -
  have same: "task_record w' i = task_record w i" if "(i, ok) \<in> set tr" for i ok
    using audit_ok_docs(2) [OF assms(2)] that unfolding task_record_def assms(3) by (subst map_of_later) force+
  then have maps: "map (task_record w' \<circ> fst) tr = map (task_record w \<circ> fst) tr" by (intro map_cong) auto
  have "list_all (\<lambda>(i, ok). ok \<longrightarrow> task_record w' i \<in> set (msgs k)) tr"
    using assms(1) same by (auto simp: kafka_inv_def list_all_iff)
  with assms(1,4) show ?thesis unfolding kafka_inv_def prod.case maps by blast
qed

lemma task_docs_lookup:
  assumes "audit_ok (w, k, ts)" "(i, d) \<in> set (task_docs w)"
  shows "task_record w i = audit_record i d"
  using audit_ok_docs(1) [OF assms(1)] assms(2) by (simp add: task_record_def)

lemma kafka_inv_task:
  assumes "kafka_ok C msgs pend" "kafka_inv msgs pend k0 (w, (k, tr), t # ts)" "audit_ok (w, (k, tr), t # ts)"
    and run: "OutboxWorker_processTask W E (traced (Producer_SendTransactional C)) clocks t (w, k, tr) = (q, w', k', tr')"
  shows "kafka_inv msgs pend k0 (w', (k', tr'), ts)"
proof -
  let ?rc = "audit_record (TaskID t) (AuditLog t)"
  note p = processTask_shop [OF run]
  obtain e k1 where s: "Producer_SendTransactional C (TaskID t) (AuditLog t) k = (e, k1)" by fastforce
  have rc: "task_record w (TaskID t) = ?rc"
    by (rule task_docs_lookup [OF assms(3)]) (use assms(2) in \<open>auto simp: kafka_inv_def\<close>)
  have docs: "task_record w' = task_record w" "task_docs w' = task_docs w" using p by (simp_all add: task_record_def fun_eq_iff)
  consider "k' = k" "tr' = tr" | "k' = k1" "tr' = tr @ [(TaskID t, e = None)]"
    using p s by (auto simp: traced_def)
  then show ?thesis
  proof cases
    case 1
    with assms(2) docs show ?thesis by (simp add: kafka_inv_def)
  next
    case 2
    note sent = SendTransactional_kafka [OF assms(1) s]
    note inv = assms(2) [unfolded kafka_inv_def prod.case]
    have "add_mset ?rc (mset (msgs k @ pend k)) \<subseteq># add_mset ?rc (mset (msgs k0 @ pend k0) + mset (map (task_record w \<circ> fst) tr))"
      using inv unfolding mset_subset_eq_add_mset_cancel by blast
    with sent have "mset (msgs k1 @ pend k1) \<subseteq># add_mset ?rc (mset (msgs k0 @ pend k0) + mset (map (task_record w \<circ> fst) tr))"
      by (blast intro: subset_mset.trans)
    then have "mset (msgs k1 @ pend k1) \<subseteq># mset (msgs k0 @ pend k0) + mset (map (task_record w' \<circ> fst) tr')"
      by (simp add: 2 docs rc)
    moreover have "set (msgs k) \<subseteq> set (msgs k1)" using sent set_mset_mono by fastforce
    then have "list_all (\<lambda>(i, ok). ok \<longrightarrow> task_record w' i \<in> set (msgs k')) tr'"
      using inv sent by (auto simp: 2 docs rc list_all_iff)
    ultimately show ?thesis using inv 2(1) docs(2) unfolding kafka_inv_def prod.case by simp
  qed
qed

lemma audit_step_kafka:
  assumes "pg_env_ok E" "kafka_ok C msgs pend" "audit_step E (Producer_SendTransactional C) s s'"
    "audit_ok s" "kafka_inv msgs pend k0 s"
  shows "kafka_inv msgs pend k0 s'"
  using assms(3-5)
proof (induction rule: audit_step.induct)
  case (save e w q w' k ts)
  obtain kk tr where k: "k = (kk, tr)" by fastforce
  obtain xs where xs: "task_docs w' = task_docs w @ xs" using SaveLog_shop [OF save.hyps] by (cases q) auto
  with save.prems(2) have "set (map (\<lambda>t. (TaskID t, AuditLog t)) ts) \<subseteq> set (task_docs w')" by (auto simp: kafka_inv_def k)
  with save.prems xs show ?case unfolding k by (intro kafka_inv_later [of msgs pend k0 w kk tr ts w' xs])
next
  case (fetch now locked w ts w' k)
  obtain kk tr where k: "k = (kk, tr)" by fastforce
  have "set (scan_tasks E (audit_tasks w)) = set (audit_tasks w)" using assms(1) by (metis pg_env_ok_def mset_eq_setD)
  then have "set (map (\<lambda>t. (TaskID t, AuditLog t)) ts) \<subseteq> set (task_docs w)"
    using fetch_batch_shop [OF fetch.hyps] by (simp add: task_docs_def)
  with fetch.prems fetch_batch_shop [OF fetch.hyps] show ?case
    unfolding k by (intro kafka_inv_later [of msgs pend k0 w kk tr "[]" w' "[]"]) simp_all
next
  case (task clocks t w k q w' k' ts)
  obtain kk tr kk' tr' where k: "k = (kk, tr)" "k' = (kk', tr')" by fastforce
  show ?case unfolding k
    by (rule kafka_inv_task [OF assms(2) task.prems(2) [unfolded k] task.prems(1) [unfolded k] task.hyps [unfolded k]])
next
  case (died t1 now t w q w' k ts)
  obtain kk tr where k: "k = (kk, tr)" by fastforce
  from died.prems UpdateTask_shop [OF died.hyps] show ?case
    unfolding k by (intro kafka_inv_later [of msgs pend k0 w kk tr "t # ts" w' "[]"]) simp_all
next
  case (elsewhere w' w k ts)
  then have "task_docs w' = task_docs w" by (simp add: task_docs_def)
  with elsewhere.prems show ?case by (simp add: kafka_inv_def task_record_def comp_def split: prod.splits)
qed (auto simp: kafka_inv_def)

lemma audit_run_kafka:
  assumes "pg_env_ok E" "kafka_ok C msgs pend" "audit_run E (Producer_SendTransactional C) k0 s"
  shows "kafka_inv msgs pend k0 s"
  using assms(3)
proof (induction rule: audit_run.induct)
  case (start w)
  then show ?case by (simp add: kafka_inv_def)
next
  case (step s s')
  then show ?case using audit_step_kafka [OF assms(1,2) step.hyps(2)] audit_run_ok [OF assms(1) step.hyps(1)] by blast
qed

text \<open>Records of different tasks have different keys, so a record is there at most as often as its task was sent.\<close>

lemma record_count: "count (mset (map (task_record w \<circ> fst) tr)) (audit_record i d) \<le> sends tr i"
  by (induction tr) (auto simp: sends_def task_record_def audit_record_def dest: Itoa_inj)

lemma kafka_copies:
  assumes "kafka_inv msgs pend k0 (w, (k, tr), ts)" "msgs k0 = []" "pend k0 = []"
  shows "count (mset (msgs k)) (audit_record i d) \<le> sends tr i"
proof -
  have "mset (msgs k) \<subseteq># mset (msgs k @ pend k)" by simp
  moreover have "mset (msgs k @ pend k) \<subseteq># mset (map (task_record w \<circ> fst) tr)"
    using assms by (simp add: kafka_inv_def)
  ultimately have "mset (msgs k) \<subseteq># mset (map (task_record w \<circ> fst) tr)" by (rule subset_mset.trans)
  then have "count (mset (msgs k)) (audit_record i d) \<le> count (mset (map (task_record w \<circ> fst) tr)) (audit_record i d)"
    by (rule mset_subset_eq_count)
  with record_count [of w tr i d] show ?thesis by linarith
qed

lemma kafka_records:
  assumes "kafka_inv msgs pend k0 (w, (k, tr), ts)" "audit_ok (w, (k, tr), ts)" "msgs k0 = []" "pend k0 = []"
  shows "set (msgs k) \<subseteq> (\<lambda>r. audit_record (task_id r) (audit_log r)) ` set (audit_tasks w)"
proof
  fix x
  assume "x \<in> set (msgs k)"
  then have "x \<in># mset (map (task_record w \<circ> fst) tr)"
    using assms(1,3,4) by (auto simp: kafka_inv_def dest!: set_mset_mono)
  then obtain i ok where i: "(i, ok) \<in> set tr" "x = task_record w i" by auto
  with audit_ok_docs(2) [OF assms(2)] obtain d where "(i, d) \<in> set (task_docs w)" by force
  with task_docs_lookup [OF assms(2) this] i(2) show "x \<in> (\<lambda>r. audit_record (task_id r) (audit_log r)) ` set (audit_tasks w)"
    by (auto simp: task_docs_def)
qed

lemma confirmed_in_log:
  assumes "kafka_inv msgs pend k0 (w, (k, tr), ts)" "audit_ok (w, (k, tr), ts)" "r \<in> set (audit_tasks w)" "confirmed tr (task_id r) \<noteq> 0"
  shows "audit_record (task_id r) (audit_log r) \<in> set (msgs k)"
proof -
  from assms(4) have "(task_id r, True) \<in> set tr" by (auto simp: confirmed_def filter_empty_conv)
  with assms(1) have "task_record w (task_id r) \<in> set (msgs k)" by (auto simp: kafka_inv_def list_all_iff)
  moreover have "(task_id r, audit_log r) \<in> set (task_docs w)" using assms(3) by (auto simp: task_docs_def)
  ultimately show ?thesis using task_docs_lookup [OF assms(2)] by simp
qed

text \<open>Without failures the fetch takes the first rows, and those of a sorted list are the least.\<close>

lemma fetch_batch_calm:
  assumes "script w = []"
  shows "fetch_batch W E now locked w = (map row_task (take (batchSize W) (filter (\<lambda>r. \<not> locked (task_id r))
     (sort_key created_at (filter (pending now) (scan_tasks E (audit_tasks w)))))), w)"
  using assms
  by (simp add: fetch_batch_def auditService_BeginTx_def auditRepository_BeginTx_def AuditLogStorage_BeginTx_def
      auditService_FetchPendingTasksTx_def auditRepository_FetchPendingTasksTx_def AuditLogStorage_FetchPendingTasksTx_def pg_simps)

lemma take_oldest:
  assumes "sorted (map f xs)" "x \<in> set xs"
  shows "x \<in> set (take n xs) \<or> (\<forall>y \<in> set (take n xs). f y \<le> f x)"
proof -
  have "x \<in> set (take n xs) \<or> x \<in> set (drop n xs)" using assms(2) by (metis Un_iff append_take_drop_id set_append)
  moreover have "sorted (map f (take n xs) @ map f (drop n xs))" using assms(1) by (metis append_take_drop_id map_append)
  ultimately show ?thesis by (auto simp: sorted_append)
qed

section \<open>A sample run\<close>

definition sample_event :: event where
  "sample_event = \<lparr>EvType = EventAPIRequest, EvData = [(''path'', AnyString ''/orders'')], EvTime = 5000\<rparr>"

definition doc_of :: "event \<Rightarrow> json" where
  "doc_of e = the (marshal_event e)"

text \<open>A broker in memory: the committed records, those of the open transaction, and for how many more commits the
  acknowledgement is lost.\<close>

definition sample_kafka :: "(kgo_record list \<times> kgo_record list \<times> nat) kgo_client" where
  "sample_kafka = \<lparr>
     BeginTransaction = (\<lambda>(l, p, n). (None, (l, [], n))),
     ProduceSync = (\<lambda>rc (l, p, n). (None, (l, p @ [rc], n))),
     EndTransaction = (\<lambda>t (l, p, n). case t of TryAbort \<Rightarrow> (None, (l, [], n))
       | TryCommit \<Rightarrow> (if n = 0 then None else Some (ErrDriver ''context deadline exceeded''), (l @ p, [], n - 1)))\<rparr>"

abbreviation sample_send :: "int \<Rightarrow> json \<Rightarrow> kgo_record list \<times> kgo_record list \<times> nat \<Rightarrow> goerror option \<times> kgo_record list \<times> kgo_record list \<times> nat" where
  "sample_send \<equiv> Producer_SendTransactional sample_kafka"

lemma sample_kafka_ok: "kafka_ok sample_kafka fst (fst \<circ> snd)"
  by (auto simp: kafka_ok_def sample_kafka_def split: end_try.splits if_splits prod.splits)

lemma sample_send_run:
  "sample_send i d (l, [], n) = (if n = 0 then None else Some (ErrDriver ''context deadline exceeded''), (l @ [audit_record i d], [], n - 1))"
  by (simp add: Producer_SendTransactional_def sample_kafka_def audit_record_def)

definition sample_task :: "task_status \<Rightarrow> int \<Rightarrow> time \<Rightarrow> time option \<Rightarrow> task_row" where
  "sample_task st n t retry = \<lparr>task_id = 1, audit_log = doc_of sample_event, task_state = st, attempt_number = n, created_at = 5000,
     updated_at = t, finished_at = None, next_retry = retry\<rparr>"

definition sample_tasks_db :: "task_row \<Rightarrow> pg" where
  "sample_tasks_db r = sample_db\<lparr>tasks_id_seq := 2, audit_tasks := [r]\<rparr>"

abbreviation created_task :: task_row where
  "created_task \<equiv> sample_task StatusCreated 0 5000 None"

abbreviation failed_task :: task_row where
  "failed_task \<equiv> sample_task StatusFailed 1 9000 (Some (7000 + 2 * second))"

abbreviation finished_task :: task_row where
  "finished_task \<equiv> sample_task StatusFinished 1 12000 (Some (7000 + 2 * second))"

lemma sample_saved_db: "auditService_SaveLog sample_env sample_event sample_db = (None, sample_tasks_db created_task)"
  by (simp add: auditService_SaveLog_def auditRepository_SaveLog_def AuditLogStorage_SaveLog_def new_task_row_def pg_simps
      sample_db_def sample_env_def sample_event_def marshal_event_def marshal_object_def marshal_time_def doc_of_def
      json_min_time_def json_max_time_def sample_tasks_db_def sample_task_def)

lemma sample_fetch:
  assumes "pending now r"
  shows "fetch_batch NewOutboxWorker sample_env now (\<lambda>_. False) (sample_tasks_db r) = ([row_task r], sample_tasks_db r)"
  using assms
  by (simp add: fetch_batch_calm sample_tasks_db_def sample_db_def NewOutboxWorker_def sample_env_def)

lemma sample_pending: "pending 6000 created_task" "pending (3 * second) failed_task"
  by (simp_all add: pending_def sample_task_def)

text \<open>The first send is committed and reported as failed; the second is reported as done.\<close>

abbreviation sample_doc :: kgo_record where
  "sample_doc \<equiv> audit_record 1 (doc_of sample_event)"

lemma sample_tasks_run:
  "OutboxWorker_processTask NewOutboxWorker sample_env (traced sample_send) (7000, 8000, 9000) (row_task created_task)
     (sample_tasks_db created_task, (([], [], 1), [])) = (None, sample_tasks_db failed_task, (([sample_doc], [], 0), [(1, False)]))"
  "OutboxWorker_processTask NewOutboxWorker sample_env (traced sample_send) (10000, 11000, 12000) (row_task failed_task)
     (sample_tasks_db failed_task, (([sample_doc], [], 0), [(1, False)])) =
   (None, sample_tasks_db finished_task, (([sample_doc, sample_doc], [], 0), [(1, False), (1, True)]))"
  by (simp_all add: OutboxWorker_processTask_def UpdateTask_calm sample_tasks_db_def sample_db_def traced_def sample_send_run
      row_task_def update_task_row_def sample_task_def NewOutboxWorker_def zero_time_def) (simp_all add: sample_env_def)

lemma sample_audit_run:
  "audit_run sample_env sample_send ([], [], 1)
     (sample_tasks_db finished_task, (([sample_doc, sample_doc], [], 0), [(1, False), (1, True)]), [])"
proof -
  have "audit_run sample_env sample_send ([], [], 1) (sample_db, (([], [], 1), []), [])"
    by (rule audit_run.start) (simp add: sample_db_def)
  moreover note audit_step.save [OF sample_saved_db, where send = sample_send and k = "(([], [], 1), [])" and ts = "[]"]
    audit_step.fetch [OF sample_fetch [OF sample_pending(1)], where send = sample_send and k = "(([], [], 1), [])"]
    audit_step.task [OF sample_tasks_run(1), of "[]"]
    audit_step.fetch [OF sample_fetch [OF sample_pending(2)], where send = sample_send and k = "(([sample_doc], [], 0), [(1, False)])"]
    audit_step.task [OF sample_tasks_run(2), of "[]"]
  ultimately show ?thesis by (meson audit_run.step)
qed

section \<open>Properties\<close>

text \<open>
  (C29) How often an audit event is sent, and how often it is in Kafka. In every run of the program, with new
  events, failures of the database and of the broker at any point, commits whose acknowledgement is lost, and
  deaths of the process: Kafka only has documents of tasks, each at most as often as its task was sent, and
  that is at most three times. A task that is \<^verbatim>\<open>CREATED\<close> was never sent, the attempts of one that is
  \<^verbatim>\<open>FAILED\<close> are its sends, one with \<^verbatim>\<open>NO_ATTEMPTS_LEFT\<close> was sent three times, and the document
  of one that is \<^verbatim>\<open>FINISHED\<close> is in Kafka; it may be there more than once.
\<close>

theorem outbox_sends:
  assumes "pg_env_ok E" "kafka_ok C msgs pend" "msgs k0 = []" "pend k0 = []"
    and "audit_run E (Producer_SendTransactional C) k0 (w, (k, tr), ts)"
  shows "set (msgs k) \<subseteq> (\<lambda>r. audit_record (task_id r) (audit_log r)) ` set (audit_tasks w) \<and>
    list_all (\<lambda>r. let n = sends tr (task_id r); copies = count (mset (msgs k)) (audit_record (task_id r) (audit_log r)) in
      n \<le> 3 \<and> copies \<le> n \<and>
      (case task_state r of
         StatusCreated \<Rightarrow> n = 0
       | StatusFailed \<Rightarrow> int n = attempt_number r \<and> n \<in> {1, 2}
       | StatusProcessing \<Rightarrow> int n \<in> {attempt_number r, attempt_number r + 1}
       | StatusNoAttemptsLeft \<Rightarrow> n = 3
       | StatusFinished \<Rightarrow> int n = attempt_number r + 1 \<and> 1 \<le> copies)) (audit_tasks w)"
proof -
  have ok: "audit_ok (w, (k, tr), ts)" by (rule audit_run_ok [OF assms(1,5)])
  have inv: "kafka_inv msgs pend k0 (w, (k, tr), ts)" by (rule audit_run_kafka [OF assms(1,2,5)])
  have "let n = sends tr (task_id r); copies = count (mset (msgs k)) (audit_record (task_id r) (audit_log r)) in
      n \<le> 3 \<and> copies \<le> n \<and>
      (case task_state r of
         StatusCreated \<Rightarrow> n = 0
       | StatusFailed \<Rightarrow> int n = attempt_number r \<and> n \<in> {1, 2}
       | StatusProcessing \<Rightarrow> int n \<in> {attempt_number r, attempt_number r + 1}
       | StatusNoAttemptsLeft \<Rightarrow> n = 3
       | StatusFinished \<Rightarrow> int n = attempt_number r + 1 \<and> 1 \<le> copies)" if r: "r \<in> set (audit_tasks w)" for r
  proof -
    have row: "task_ok tr r" using ok r by (auto simp: audit_ok_def list_all_iff)
    have "count (mset (msgs k)) (audit_record (task_id r) (audit_log r)) \<ge> 1" if "confirmed tr (task_id r) \<noteq> 0"
      using confirmed_in_log [OF inv ok r that] by (simp add: Suc_le_eq)
    with row task_ok_bounds [OF row] kafka_copies [OF inv assms(3,4), of "task_id r" "audit_log r"] show ?thesis
      by (cases "task_state r") (auto simp: task_ok_def Let_def)
  qed
  with kafka_records [OF inv ok assms(3,4)] show ?thesis by (simp add: list_all_iff)
qed

theorem outbox_sends_witness:
  "\<exists>w k tr. audit_run sample_env sample_send ([], [], 1) (w, (k, tr), []) \<and> count (mset (fst k)) sample_doc = 2 \<and>
     list_all (\<lambda>r. task_state r = StatusFinished \<and> count (mset (fst k)) (audit_record (task_id r) (audit_log r)) \<le> sends tr (task_id r) \<and>
       sends tr (task_id r) \<le> 3) (audit_tasks w) \<and> audit_tasks w \<noteq> []"
proof -
  note run = sample_audit_run
  from outbox_sends [OF sample_env_ok sample_kafka_ok _ _ run] run show ?thesis
    by (intro exI [of _ "sample_tasks_db finished_task"] exI [of _ "([sample_doc, sample_doc], [], 0)"] exI [of _ "[(1, False), (1, True)]"])
      (simp add: sample_tasks_db_def sample_task_def Let_def)
qed

text \<open>
  (C30) No step of the program changes a task again that is \<^verbatim>\<open>FINISHED\<close>,
  \<^verbatim>\<open>NO_ATTEMPTS_LEFT\<close> or \<^verbatim>\<open>PROCESSING\<close> between two tasks of the worker: the
  first two are final as they should be; the third is a task whose last update failed, or whose process died,
  and it is stuck, since only \<^verbatim>\<open>CREATED\<close> and \<^verbatim>\<open>FAILED\<close> tasks are ever fetched.
\<close>

theorem outbox_final:
  assumes "pg_env_ok E" "audit_run E send k0 s" "audit_step E send s s'"
    and "r \<in> set (audit_tasks (fst s))" "task_state r \<in> {StatusFinished, StatusNoAttemptsLeft, StatusProcessing}"
  shows "r \<in> set (audit_tasks (fst s'))"
  using assms by (auto intro: audit_step_keeps [OF assms(3)] audit_run_ok)

theorem outbox_final_witness:
  "\<exists>w k r. audit_run sample_env sample_send ([], [], 1) (w, k, []) \<and> r \<in> set (audit_tasks w) \<and> task_state r = StatusFinished \<and>
     (\<forall>q w'. auditService_SaveLog sample_env sample_event w = (q, w') \<longrightarrow> r \<in> set (audit_tasks w'))"
proof -
  let ?w = "sample_tasks_db finished_task" and ?k = "(([sample_doc, sample_doc], [], 0), [(1, False), (1, True)])"
  have r: "finished_task \<in> set (audit_tasks ?w)" "task_state finished_task = StatusFinished"
    by (simp_all add: sample_tasks_db_def sample_task_def)
  have "finished_task \<in> set (audit_tasks w')" if "auditService_SaveLog sample_env sample_event ?w = (q, w')" for q w'
    using outbox_final [OF sample_env_ok sample_audit_run audit_step.save [OF that, where send = sample_send and k = ?k and ts = "[]"], of finished_task] r
    by simp
  with r sample_audit_run show ?thesis by blast
qed

text \<open>
  (C31) What a poll of the worker takes, under every pattern of server failures: at most a hundred
  tasks, none twice, none that another worker holds, each \<^verbatim>\<open>CREATED\<close> or \<^verbatim>\<open>FAILED\<close> with
  fewer than three attempts and its time of retry, if it has one, over; the oldest first; and the poll changes
  no table. Without failures it takes all of these tasks that nobody holds, or a hundred of them so that no
  older one is left behind.
\<close>

theorem fetch_batch_takes:
  assumes "pg_env_ok E" "distinct (map task_id (audit_tasks w))"
    and "fetch_batch NewOutboxWorker E now locked w = (ts, w')"
    and "due = {r \<in> set (audit_tasks w). \<not> locked (task_id r) \<and> (task_state r = StatusCreated \<or> task_state r = StatusFailed) \<and>
      attempt_number r < 3 \<and> (\<forall>t. next_retry r = Some t \<longrightarrow> t < now)}"
  shows "same_tables w w' \<and> length ts \<le> 100 \<and> distinct (map TaskID ts) \<and> sorted (map CreatedAt ts) \<and>
    set ts \<subseteq> row_task ` due \<and>
    (script w = [] \<longrightarrow>
      (if card due \<le> 100 then set ts = row_task ` due
       else length ts = 100 \<and> (\<forall>r \<in> due. row_task r \<in> set ts \<or> (\<forall>t \<in> set ts. CreatedAt t \<le> created_at r))))"
proof -
  let ?all = "filter (\<lambda>r. \<not> locked (task_id r)) (sort_key created_at (filter (pending now) (scan_tasks E (audit_tasks w))))"
  from fetch_batch_result [OF assms(3)] obtain m where m: "same_tables w w'" "ts = map row_task (take m (take 100 ?all))"
    by (auto simp: NewOutboxWorker_def)
  define n where "n = (if script w = [] then 100 else m)"
  define got where "got = take n (take 100 ?all)"
  have calm: "ts = map row_task (take 100 ?all)" if "script w = []"
    using fetch_batch_calm [OF that, of NewOutboxWorker E now locked] assms(3) by (auto simp: NewOutboxWorker_def)
  have g: "same_tables w w'" "got = take n (take 100 ?all)" "ts = map row_task got" "script w = [] \<longrightarrow> got = take 100 ?all"
    using m calm by (auto simp: got_def n_def)
  have scan: "mset (scan_tasks E (audit_tasks w)) = mset (audit_tasks w)" using assms(1) by (simp add: pg_env_ok_def)
  note rows = fetched_rows [OF scan assms(2) g(2)]
  have "?all = take (length ?all) (take (length ?all) ?all)" by simp
  note all = fetched_rows [OF scan assms(2) this]
  have set_all: "set ?all = due"
    using mset_eq_setD [OF scan] by (auto simp: assms(4) pending_def split: option.splits)
  have card: "card due = length ?all" using all(1) by (metis distinct_card distinct_map set_all)
  have keys: "map TaskID ts = map task_id got" "map CreatedAt ts = map created_at got" "length ts = length got"
    by (simp_all add: g(3) row_task_def comp_def)
  have "set ts \<subseteq> row_task ` due" using g(2,3) set_all by (auto dest!: in_set_takeD)
  moreover have "set ts = row_task ` due" if "script w = []" "card due \<le> 100"
    using that g(3,4) card set_all by auto
  moreover have "row_task r \<in> set ts \<or> (\<forall>t \<in> set ts. CreatedAt t \<le> created_at r)" if "script w = []" "r \<in> due" for r
    using take_oldest [OF all(3), of r 100] that g(3,4) set_all by (auto simp: row_task_def)
  moreover have "length ts = 100" if "script w = []" "\<not> card due \<le> 100" using that g(4) card keys(3) by simp
  ultimately show ?thesis using rows keys g(1) by simp
qed

theorem fetch_batch_takes_witness:
  "\<exists>ts w' v. fetch_batch NewOutboxWorker sample_env 6000 (\<lambda>_. False) (sample_tasks_db created_task) = (ts, w') \<and>
     set ts = {row_task created_task} \<and> fetch_batch NewOutboxWorker sample_env 9000 (\<lambda>_. False) (sample_tasks_db failed_task) = ([], v)"
proof -
  obtain ts w' where f: "fetch_batch NewOutboxWorker sample_env 6000 (\<lambda>_. False) (sample_tasks_db created_task) = (ts, w')"
    by fastforce
  have due1: "{created_task} = {r \<in> set (audit_tasks (sample_tasks_db created_task)). \<not> False \<and> (task_state r = StatusCreated \<or> task_state r = StatusFailed) \<and>
      attempt_number r < 3 \<and> (\<forall>t. next_retry r = Some t \<longrightarrow> t < 6000)}"
    by (auto simp: sample_tasks_db_def sample_task_def)
  from fetch_batch_takes [OF sample_env_ok _ f due1] have "set ts = {row_task created_task}"
    by (simp add: sample_tasks_db_def sample_db_def)
  moreover obtain us v where u: "fetch_batch NewOutboxWorker sample_env 9000 (\<lambda>_. False) (sample_tasks_db failed_task) = (us, v)" by fastforce
  have due2: "{} = {r \<in> set (audit_tasks (sample_tasks_db failed_task)). \<not> False \<and> (task_state r = StatusCreated \<or> task_state r = StatusFailed) \<and>
      attempt_number r < 3 \<and> (\<forall>t. next_retry r = Some t \<longrightarrow> t < 9000)}"
    by (auto simp: sample_tasks_db_def sample_task_def)
  from fetch_batch_takes [OF sample_env_ok _ u due2] have "us = []"
    by (simp add: sample_tasks_db_def sample_db_def)
  ultimately show ?thesis using f u by blast
qed

text \<open>
  The column \<^verbatim>\<open>finished_at\<close> stays null in every run, also for finished tasks: the worker sets
  \<^verbatim>\<open>FinishedAt\<close> but the update statement does not write it.
\<close>

lemma finished_at_never_written:
  assumes "pg_env_ok E" "audit_run E send k0 (w, (k, tr), ts)"
  shows "list_all (\<lambda>r. finished_at r = None) (audit_tasks w)"
  using audit_run_ok [OF assms] by (auto simp: audit_ok_def list_all_iff task_ok_def)

end
