(* ===== verification/Pipeline.thy ===== *)
theory Pipeline
  imports Audit_Log
begin

text \<open>
  The pipeline of audit events: \<^verbatim>\<open>internal/audit/pipeline.go\<close>,
  \<^verbatim>\<open>worker_pool.go\<close> and \<^verbatim>\<open>worker.go\<close>. An event goes to every pool, into the channel for
  its type; each channel has one worker, which collects events into batches of five and hands every event
  of a batch to the function of its pool. A run of a worker is a list of what its
  \<^verbatim>\<open>select\<close> receives: an event, a tick or the end of the context.
\<close>

section \<open>Pools\<close>

text \<open>A channel is the list of the events in its buffer.\<close>

record worker_pool =
  StatusChan :: "event list"
  ApiChan :: "event list"

definition chan_capacity :: nat where
  "chan_capacity = 1000"

definition NewWorkerPool :: worker_pool where
  "NewWorkerPool = \<lparr>StatusChan = [], ApiChan = []\<rparr>"

text \<open>
  \<^verbatim>\<open>SendEvent\<close> starts one goroutine per pool; \<open>Sending\<close> is one that has not put its event
  into the channel yet.
\<close>

datatype chan_kind = Status_chan | Api_chan

datatype sending = Sending nat chan_kind event

definition chan_of :: "event_type \<Rightarrow> chan_kind" where
  "chan_of t = (case t of EventAPIRequest \<Rightarrow> Api_chan | EventAPIResponse \<Rightarrow> Api_chan
     | EventStatusChange \<Rightarrow> Status_chan)"

definition Pipeline_SendEvent ::
    "worker_pool list \<Rightarrow> time \<Rightarrow> event_type \<Rightarrow> (string \<times> any) list \<Rightarrow> sending list" where
  "Pipeline_SendEvent pools now eventType data =
     (let event = NewEvent eventType data now
      in map (\<lambda>i. Sending i (chan_of eventType) event) [0..<length pools])"

text \<open>A goroutine puts its event into the channel, or stays blocked while the buffer is full.\<close>

fun push :: "sending \<Rightarrow> worker_pool list \<Rightarrow> worker_pool list option" where
  "push (Sending i kind e) pools =
     (if i < length pools
      then (let p = pools ! i in case kind of
          Status_chan \<Rightarrow> (if length (StatusChan p) < chan_capacity
             then Some (pools[i := p\<lparr>StatusChan := StatusChan p @ [e]\<rparr>]) else None)
        | Api_chan \<Rightarrow> (if length (ApiChan p) < chan_capacity
             then Some (pools[i := p\<lparr>ApiChan := ApiChan p @ [e]\<rparr>]) else None))
      else None)"

text \<open>The goroutines in the order in which they run; the result is None if one of them finds its channel full.\<close>

primrec push_all :: "sending list \<Rightarrow> worker_pool list \<Rightarrow> worker_pool list option" where
  "push_all [] pools = Some pools"
| "push_all (s # ss) pools = Option.bind (push s pools) (push_all ss)"

text \<open>What one goroutine changes and what it waits for.\<close>

definition put_event :: "chan_kind \<Rightarrow> event \<Rightarrow> worker_pool \<Rightarrow> worker_pool" where
  "put_event kind e p = (case kind of
      Status_chan \<Rightarrow> p\<lparr>StatusChan := StatusChan p @ [e]\<rparr> | Api_chan \<Rightarrow> p\<lparr>ApiChan := ApiChan p @ [e]\<rparr>)"

definition has_room :: "chan_kind \<Rightarrow> worker_pool \<Rightarrow> bool" where
  "has_room kind p = (case kind of
      Status_chan \<Rightarrow> length (StatusChan p) < chan_capacity | Api_chan \<Rightarrow> length (ApiChan p) < chan_capacity)"

section \<open>The functions of the pools\<close>

definition Pipeline_saveToDB :: "pg_env \<Rightarrow> event \<Rightarrow> pg \<Rightarrow> goerror option \<times> pg" where
  "Pipeline_saveToDB E e w = auditService_SaveLog E e w"

text \<open>The filter is an argument of the function for the standard output, which ignores it.\<close>

definition Pipeline_printToStdout :: "(event \<Rightarrow> bool) \<Rightarrow> event \<Rightarrow> 's \<Rightarrow> goerror option \<times> 's" where
  "Pipeline_printToStdout filterFunc e s = (None, s)"

definition NewFilterFunc :: "string \<Rightarrow> event \<Rightarrow> bool" where
  "NewFilterFunc filterKeyword e =
     (if filterKeyword = [] then True
      else list_ex (\<lambda>(key, value).
        (case value of AnyString str \<Rightarrow> contains str filterKeyword | _ \<Rightarrow> False) \<or> contains key filterKeyword)
        (EvData e))"

section \<open>The worker\<close>

text \<open>An error of the function is logged and the batch goes on.\<close>

fun Worker_processBatch :: "(event \<Rightarrow> 's \<Rightarrow> goerror option \<times> 's) \<Rightarrow> event list \<Rightarrow> 's \<Rightarrow> 's" where
  "Worker_processBatch f [] s = s"
| "Worker_processBatch f (e # es) s = Worker_processBatch f es (snd (f e s))"

datatype signal = Received event | Tick | CtxDone

text \<open>The loop: the batch that is still open and the state, after the signals.\<close>

fun Worker_Run ::
    "(event \<Rightarrow> 's \<Rightarrow> goerror option \<times> 's) \<Rightarrow> signal list \<Rightarrow> event list \<Rightarrow> 's \<Rightarrow> event list \<times> 's" where
  "Worker_Run f [] batch s = (batch, s)"
| "Worker_Run f (Received e # sigs) batch s =
     (let batch = batch @ [e]
      in if length batch \<ge> 5 then Worker_Run f sigs [] (Worker_processBatch f batch s)
         else Worker_Run f sigs batch s)"
| "Worker_Run f (Tick # sigs) batch s =
     (if length batch > 0 then Worker_Run f sigs [] (Worker_processBatch f batch s)
      else Worker_Run f sigs batch s)"
| "Worker_Run f (CtxDone # sigs) batch s =
     (if length batch > 0 then ([], Worker_processBatch f batch s) else (batch, s))"

section \<open>Facts\<close>

fun received :: "signal list \<Rightarrow> event list" where
  "received [] = []"
| "received (Received e # sigs) = e # received sigs"
| "received (Tick # sigs) = received sigs"
| "received (CtxDone # sigs) = []"

lemma processBatch_append:
  "Worker_processBatch f (xs @ ys) s = Worker_processBatch f ys (Worker_processBatch f xs s)"
  by (induction xs arbitrary: s) auto

lemma Worker_Run_result:
  assumes "length batch < 5"
  shows "\<exists>handled open. batch @ received sigs = handled @ open \<and> length open < 5 \<and>
    Worker_Run f sigs batch s = (open, Worker_processBatch f handled s) \<and> (CtxDone \<in> set sigs \<longrightarrow> open = [])"
  using assms
proof (induction f sigs batch s rule: Worker_Run.induct)
  case (2 f e sigs batch s)
  show ?case
  proof (cases "length (batch @ [e]) \<ge> 5")
    case True
    with 2(1) [OF refl] obtain handled opn where
      "[] @ received sigs = handled @ opn" "length opn < 5" "CtxDone \<in> set sigs \<longrightarrow> opn = []"
      "Worker_Run f sigs [] (Worker_processBatch f (batch @ [e]) s) =
        (opn, Worker_processBatch f handled (Worker_processBatch f (batch @ [e]) s))" by auto
    with True show ?thesis
      by (intro exI [of _ "batch @ e # handled"] exI [of _ opn]) (simp add: processBatch_append)
  next
    case False
    with 2(2) [OF refl] show ?thesis by (auto simp: Let_def)
  qed
next
  case (3 f sigs batch s)
  show ?case
  proof (cases "batch = []")
    case True
    with 3 show ?thesis by auto
  next
    case False
    with 3(1) obtain handled opn where
      "[] @ received sigs = handled @ opn" "length opn < 5" "CtxDone \<in> set sigs \<longrightarrow> opn = []"
      "Worker_Run f sigs [] (Worker_processBatch f batch s) =
        (opn, Worker_processBatch f handled (Worker_processBatch f batch s))" by auto
    with False show ?thesis
      by (intro exI [of _ "batch @ handled"] exI [of _ opn]) (simp add: processBatch_append)
  qed
next
  case (4 f sigs batch s)
  then show ?case by (auto intro!: exI [of _ batch])
qed auto

section \<open>Delivery\<close>

lemma push_room:
  "push (Sending i kind e) pools =
    (if i < length pools \<and> has_room kind (pools ! i) then Some (pools[i := put_event kind e (pools ! i)]) else None)"
  by (simp add: has_room_def put_event_def Let_def split: chan_kind.split)

lemma push_all_map:
  assumes "distinct js" "set js \<subseteq> {0..<length pools}" "\<And>i. i \<in> set js \<Longrightarrow> has_room kind (pools ! i)"
  shows "push_all (map (\<lambda>i. Sending i kind e) js) pools =
    Some (map (\<lambda>i. if i \<in> set js then put_event kind e (pools ! i) else pools ! i) [0..<length pools])"
  using assms
proof (induction js arbitrary: pools)
  case Nil
  then show ?case by (simp add: map_nth)
next
  case (Cons j js)
  let ?p = "pools[j := put_event kind e (pools ! j)]"
  have j: "j < length pools" "has_room kind (pools ! j)" "j \<notin> set js" using Cons.prems by auto
  have "push_all (map (\<lambda>i. Sending i kind e) (j # js)) pools = push_all (map (\<lambda>i. Sending i kind e) js) ?p"
    using j by (simp add: push_room del: push.simps)
  also have "\<dots> = Some (map (\<lambda>i. if i \<in> set js then put_event kind e (?p ! i) else ?p ! i) [0..<length ?p])"
    using Cons.prems by (intro Cons.IH) (auto simp: nth_list_update)
  also have "map (\<lambda>i. if i \<in> set js then put_event kind e (?p ! i) else ?p ! i) [0..<length ?p] =
      map (\<lambda>i. if i \<in> set (j # js) then put_event kind e (pools ! i) else pools ! i) [0..<length pools]"
    using j by (intro map_cong) (auto simp: nth_list_update)
  finally show ?case .
qed

lemma image_mset_perm: "mset xs = image_mset f (mset ys) \<Longrightarrow> \<exists>zs. xs = map f zs \<and> mset zs = mset ys"
proof (induction xs arbitrary: ys)
  case (Cons x xs)
  from Cons.prems have "x \<in># image_mset f (mset ys)" by (metis list.set_intros(1) set_mset_mset)
  then obtain y where y: "y \<in> set ys" "x = f y" by auto
  then have "mset ys = add_mset y (mset (remove1 y ys))" by simp
  with Cons.prems y(2) have "mset xs = image_mset f (mset (remove1 y ys))"
    by (metis add_mset_add_single add_right_cancel image_mset_add_mset mset.simps(2))
  from Cons.IH [OF this] obtain zs where zs: "xs = map f zs" "mset zs = mset (remove1 y ys)" by blast
  with y have "x # xs = map f (y # zs)" "mset (y # zs) = mset ys" by simp_all
  then show ?case by (intro exI [of _ "y # zs"] conjI)
qed simp

section \<open>Properties\<close>

text \<open>
  A worker handles every event it receives exactly once and in order, however events and ticks are
  interleaved: what it has handled and its open batch are together the received events, fewer than
  five of them are open, and none once the context has ended.
\<close>

theorem Worker_Run_handles:
  "\<exists>handled open. received sigs = handled @ open \<and> length open < 5 \<and>
     Worker_Run f sigs [] s = (open, Worker_processBatch f handled s) \<and> (CtxDone \<notin> set sigs \<or> open = [])"
  using Worker_Run_result [of "[]" sigs f s] by auto

theorem Worker_Run_handles_witness:
  "Worker_Run (\<lambda>e s. (None, s @ [EvTime e])) [Received (NewEvent EventAPIRequest [] 1), Tick,
      Received (NewEvent EventAPIRequest [] 2), CtxDone] [] [] = ([], [1, 2])"
proof -
  let ?sigs = "[Received (NewEvent EventAPIRequest [] 1), Tick, Received (NewEvent EventAPIRequest [] 2), CtxDone]"
  from Worker_Run_handles [of ?sigs "\<lambda>e s. (None, s @ [EvTime e])" "[] :: time list"] show ?thesis
    by (auto simp: NewEvent_def)
qed

text \<open>
  (C32) An event sent to the pipeline reaches every pool exactly once: in whatever order the goroutines of
  \<^verbatim>\<open>SendEvent\<close> run, while the channels have room all of them finish, and afterwards the
  channel for the type of the event has it at its end in every pool; nothing else has changed.
\<close>

theorem SendEvent_delivers:
  assumes "mset ss = mset (Pipeline_SendEvent pools now t data)"
    and "list_all (\<lambda>p. length (StatusChan p) < chan_capacity \<and> length (ApiChan p) < chan_capacity) pools"
  shows "push_all ss pools = Some (map (\<lambda>p. if t = EventStatusChange
      then p\<lparr>StatusChan := StatusChan p @ [NewEvent t data now]\<rparr>
      else p\<lparr>ApiChan := ApiChan p @ [NewEvent t data now]\<rparr>) pools)"
proof -
  let ?e = "NewEvent t data now" and ?n = "[0..<length pools]"
  let ?put = "put_event (chan_of t) ?e"
  from assms(1) have "mset ss = image_mset (\<lambda>i. Sending i (chan_of t) ?e) (mset ?n)"
    by (simp add: Pipeline_SendEvent_def Let_def)
  from image_mset_perm [OF this] obtain js where js: "ss = map (\<lambda>i. Sending i (chan_of t) ?e) js" "mset js = mset ?n" by blast
  from mset_eq_setD [OF js(2)] have set_js: "set js = {0..<length pools}" by simp
  have "distinct js" using mset_eq_imp_distinct_iff [OF js(2)] by simp
  moreover have "has_room (chan_of t) (pools ! i)" if "i \<in> set js" for i
    using assms(2) that set_js by (simp add: has_room_def list_all_length split: chan_kind.split)
  ultimately have "push_all ss pools = Some (map (\<lambda>i. if i \<in> set js then ?put (pools ! i) else pools ! i) ?n)"
    unfolding js(1) by (intro push_all_map) (simp_all add: set_js)
  also have "map (\<lambda>i. if i \<in> set js then ?put (pools ! i) else pools ! i) ?n = map (\<lambda>i. ?put (pools ! i)) ?n"
    by (rule map_cong) (simp_all add: set_js)
  also have "\<dots> = map ?put pools"
    by (rule nth_equalityI) simp_all
  finally show ?thesis
    by (cases t) (simp_all add: put_event_def chan_of_def)
qed

theorem SendEvent_delivers_witness:
  "push_all (rev (Pipeline_SendEvent [NewWorkerPool, NewWorkerPool] 7 EventStatusChange [])) [NewWorkerPool, NewWorkerPool] =
     Some (replicate 2 \<lparr>StatusChan = [NewEvent EventStatusChange [] 7], ApiChan = []\<rparr>)"
  using SendEvent_delivers [of "rev (Pipeline_SendEvent [NewWorkerPool, NewWorkerPool] 7 EventStatusChange [])"
      "[NewWorkerPool, NewWorkerPool]" 7 EventStatusChange "[]"]
  by (simp add: NewWorkerPool_def chan_capacity_def numeral_2_eq_2)

end
