(* ===== verification/System.thy ===== *)
theory System
  imports Db_Steps Outbox Pipeline "HOL-Library.Multiset"
begin

text \<open>
  The running program: requests, the goroutines of \<^verbatim>\<open>SendEvent\<close>, the four workers that
  \<^verbatim>\<open>Pipeline.StartWorkers\<close> and \<^verbatim>\<open>WorkerPool.StartWorkers\<close> start, and the worker of
  the outbox, all at work on one database. \<open>system_step\<close> has one rule for each thing one of them can do
  next; a run is any interleaving. The process may die at any moment and start again. The state keeps beside the program's own data the events sent, saved and
  lost so far, which nothing depends on.
\<close>

section \<open>The state\<close>

text \<open>A worker has a batch that is still open and the events of a batch it is handling.\<close>

record worker =
  open_batch :: "event list"
  handling :: "event list"

definition NewWorker :: worker where
  "NewWorker = \<lparr>open_batch = [], handling = []\<rparr>"

text \<open>\<open>sys_broker\<close> is the state of the Kafka client and the list of sends; \<open>sys_fetched\<close> are the tasks the outbox worker has fetched and not yet handled.\<close>

record 'k system =
  sys_db :: pg
  sys_goroutines :: "sending list"
  sys_pools :: "worker_pool list"
  sys_workers :: "nat \<Rightarrow> chan_kind \<Rightarrow> worker"
  sys_broker :: "'k \<times> (int \<times> bool) list"
  sys_fetched :: "audit_task list"
  sys_sent :: "event list"
  sys_saved :: "event list"
  sys_lost :: "event list"

section \<open>Channels\<close>

fun channel :: "chan_kind \<Rightarrow> worker_pool \<Rightarrow> event list" where
  "channel Status_chan p = StatusChan p"
| "channel Api_chan p = ApiChan p"

fun set_channel :: "chan_kind \<Rightarrow> event list \<Rightarrow> worker_pool \<Rightarrow> worker_pool" where
  "set_channel Status_chan es p = p\<lparr>StatusChan := es\<rparr>"
| "set_channel Api_chan es p = p\<lparr>ApiChan := es\<rparr>"

text \<open>
  The loop of a worker with a handler that only queues events: what it queues is the batch that
  \<^verbatim>\<open>processBatch\<close> then goes through, one event at a time.
\<close>

definition queueing :: "event \<Rightarrow> event list \<Rightarrow> goerror option \<times> event list" where
  "queueing e q = (None, q @ [e])"

text \<open>The workers with one of them replaced: worker \<open>k\<close> of pool \<open>i\<close>.\<close>

definition set_worker :: "nat \<Rightarrow> chan_kind \<Rightarrow> worker \<Rightarrow> (nat \<Rightarrow> chan_kind \<Rightarrow> worker) \<Rightarrow> nat \<Rightarrow> chan_kind \<Rightarrow> worker" where
  "set_worker i k wk ws = ws(i := (ws i)(k := wk))"

text \<open>The events of a list of goroutines that are meant for a pool, and the events in a pool and its workers.\<close>

fun sending_event :: "nat \<Rightarrow> sending \<Rightarrow> event list" where
  "sending_event i (Sending j k e) = (if j = i then [e] else [])"

definition worker_content :: "worker \<Rightarrow> event multiset" where
  "worker_content wk = mset (open_batch wk) + mset (handling wk)"

definition pool_content :: "worker_pool \<Rightarrow> (chan_kind \<Rightarrow> worker) \<Rightarrow> event multiset" where
  "pool_content p ws = mset (StatusChan p) + mset (ApiChan p) + worker_content (ws Status_chan) + worker_content (ws Api_chan)"

definition in_flight :: "'k system \<Rightarrow> event multiset" where
  "in_flight S = mset (concat (map (sending_event 0) (sys_goroutines S))) + pool_content (sys_pools S ! 0) (sys_workers S 0)"

section \<open>Steps\<close>

text \<open>
  \<open>died\<close> is the end of the process between the update of a task and its send; \<open>crash\<close> is the end and
  the new start of the process: what was on its way in its memory is lost, the tables and Kafka stay. The
  workers and the goroutines of the old process are gone.
\<close>

inductive system_step ::
    "pg_env \<Rightarrow> (int \<Rightarrow> json \<Rightarrow> 'k \<Rightarrow> goerror option \<times> 'k) \<Rightarrow> 'k system \<Rightarrow> 'k system \<Rightarrow> bool" for E send where
  request: "db_step E (sys_db S) w \<Longrightarrow> system_step E send S (S\<lparr>sys_db := w\<rparr>)"
| event: "system_step E send S
    (S\<lparr>sys_goroutines := sys_goroutines S @ Pipeline_SendEvent (sys_pools S) t ty data,
       sys_sent := sys_sent S @ [NewEvent ty data t]\<rparr>)"
| pushed: "\<lbrakk> sys_goroutines S = gs @ g # gs'; push g (sys_pools S) = Some ps \<rbrakk> \<Longrightarrow>
    system_step E send S (S\<lparr>sys_goroutines := gs @ gs', sys_pools := ps\<rparr>)"
| receive: "\<lbrakk> i < length (sys_pools S); channel k (sys_pools S ! i) = e # es; handling (sys_workers S i k) = [];
      Worker_Run queueing [Received e] (open_batch (sys_workers S i k)) [] = (b, q) \<rbrakk> \<Longrightarrow>
    system_step E send S (S\<lparr>sys_pools := (sys_pools S)[i := set_channel k es (sys_pools S ! i)],
      sys_workers := set_worker i k \<lparr>open_batch = b, handling = q\<rparr> (sys_workers S)\<rparr>)"
| flush: "\<lbrakk> handling (sys_workers S i k) = []; sig \<in> {Tick, CtxDone};
      Worker_Run queueing [sig] (open_batch (sys_workers S i k)) [] = (b, q) \<rbrakk> \<Longrightarrow>
    system_step E send S (S\<lparr>sys_workers := set_worker i k \<lparr>open_batch = b, handling = q\<rparr> (sys_workers S)\<rparr>)"
| save: "\<lbrakk> handling (sys_workers S 0 k) = e # es; Pipeline_saveToDB E e (sys_db S) = (r, w) \<rbrakk> \<Longrightarrow>
    system_step E send S (S\<lparr>sys_db := w, sys_workers := set_worker 0 k ((sys_workers S 0 k)\<lparr>handling := es\<rparr>) (sys_workers S),
      sys_saved := sys_saved S @ (if r = None then [e] else []), sys_lost := sys_lost S @ (if r = None then [] else [e])\<rparr>)"
| print: "\<lbrakk> handling (sys_workers S 1 k) = e # es; Pipeline_printToStdout f e () = (r, u) \<rbrakk> \<Longrightarrow>
    system_step E send S (S\<lparr>sys_workers := set_worker 1 k ((sys_workers S 1 k)\<lparr>handling := es\<rparr>) (sys_workers S)\<rparr>)"
| fetch: "\<lbrakk> sys_fetched S = []; fetch_batch NewOutboxWorker E t locked (sys_db S) = (ts, w) \<rbrakk> \<Longrightarrow>
    system_step E send S (S\<lparr>sys_db := w, sys_fetched := ts\<rparr>)"
| task: "\<lbrakk> sys_fetched S = tk # ts;
      OutboxWorker_processTask NewOutboxWorker E (traced send) clocks tk (sys_db S, sys_broker S) = (r, w, br) \<rbrakk> \<Longrightarrow>
    system_step E send S (S\<lparr>sys_db := w, sys_broker := br, sys_fetched := ts\<rparr>)"
| stop: "system_step E send S (S\<lparr>sys_fetched := []\<rparr>)"
| died: "\<lbrakk> sys_fetched S = tk # ts;
      auditService_UpdateTask E t (tk\<lparr>TaskStatus := StatusProcessing, UpdatedAt := now\<rparr>) (sys_db S) = (q, w) \<rbrakk> \<Longrightarrow>
    system_step E send S (S\<lparr>sys_db := w, sys_fetched := []\<rparr>)"
| crash: "mset es = in_flight S \<Longrightarrow>
    system_step E send S (S\<lparr>sys_goroutines := [], sys_pools := [NewWorkerPool, NewWorkerPool], sys_workers := (\<lambda>i k. NewWorker),
      sys_fetched := [], sys_lost := sys_lost S @ es\<rparr>)"

text \<open>The program starts with two empty pools on a database without audit tasks, and with the Kafka client in the
  state \<open>k0\<close>.\<close>

definition started :: "pg_env \<Rightarrow> 'k \<Rightarrow> 'k system \<Rightarrow> bool" where
  "started E k0 S \<longleftrightarrow> db_ok E (sys_db S) \<and> audit_tasks (sys_db S) = [] \<and> sys_goroutines S = [] \<and>
     sys_pools S = [NewWorkerPool, NewWorkerPool] \<and> sys_workers S = (\<lambda>i k. NewWorker) \<and>
     sys_broker S = (k0, []) \<and> sys_fetched S = [] \<and> sys_sent S = [] \<and> sys_saved S = [] \<and> sys_lost S = []"

inductive system_run ::
    "pg_env \<Rightarrow> (int \<Rightarrow> json \<Rightarrow> 'k \<Rightarrow> goerror option \<times> 'k) \<Rightarrow> 'k \<Rightarrow> 'k system \<Rightarrow> bool" for E send k0 where
  start: "started E k0 S \<Longrightarrow> system_run E send k0 S"
| step: "\<lbrakk> system_run E send k0 S; system_step E send S S' \<rbrakk> \<Longrightarrow> system_run E send k0 S'"

section \<open>The audit trail of a run is a run of the outbox\<close>

abbreviation outbox_view :: "'k system \<Rightarrow> 'k outbox_state" where
  "outbox_view S \<equiv> (sys_db S, sys_broker S, sys_fetched S)"

lemma system_audit_step:
  "system_step E send S S' \<Longrightarrow> audit_step E send (outbox_view S) (outbox_view S')"
proof (induction rule: system_step.induct)
  case (request S w)
  with db_step_tasks [OF request] show ?case by (auto intro: audit_step.elsewhere)
next
  case (save S k e es r w)
  then show ?case by (auto simp: Pipeline_saveToDB_def intro: audit_step.save)
next
  case (fetch S t locked ts w)
  then show ?case by (auto intro: audit_step.fetch)
next
  case (task S tk ts clocks r w br)
  then show ?case by (auto intro: audit_step.task)
next
  case (stop S)
  then show ?case by (auto intro: audit_step.stop)
next
  case (died S tk ts t now q w)
  then show ?case by (auto intro: audit_step.died)
next
  case (crash es S)
  then show ?case by (auto intro: audit_step.stop)
qed (auto intro: audit_step.elsewhere)

lemma system_audit_run: "system_run E send k0 S \<Longrightarrow> audit_run E send k0 (outbox_view S)"
proof (induction rule: system_run.induct)
  case (start S)
  then show ?case by (simp add: started_def audit_run.start)
next
  case (step S S')
  then show ?case by (blast intro: audit_run.step system_audit_step)
qed

section \<open>The tables stay consistent\<close>

lemma same_shop_db_ok:
  assumes "db_ok E w" "same_shop w w'"
  shows "db_ok E w'"
  using assms by (auto simp: db_ok_def users_ok_def same_shop_def intro: shop_ok_frame)

lemma system_step_db:
  assumes "pg_env_ok E" "system_step E send S S'" "db_ok E (sys_db S)"
  shows "db_ok E (sys_db S')"
  using assms(2,3)
proof (induction rule: system_step.induct)
  case (request S w)
  then show ?case using db_step_ok [OF assms(1)] by simp
next
  case (save S k e es r w)
  then have "same_shop (sys_db S) w" using SaveLog_shop [of E e "sys_db S" r w] by (simp add: Pipeline_saveToDB_def)
  with same_shop_db_ok [OF save.prems] show ?case by simp
next
  case (fetch S t locked ts w)
  with same_shop_db_ok [OF fetch.prems] fetch_batch_shop [OF fetch(2)] show ?case by simp
next
  case (task S tk ts clocks r w br)
  with same_shop_db_ok [OF task.prems] processTask_shop [OF task(2)] show ?case by simp
next
  case (died S tk ts t now q w)
  with same_shop_db_ok [OF died.prems] UpdateTask_shop [OF died(2)] show ?case by simp
qed simp_all

section \<open>The pipeline loses nothing\<close>

lemma processBatch_queueing: "Worker_processBatch queueing es q = q @ es"
  by (induction es arbitrary: q) (simp_all add: queueing_def)

lemma queue_run:
  assumes "Worker_Run queueing sigs batch [] = (b, q)" "length batch < 5"
  shows "batch @ received sigs = q @ b \<and> length b < 5"
  using Worker_Run_result [OF assms(2), of sigs queueing "[]"] assms(1) by (auto simp: processBatch_queueing)

definition pipeline_ok :: "'k system \<Rightarrow> bool" where
  "pipeline_ok S \<longleftrightarrow> length (sys_pools S) = 2 \<and> mset (sys_sent S) = in_flight S + mset (sys_saved S) + mset (sys_lost S) \<and>
     list_all (\<lambda>p. length (StatusChan p) \<le> chan_capacity \<and> length (ApiChan p) \<le> chan_capacity) (sys_pools S) \<and>
     (\<forall>i k. length (open_batch (sys_workers S i k)) < 5)"

lemma pool_content_worker:
  "pool_content p (ws(k := wk)) + worker_content (ws k) = pool_content p ws + worker_content wk"
  by (cases k) (simp_all add: pool_content_def)

lemma pool_content_move:
  assumes "mset (channel k p) + worker_content (ws k) = mset es + worker_content wk"
  shows "pool_content (set_channel k es p) (ws(k := wk)) = pool_content p ws"
  using assms [symmetric] by (cases k) (simp_all add: pool_content_def)

lemma set_channel_same [simp]: "set_channel k (channel k p) p = p"
  by (cases k) simp_all

lemma pool_content_put: "pool_content (put_event k e p) ws = add_mset e (pool_content p ws)"
  by (cases k) (simp_all add: pool_content_def put_event_def)

lemma SendEvent_first:
  "length pools = 2 \<Longrightarrow> concat (map (sending_event 0) (Pipeline_SendEvent pools t ty data)) = [NewEvent ty data t]"
  by (simp add: Pipeline_SendEvent_def Let_def upt_conv_Cons numeral_2_eq_2)

text \<open>What a goroutine that puts its event into a channel, and a worker that moves on, leave as it was.\<close>

lemma push_content:
  assumes "push g pools = Some ps"
  shows "length ps = length pools \<and> pool_content (ps ! 0) ws = mset (sending_event 0 g) + pool_content (pools ! 0) ws \<and>
    (list_all (\<lambda>p. length (StatusChan p) \<le> chan_capacity \<and> length (ApiChan p) \<le> chan_capacity) pools \<longrightarrow>
     list_all (\<lambda>p. length (StatusChan p) \<le> chan_capacity \<and> length (ApiChan p) \<le> chan_capacity) ps)"
proof (cases g)
  case (Sending i k e)
  with assms have i: "i < length pools" "has_room k (pools ! i)" "ps = pools[i := put_event k e (pools ! i)]"
    by (auto simp: push_room simp del: push.simps split: if_splits)
  have "pool_content (ps ! 0) ws = mset (sending_event 0 g) + pool_content (pools ! 0) ws"
    using i by (auto simp: Sending nth_list_update pool_content_put)
  moreover have "length (StatusChan (put_event k e (pools ! i))) \<le> chan_capacity \<and> length (ApiChan (put_event k e (pools ! i))) \<le> chan_capacity"
    if "length (StatusChan (pools ! i)) \<le> chan_capacity \<and> length (ApiChan (pools ! i)) \<le> chan_capacity"
    using i(2) that by (cases k) (auto simp: has_room_def put_event_def)
  ultimately show ?thesis using i by (auto simp: list_all_length nth_list_update)
qed

lemma set_worker_apply: "set_worker i k wk ws j = (if j = i then (ws i)(k := wk) else ws j)"
  by (simp add: set_worker_def)

text \<open>A worker that takes from its channel and its batch and fills its batch and its queue.\<close>

lemma in_flight_move:
  assumes "i < length (sys_pools S)"
    and "mset (channel k (sys_pools S ! i)) + worker_content (sys_workers S i k) = mset es + worker_content wk"
  shows "in_flight (S\<lparr>sys_pools := (sys_pools S)[i := set_channel k es (sys_pools S ! i)],
      sys_workers := set_worker i k wk (sys_workers S)\<rparr>) = in_flight S"
  using assms pool_content_move [of k "sys_pools S ! i" "sys_workers S i" es wk]
  by (cases "i = 0") (simp_all add: in_flight_def set_worker_apply)

lemma system_step_pipeline:
  assumes "system_step E send S S'" "pipeline_ok S"
  shows "pipeline_ok S'"
  using assms
proof (induction rule: system_step.induct)
  case (event S t ty data)
  then show ?case by (simp add: pipeline_ok_def in_flight_def SendEvent_first)
next
  case (pushed S gs g gs' ps)
  with push_content [OF pushed(2), of "sys_workers S 0"] show ?case by (simp add: pipeline_ok_def in_flight_def)
next
  case (receive i S k e es b q)
  have q: "open_batch (sys_workers S i k) @ [e] = q @ b" "length b < 5"
    using queue_run [OF receive(4)] receive.prems by (auto simp: pipeline_ok_def)
  from arg_cong [OF q(1), of mset] have "in_flight (S\<lparr>sys_pools := (sys_pools S)[i := set_channel k es (sys_pools S ! i)],
      sys_workers := set_worker i k \<lparr>open_batch = b, handling = q\<rparr> (sys_workers S)\<rparr>) = in_flight S"
    using receive(1-3) by (intro in_flight_move) (simp_all add: worker_content_def ac_simps)
  moreover have "length (channel k' (set_channel k es (sys_pools S ! i))) \<le> length (channel k' (sys_pools S ! i))" for k'
    using receive(2) by (cases k; cases k') auto
  from this [of Status_chan] this [of Api_chan] receive.prems receive(1) have
    "list_all (\<lambda>p. length (StatusChan p) \<le> chan_capacity \<and> length (ApiChan p) \<le> chan_capacity)
      ((sys_pools S)[i := set_channel k es (sys_pools S ! i)])"
    by (auto simp: pipeline_ok_def list_all_length nth_list_update intro: le_trans)
  ultimately show ?case using receive.prems q(2) by (simp add: pipeline_ok_def set_worker_apply)
next
  case (flush S i k sig b q)
  have q: "open_batch (sys_workers S i k) = q @ b" "length b < 5"
    using queue_run [OF flush(3)] flush(2) flush.prems by (auto simp: pipeline_ok_def)
  have "in_flight (S\<lparr>sys_workers := set_worker i k \<lparr>open_batch = b, handling = q\<rparr> (sys_workers S)\<rparr>) = in_flight S"
    using pool_content_move [of k "sys_pools S ! 0" "sys_workers S 0" "channel k (sys_pools S ! 0)" "\<lparr>open_batch = b, handling = q\<rparr>"] q(1) flush(1)
    by (cases "i = 0") (simp_all add: in_flight_def set_worker_apply worker_content_def ac_simps)
  with flush.prems q(2) show ?case by (simp add: pipeline_ok_def set_worker_apply)
next
  case (save S k e es r w)
  let ?wk = "(sys_workers S 0 k)\<lparr>handling := es\<rparr>"
  have "pool_content (sys_pools S ! 0) ((sys_workers S 0)(k := ?wk)) + {#e#} = pool_content (sys_pools S ! 0) (sys_workers S 0)"
    using pool_content_worker [of "sys_pools S ! 0" "sys_workers S 0" k ?wk] save(1) by (simp add: worker_content_def)
  then have "in_flight (S\<lparr>sys_workers := set_worker 0 k ?wk (sys_workers S)\<rparr>) + {#e#} = in_flight S"
    by (simp add: in_flight_def set_worker_apply)
  with save.prems show ?case by (auto simp: pipeline_ok_def set_worker_apply in_flight_def)
next
  case (print S k e es f r u)
  then show ?case by (simp add: pipeline_ok_def in_flight_def set_worker_apply)
next
  case (crash es S)
  then show ?case
    by (simp add: pipeline_ok_def in_flight_def pool_content_def worker_content_def NewWorkerPool_def NewWorker_def ac_simps)
qed (simp_all add: pipeline_ok_def in_flight_def)

section \<open>What Kafka receives\<close>

text \<open>The tasks hold the documents of the saved events in order.\<close>

definition docs_ok :: "'k system \<Rightarrow> bool" where
  "docs_ok S \<longleftrightarrow> map snd (task_docs (sys_db S)) = map doc_of (sys_saved S)"

lemma system_step_docs:
  assumes "system_step E send S S'" "docs_ok S"
  shows "docs_ok S'"
  using assms
proof (induction rule: system_step.induct)
  case (request S w)
  with db_step_tasks [OF request(1)] show ?case by (simp add: docs_ok_def task_docs_def)
next
  case (save S k e es r w)
  then show ?case using SaveLog_shop [of E e "sys_db S" r w]
    by (cases r) (auto simp: docs_ok_def Pipeline_saveToDB_def doc_of_def)
next
  case (fetch S t locked ts w)
  with fetch_batch_shop [OF fetch(2)] show ?case by (simp add: docs_ok_def)
next
  case (task S tk ts clocks r w br)
  with processTask_shop [OF task(2)] show ?case by (simp add: docs_ok_def)
next
  case (died S tk ts t now q w)
  with UpdateTask_shop [OF died(2)] show ?case by (simp add: docs_ok_def)
qed (simp_all add: docs_ok_def)

section \<open>The invariant of the system\<close>

definition system_ok :: "pg_env \<Rightarrow> 'k system \<Rightarrow> bool" where
  "system_ok E S \<longleftrightarrow> db_ok E (sys_db S) \<and> audit_ok (outbox_view S) \<and> pipeline_ok S \<and> docs_ok S"

lemma started_ok:
  assumes "started E k0 S"
  shows "system_ok E S"
  using assms
  by (auto simp: started_def system_ok_def audit_ok_def pipeline_ok_def docs_ok_def in_flight_def pool_content_def
      worker_content_def NewWorkerPool_def NewWorker_def task_docs_def)

lemma system_step_ok:
  assumes "pg_env_ok E" "system_step E send S S'" "system_ok E S"
  shows "system_ok E S'"
  using assms system_step_db [OF assms(1,2)] audit_step_ok [OF assms(1) system_audit_step [OF assms(2)]]
    system_step_pipeline [OF assms(2)] system_step_docs [OF assms(2)]
  by (simp add: system_ok_def)

lemma system_run_ok:
  assumes "pg_env_ok E" "system_run E send k0 S"
  shows "system_ok E S"
  using assms(2) by (induction rule: system_run.induct) (auto intro: started_ok system_step_ok [OF assms(1)])

text \<open>The sends of all tasks together: no task more than three times.\<close>

lemma sends_repeat:
  assumes "audit_ok (w, (k, tr), ts)"
  shows "mset (map fst tr) \<subseteq># repeat_mset 3 (mset (map fst (task_docs w)))"
proof (rule mset_subset_eqI)
  fix i
  have c: "count (mset (map fst tr)) i = sends tr i" by (induction tr) (auto simp: sends_def)
  show "count (mset (map fst tr)) i \<le> count (repeat_mset 3 (mset (map fst (task_docs w)))) i"
  proof (cases "sends tr i = 0")
    case False
    from audit_run_ids [OF assms this] obtain rw where "rw \<in> set (audit_tasks w)" "task_id rw = i" "sends tr i \<le> 3"
      using task_ok_bounds by blast
    then have "i \<in># mset (map fst (task_docs w))" by (auto simp: task_docs_def)
    then have "1 \<le> count (mset (map fst (task_docs w))) i" by (simp add: Suc_le_eq)
    with \<open>sends tr i \<le> 3\<close> show ?thesis unfolding count_repeat_mset c by linarith
  qed (use c in simp)
qed

lemma image_repeat: "image_mset f (repeat_mset n M) = repeat_mset n (image_mset f M)"
  by (induction n) simp_all

lemma messages_sent:
  assumes "kafka_inv msgs pend k0 (w, (k, tr), ts)" "audit_ok (w, (k, tr), ts)" "msgs k0 = []" "pend k0 = []"
  shows "mset (map RecordValue (msgs k)) \<subseteq># repeat_mset 3 (mset (map snd (task_docs w)))"
proof -
  let ?docs = "task_docs w" and ?doc = "\<lambda>i. the (map_of (task_docs w) i)"
  have "mset (msgs k) \<subseteq># mset (msgs k @ pend k)" by simp
  moreover have "mset (msgs k @ pend k) \<subseteq># mset (map (task_record w \<circ> fst) tr)"
    using assms(1,3,4) by (simp add: kafka_inv_def)
  ultimately have "mset (msgs k) \<subseteq># mset (map (task_record w \<circ> fst) tr)" by (rule subset_mset.trans)
  then have "image_mset RecordValue (mset (msgs k)) \<subseteq># image_mset RecordValue (mset (map (task_record w \<circ> fst) tr))"
    by (rule image_mset_subseteq_mono)
  also have "image_mset RecordValue (mset (map (task_record w \<circ> fst) tr)) = image_mset ?doc (mset (map fst tr))"
    by (simp add: task_record_def audit_record_def multiset.map_comp comp_def)
  also have "\<dots> \<subseteq># image_mset ?doc (repeat_mset 3 (mset (map fst ?docs)))"
    by (rule image_mset_subseteq_mono [OF sends_repeat [OF assms(2)]])
  also have "\<dots> = repeat_mset 3 (mset (map ?doc (map fst ?docs)))" by (simp only: image_repeat mset_map)
  also have "map ?doc (map fst ?docs) = map snd ?docs" using audit_ok_docs(1) [OF assms(2)] by auto
  finally show ?thesis by simp
qed

section \<open>Requests in the running system\<close>

text \<open>The events of a request, sent at given times.\<close>

fun send_events :: "time list \<Rightarrow> audit_call list \<Rightarrow> 'k system \<Rightarrow> 'k system" where
  "send_events (t # ts) ((ty, data) # calls) S = send_events ts calls
     (S\<lparr>sys_goroutines := sys_goroutines S @ Pipeline_SendEvent (sys_pools S) t ty data,
        sys_sent := sys_sent S @ [NewEvent ty data t]\<rparr>)"
| "send_events _ _ S = S"

lemma send_events_steps: "(system_step E send)\<^sup>*\<^sup>* S (send_events ts calls S)"
proof (induction ts calls S rule: send_events.induct)
  case (1 t ts ty data calls S)
  then show ?case by (auto intro: converse_rtranclp_into_rtranclp system_step.event)
qed simp_all

lemma db_run_steps:
  assumes "db_run E (sys_db S) w"
  shows "(system_step E send)\<^sup>*\<^sup>* S (S\<lparr>sys_db := w\<rparr>)"
  using assms
proof (induction rule: rtranclp_induct)
  case base
  then show ?case by simp
next
  case (step w1 w)
  have "system_step E send (S\<lparr>sys_db := w1\<rparr>) (S\<lparr>sys_db := w\<rparr>)"
    using system_step.request [of E "S\<lparr>sys_db := w1\<rparr>" w send] step(2) by simp
  with step(3) show ?case by simp
qed

lemma system_run_steps: "system_run E send k0 S \<Longrightarrow> (system_step E send)\<^sup>*\<^sup>* S S' \<Longrightarrow> system_run E send k0 S'"
  by (rotate_tac, induction rule: rtranclp_induct) (auto intro: system_run.step)

lemma send_events_sent:
  "sys_sent (send_events ts calls S) = sys_sent S @ map2 (\<lambda>t (ty, data). NewEvent ty data t) ts calls"
  by (induction ts calls S rule: send_events.induct) simp_all

lemma request_steps:
  assumes "db_run E (sys_db S) w"
  shows "(system_step E send)\<^sup>*\<^sup>* S (send_events ts calls (S\<lparr>sys_db := w\<rparr>))"
  using db_run_steps [OF assms] send_events_steps by (rule rtranclp_trans)

section \<open>A sample run\<close>

text \<open>The program starts on a shop with two orders, with a broker that loses the first acknowledgement.\<close>

abbreviation sample_broker :: "kgo_record list \<times> kgo_record list \<times> nat" where
  "sample_broker \<equiv> ([], [], 1)"

definition sample_system :: "pg \<Rightarrow> (kgo_record list \<times> kgo_record list \<times> nat) system" where
  "sample_system w = \<lparr>sys_db = w, sys_goroutines = [], sys_pools = [NewWorkerPool, NewWorkerPool],
     sys_workers = (\<lambda>i k. NewWorker), sys_broker = (sample_broker, []), sys_fetched = [], sys_sent = [], sys_saved = [], sys_lost = []\<rparr>"

lemma sample_system_start: "w \<in> {sample_db, sample_shop} \<Longrightarrow> system_run sample_env sample_send sample_broker (sample_system w)"
proof -
  assume w: "w \<in> {sample_db, sample_shop}"
  have "shop_ok sample_env sample_db" by (simp add: shop_ok_def orders_ok_def sample_db_def)
  moreover have "shop_ok sample_env sample_shop" by (rule reachable_shop_ok [OF sample_env_ok sample_reachable])
  ultimately have "db_ok sample_env w" "audit_tasks w = []"
    using w by (auto simp: db_ok_def users_ok_def sample_shop_def sample_db_def)
  then show ?thesis by (intro system_run.start) (simp add: started_def sample_system_def)
qed

text \<open>An order is issued and then refunded by a request whose clock was read before.\<close>

lemma sample_race_run:
  "\<exists>w. system_run sample_env sample_send sample_broker (sample_system w) \<and>
     (\<exists>r \<in> set (orders w). order_id r = ''b'' \<and> issued_at r = Some 3000 \<and> refunded_at r = Some 2000)"
proof -
  let ?S = sample_system
  have "\<exists>x. stored_orders sample_shop j = Some x \<and> validateOrderForIssue x ''u'' 3000 = None" if "j \<in> set [''b'']" for j
    using that by (simp add: validateOrderForIssue_None)
  from issue.transaction_complete [OF _ _ _ this, where E = sample_env and ids = "[''b'']"] obtain w1 res where
    w1: "UserOrderStorage_IssueOrders sample_env 3000 ''u'' [''b''] sample_shop = (Inr res, w1)"
    "orders w1 = stamp_rows (mark_issued sample_env 3000) {''b''} (orders sample_shop)" "orders_ok w1" "script w1 = []"
    by (auto simp: UserOrderStorage_IssueOrders_def)
  have "\<exists>x. stored_orders w1 j = Some x \<and> validateOrderForRefund x ''u'' 2000 = None" if "j \<in> set [''b'']" for j
    using that issue.stored_put [OF w1(2)]
    by (simp add: validateOrderForRefund_None issued_order_def Status_def) (simp add: sample_env_def)
  from refund.transaction_complete [OF w1(3,4) _ this, where E = sample_env and ids = "[''b'']"] obtain w2 res' where
    w2: "UserOrderStorage_RefundOrders sample_env 2000 ''u'' [''b''] w1 = (Inr res', w2)"
    "orders w2 = stamp_rows (mark_refunded sample_env 2000) {''b''} (orders w1)"
    by (auto simp: UserOrderStorage_RefundOrders_def)
  have "db_step sample_env sample_shop w1" "db_step sample_env w1 w2"
    using w1(1) w2(1) by (auto intro!: db_step.order intro: order_step.issue [of 3000] order_step.refund [of 2000])
  then have "db_run sample_env sample_shop w2" by simp
  then have "(system_step sample_env sample_send)\<^sup>*\<^sup>* (?S sample_shop) (?S w2)"
    using db_run_steps [of sample_env "?S sample_shop" w2 sample_send] by (simp add: sample_system_def)
  with sample_system_start [of sample_shop] have "system_run sample_env sample_send sample_broker (?S w2)"
    by (blast intro: system_run_steps)
  moreover have "\<exists>r \<in> set (orders w2). order_id r = ''b'' \<and> issued_at r = Some 3000 \<and> refunded_at r = Some 2000"
    by (simp add: w2(2) w1(2) stamp_rows_def sample_shop_def mark_issued_def mark_refunded_def) (simp add: sample_env_def)
  ultimately show ?thesis by blast
qed

text \<open>One event goes all the way to Kafka, twice.\<close>

lemma sample_event_new: "NewEvent EventAPIRequest [(''path'', AnyString ''/orders'')] 5000 = sample_event"
  by (simp add: NewEvent_def sample_event_def)

lemma sample_saved_run:
  "\<exists>ws. system_run sample_env sample_send sample_broker ((sample_system (sample_tasks_db created_task))\<lparr>sys_workers := ws,
     sys_sent := [sample_event], sys_saved := [sample_event], sys_goroutines := [Sending 1 Api_chan sample_event]\<rparr>)"
proof -
  let ?S0 = "sample_system sample_db"
  let ?S1 = "?S0\<lparr>sys_goroutines := [Sending 0 Api_chan sample_event, Sending 1 Api_chan sample_event], sys_sent := [sample_event]\<rparr>"
  let ?S2 = "?S1\<lparr>sys_goroutines := [Sending 1 Api_chan sample_event], sys_pools := [\<lparr>StatusChan = [], ApiChan = [sample_event]\<rparr>, NewWorkerPool]\<rparr>"
  let ?ws3 = "set_worker 0 Api_chan \<lparr>open_batch = [sample_event], handling = []\<rparr> (\<lambda>i k. NewWorker)"
  let ?S3 = "?S2\<lparr>sys_pools := [NewWorkerPool, NewWorkerPool], sys_workers := ?ws3\<rparr>"
  let ?ws4 = "set_worker 0 Api_chan \<lparr>open_batch = [], handling = [sample_event]\<rparr> ?ws3"
  let ?S4 = "?S3\<lparr>sys_workers := ?ws4\<rparr>"
  let ?ws5 = "set_worker 0 Api_chan \<lparr>open_batch = [], handling = []\<rparr> ?ws4"
  have "system_step sample_env sample_send ?S0 ?S1"
    using system_step.event [where E = sample_env and send = sample_send and S = ?S0 and t = 5000 and ty = EventAPIRequest
        and data = "[(''path'', AnyString ''/orders'')]"]
    by (simp add: sample_event_new sample_system_def Pipeline_SendEvent_def chan_of_def Let_def upt_rec)
  moreover have "system_step sample_env sample_send ?S1 ?S2"
    using system_step.pushed [of ?S1 "[]" "Sending 0 Api_chan sample_event" "[Sending 1 Api_chan sample_event]" _ sample_env sample_send]
    by (simp add: sample_system_def NewWorkerPool_def chan_capacity_def)
  moreover have "system_step sample_env sample_send ?S2 ?S3"
    using system_step.receive [of 0 ?S2 Api_chan sample_event "[]" "[sample_event]" "[]" sample_env sample_send]
    by (simp add: sample_system_def NewWorkerPool_def NewWorker_def)
  moreover have "system_step sample_env sample_send ?S3 ?S4"
    using system_step.flush [of ?S3 0 Api_chan Tick "[]" "[sample_event]" sample_env sample_send]
    by (simp add: sample_system_def set_worker_apply queueing_def)
  moreover have "system_step sample_env sample_send ?S4 (?S4\<lparr>sys_db := sample_tasks_db created_task, sys_workers := ?ws5, sys_saved := [sample_event]\<rparr>)"
    using system_step.save [of ?S4 Api_chan sample_event "[]" sample_env None "sample_tasks_db created_task" sample_send]
    by (simp add: sample_system_def set_worker_apply Pipeline_saveToDB_def sample_saved_db)
  moreover have "system_run sample_env sample_send sample_broker ?S0" by (rule sample_system_start) simp
  ultimately have "system_run sample_env sample_send sample_broker
      (?S4\<lparr>sys_db := sample_tasks_db created_task, sys_workers := ?ws5, sys_saved := [sample_event]\<rparr>)"
    by (meson system_run.step)
  then show ?thesis by (intro exI [of _ ?ws5]) (simp add: sample_system_def)
qed

lemma sample_task_step:
  assumes "system_run sample_env sample_send k0 S" "sys_db S = sample_tasks_db r" "sys_fetched S = []" "pending now r"
    and "OutboxWorker_processTask NewOutboxWorker sample_env (traced sample_send) clocks (row_task r) (sample_tasks_db r, sys_broker S) = (q, w, br)"
  shows "system_run sample_env sample_send k0 (S\<lparr>sys_db := w, sys_broker := br, sys_fetched := []\<rparr>)"
proof -
  let ?S1 = "S\<lparr>sys_db := sample_tasks_db r, sys_fetched := [row_task r]\<rparr>"
  have "system_step sample_env sample_send S ?S1"
    using system_step.fetch [of S sample_env now "\<lambda>_. False" "[row_task r]" "sample_tasks_db r" sample_send] assms(2,3) sample_fetch [OF assms(4)]
    by simp
  moreover have "system_step sample_env sample_send ?S1 (S\<lparr>sys_db := w, sys_broker := br, sys_fetched := []\<rparr>)"
    using system_step.task [of ?S1 "row_task r" "[]" sample_env sample_send clocks q w br] assms(2,5) by simp
  ultimately show ?thesis using assms(1) by (blast intro: system_run.step)
qed

lemma sample_system_run:
  "\<exists>S. system_run sample_env sample_send sample_broker S \<and> sys_sent S = [sample_event] \<and> fst (fst (sys_broker S)) = [sample_doc, sample_doc]"
proof -
  obtain ws where r: "system_run sample_env sample_send sample_broker ((sample_system (sample_tasks_db created_task))\<lparr>sys_workers := ws,
     sys_sent := [sample_event], sys_saved := [sample_event], sys_goroutines := [Sending 1 Api_chan sample_event]\<rparr>)"
    (is "system_run _ _ _ ?S5") using sample_saved_run by blast
  have "sys_broker ?S5 = (sample_broker, [])" "sys_db ?S5 = sample_tasks_db created_task" "sys_fetched ?S5 = []"
    by (simp_all add: sample_system_def)
  with sample_task_step [OF r _ _ sample_pending(1)] sample_tasks_run(1) have
    "system_run sample_env sample_send sample_broker (?S5\<lparr>sys_db := sample_tasks_db failed_task,
       sys_broker := (([sample_doc], [], 0), [(1, False)]), sys_fetched := []\<rparr>)" (is "system_run _ _ _ ?S6") by simp
  from sample_task_step [OF this _ _ sample_pending(2), of "(10000, 11000, 12000)"] sample_tasks_run(2) have
    "system_run sample_env sample_send sample_broker (?S6\<lparr>sys_db := sample_tasks_db finished_task,
       sys_broker := (([sample_doc, sample_doc], [], 0), [(1, False), (1, True)]), sys_fetched := []\<rparr>)"
    (is "system_run _ _ _ ?S7") by simp
  then show ?thesis by (intro exI [of _ ?S7]) (simp add: sample_system_def)
qed

section \<open>Properties\<close>

text \<open>
  (C1) The invariant of the whole program: in every state that any interleaving of requests, goroutines,
  workers and the outbox worker can reach, with failures of the database, of Redis and of Kafka and ends of the
  process at any point, and whatever order the clock readings of the transactions are in: order ids and row
  numbers are unique, every order has been stored, is refunded only if it was issued, and its packaging has a
  known price, no two users have the same address, no task of the outbox was sent more than three times, the
  channels hold at most a thousand events and the open batches fewer than five.
\<close>

theorem system_invariant:
  assumes "pg_env_ok E" "system_run E send k0 S"
  shows "orders_ok (sys_db S) \<and> list_all (staged \<circ> row_order) (orders (sys_db S)) \<and>
    list_all (priced E) (packaging_types (sys_db S)) \<and> distinct (map fst (users (sys_db S))) \<and>
    distinct (map task_id (audit_tasks (sys_db S))) \<and>
    list_all (\<lambda>r. sends (snd (sys_broker S)) (task_id r) \<le> 3) (audit_tasks (sys_db S)) \<and>
    list_all (\<lambda>p. length (StatusChan p) \<le> 1000 \<and> length (ApiChan p) \<le> 1000) (sys_pools S) \<and>
    length (open_batch (sys_workers S i k)) < 5"
proof -
  obtain kk tr where b: "sys_broker S = (kk, tr)" by fastforce
  from system_run_ok [OF assms] have ok: "shop_ok E (sys_db S)" "users_ok (sys_db S)"
    "audit_ok (sys_db S, (kk, tr), sys_fetched S)" "pipeline_ok S" by (simp_all add: system_ok_def db_ok_def b)
  have "list_all (\<lambda>r. sends tr (task_id r) \<le> 3) (audit_tasks (sys_db S))"
    using ok(3) task_ok_bounds by (auto simp: audit_ok_def list_all_iff)
  moreover have "distinct (map task_id (audit_tasks (sys_db S)))" using ok(3) by (simp add: audit_ok_def)
  moreover have "orders_ok (sys_db S)" "list_all (staged \<circ> row_order) (orders (sys_db S))" "list_all (priced E) (packaging_types (sys_db S))"
    using ok(1) by (simp_all add: shop_ok_def)
  ultimately show ?thesis using ok(2,4) by (simp add: b users_ok_def pipeline_ok_def chan_capacity_def)
qed

theorem system_invariant_witness:
  "\<exists>S. system_run sample_env sample_send sample_broker S \<and> orders_ok (sys_db S) \<and>
     (\<exists>r \<in> set (orders (sys_db S)). issued_at r = Some 3000 \<and> refunded_at r = Some 2000 \<and> staged (row_order r))"
proof -
  obtain w r where w: "system_run sample_env sample_send sample_broker (sample_system w)" "r \<in> set (orders w)"
    "issued_at r = Some 3000" "refunded_at r = Some 2000" using sample_race_run by blast
  from system_invariant [OF sample_env_ok w(1), of 0 Api_chan] w show ?thesis
    by (intro exI [of _ "sample_system w"]) (auto simp: list_all_iff sample_system_def)
qed

text \<open>
  (C2) The audit trail from end to end, in every run: an event that was sent is either still on its way (in a
  goroutine, in a channel or with a worker), or saved, or lost because its save failed or the process ended, and
  this exactly once; the tasks of the outbox are the documents of the saved events, in the order of the saves;
  Kafka has only documents of saved events, none more than three times as often as it was saved; and the
  document of a task that is \<^verbatim>\<open>FINISHED\<close> is in Kafka. A document can be there twice: the commit of a
  first send may be reported as failed after the broker has done it.
\<close>

theorem audit_end_to_end:
  assumes "pg_env_ok E" "kafka_ok C msgs pend" "msgs k0 = []" "pend k0 = []"
    and "system_run E (Producer_SendTransactional C) k0 S"
  shows "mset (sys_sent S) = in_flight S + mset (sys_saved S) + mset (sys_lost S) \<and>
    map audit_log (audit_tasks (sys_db S)) = map (the \<circ> marshal_event) (sys_saved S) \<and>
    mset (map RecordValue (msgs (fst (sys_broker S)))) \<subseteq># repeat_mset 3 (mset (map (the \<circ> marshal_event) (sys_saved S))) \<and>
    list_all (\<lambda>r. task_state r = StatusFinished \<longrightarrow> audit_log r \<in> RecordValue ` set (msgs (fst (sys_broker S)))) (audit_tasks (sys_db S))"
proof -
  have ok: "system_ok E S" by (rule system_run_ok [OF assms(1,5)])
  obtain k tr where b: "sys_broker S = (k, tr)" by fastforce
  have a: "audit_ok (sys_db S, (k, tr), sys_fetched S)" using ok by (simp add: system_ok_def b)
  have inv: "kafka_inv msgs pend k0 (sys_db S, (k, tr), sys_fetched S)"
    using audit_run_kafka [OF assms(1,2) system_audit_run [OF assms(5)]] by (simp add: b)
  have doc: "the \<circ> marshal_event = doc_of" by (simp add: fun_eq_iff doc_of_def)
  have docs: "map snd (task_docs (sys_db S)) = map doc_of (sys_saved S)" using ok by (simp add: system_ok_def docs_ok_def)
  have "audit_log r \<in> RecordValue ` set (msgs k)" if "r \<in> set (audit_tasks (sys_db S))" "task_state r = StatusFinished" for r
  proof -
    have "confirmed tr (task_id r) \<noteq> 0" using a that by (auto simp: audit_ok_def list_all_iff task_ok_def Let_def)
    from confirmed_in_log [OF inv a that(1) this] show ?thesis by (force simp: audit_record_def)
  qed
  moreover have "map audit_log (audit_tasks (sys_db S)) = map doc_of (sys_saved S)" using docs by (simp add: task_docs_def comp_def)
  moreover have "mset (sys_sent S) = in_flight S + mset (sys_saved S) + mset (sys_lost S)"
    using ok by (simp add: system_ok_def pipeline_ok_def)
  moreover have "mset (map RecordValue (msgs k)) \<subseteq># repeat_mset 3 (mset (map doc_of (sys_saved S)))"
    using messages_sent [OF inv a assms(3,4)] unfolding docs .
  ultimately show ?thesis unfolding doc b fst_conv by (simp only: list_all_iff) blast
qed

theorem audit_end_to_end_witness:
  "\<exists>S. system_run sample_env sample_send sample_broker S \<and> sys_sent S = [sample_event] \<and>
     mset (map RecordValue (fst (fst (sys_broker S)))) = {#doc_of sample_event, doc_of sample_event#} \<and>
     {#doc_of sample_event, doc_of sample_event#} \<subseteq># repeat_mset 3 (mset (map (the \<circ> marshal_event) (sys_saved S)))"
proof -
  obtain S where S: "system_run sample_env sample_send sample_broker S" "sys_sent S = [sample_event]"
    "fst (fst (sys_broker S)) = [sample_doc, sample_doc]"
    using sample_system_run by blast
  from S(3) have m: "mset (map RecordValue (fst (fst (sys_broker S)))) = {#doc_of sample_event, doc_of sample_event#}"
    by (simp add: audit_record_def)
  from audit_end_to_end [OF sample_env_ok sample_kafka_ok _ _ S(1)] have
    "mset (map RecordValue (fst (fst (sys_broker S)))) \<subseteq># repeat_mset 3 (mset (map (the \<circ> marshal_event) (sys_saved S)))" by simp
  with S m show ?thesis by metis
qed

text \<open>
  (C3) A request of either server is a run of the system: whatever the answer, and whatever its clock reads, the
  state with the request's effect on the database and with its audit events under way is reached by steps of the
  system, so that the invariants of the system hold after it.
\<close>

theorem requests_in_system:
  assumes "pg_server E C H" "clocked ch" "\<And>h s. otelgrpc h s = h s" "system_run E send k0 S"
  shows "(case serve H ch (g, ep) rq (sys_db S, r) of (out, w, r') \<Rightarrow>
      system_run E send k0 (send_events ts (out_audits out) (S\<lparr>sys_db := w\<rparr>))) \<and>
    (case grpc_serve H otelgrpc ch md rpc (sys_db S, r) of
       (Panic, w, r') \<Rightarrow> system_run E send k0 (S\<lparr>sys_db := w\<rparr>)
     | (Ret out, w, r') \<Rightarrow> system_run E send k0 (send_events ts (g_audits out) (S\<lparr>sys_db := w\<rparr>)))"
proof -
  have run: "system_run E send k0 (send_events ts calls (S\<lparr>sys_db := w\<rparr>))" if "db_run E (sys_db S) w" for w calls
    using system_run_steps [OF assms(4) request_steps [OF that]] .
  have "system_run E send k0 (S\<lparr>sys_db := w\<rparr>)" if "db_run E (sys_db S) w" for w
    using system_run_steps [OF assms(4) db_run_steps [OF that]] .
  with run serve_run [OF assms(1,2), of "sys_db S" g ep rq r] grpc_serve_run [OF assms(1,2), of otelgrpc "sys_db S" md rpc r, OF assms(3)]
  show ?thesis by (auto split: prod.splits go.splits)
qed

theorem requests_in_system_witness:
  "\<exists>out w r'. serve sample_http sample_chance (Guarded, AcceptOrder_ep) sample_http_request (sample_db, Map.empty) = (out, w, r') \<and>
     system_run sample_env sample_send sample_broker (send_events [5000, 6000] (out_audits out) (sample_system w))"
proof -
  have "pg_server sample_env mem_client sample_http" by (simp add: pg_server_def sample_http_def)
  moreover have "clocked sample_chance" by (simp add: clocked_def sample_chance_def)
  moreover have "sys_db (sample_system sample_db) = sample_db" "(sample_system sample_db)\<lparr>sys_db := w\<rparr> = sample_system w" for w
    by (simp_all add: sample_system_def)
  moreover obtain out w r' where "serve sample_http sample_chance (Guarded, AcceptOrder_ep) sample_http_request (sample_db, Map.empty) = (out, w, r')"
    by (metis prod.exhaust)
  moreover have "system_run sample_env sample_send sample_broker (sample_system sample_db)" by (rule sample_system_start) simp
  ultimately show ?thesis
    using requests_in_system [where E = sample_env and C = mem_client and H = sample_http and S = "sample_system sample_db" and ch = sample_chance
        and otelgrpc = id and send = sample_send and ?k0.0 = sample_broker and g = Guarded and ep = AcceptOrder_ep and rq = sample_http_request
        and r = Map.empty and ts = "[5000, 6000]"] by simp
qed

text \<open>
  (C8) No step of the program moves an order back in its life cycle: from one state of a run to the next, an
  order that is still there has the same status or a later one, whichever part of the program moves.
\<close>

theorem system_status:
  assumes "pg_env_ok E" "system_run E send k0 S" "system_step E send S S'"
    and "stored_orders (sys_db S) i = Some o1" "stored_orders (sys_db S') i = Some o2"
  shows "Status o1 \<le> Status o2"
proof -
  have ok: "shop_ok E (sys_db S)" using system_run_ok [OF assms(1,2)] by (simp add: system_ok_def db_ok_def)
  have same: ?thesis if "orders (sys_db S') = orders (sys_db S)"
    using that assms(4,5) by (auto simp: stored_orders_def)
  show ?thesis
    using assms(3)
  proof cases
    case (request w)
    from request(2) show ?thesis
    proof cases
      case order
      with request(1) assms(4,5) show ?thesis by (auto intro: order_step_status [OF assms(1) ok])
    next
      case (user u q)
      with request(1) CreateUser_result [OF user] show ?thesis by (intro same) simp
    next
      case query
      with request(1) show ?thesis by (intro same) (simp add: quiet_def same_tables_def)
    qed
  next
    case (save k e es r w)
    with SaveLog_shop [of E e "sys_db S" r w] show ?thesis by (intro same) (simp add: Pipeline_saveToDB_def same_shop_def)
  next
    case (fetch t locked ts w)
    with fetch_batch_shop [OF fetch(3)] show ?thesis by (intro same) (simp add: same_shop_def)
  next
    case (task tk ts clocks r w br)
    with processTask_shop [OF task(3)] show ?thesis by (intro same) (simp add: same_shop_def)
  next
    case (died tk ts t now q w)
    with UpdateTask_shop [OF died(3)] show ?thesis by (intro same) (simp add: same_shop_def)
  qed (intro same, simp)+
qed

theorem system_status_witness:
  "\<exists>S S' o2. system_run sample_env sample_send sample_broker S \<and> system_step sample_env sample_send S S' \<and>
     stored_orders (sys_db S') ''b'' = Some o2 \<and> IssuedAt o2 = Some 3000 \<and>
     Status (row_order (sample_row 2 ''b'' ''u'')) \<le> Status o2"
proof -
  let ?S = "sample_system sample_shop"
  have run: "system_run sample_env sample_send sample_broker ?S" by (rule sample_system_start) simp
  from issue_sample obtain w' where i: "UserOrderStorage_IssueOrders sample_env 3000 ''u'' [''b''] sample_shop =
      (Inr \<lparr>UserID = ''u'', OrderIDs = [''b''], Failed = [], ProcError = None\<rparr>, w')"
    by (auto simp: userOrderRepository_IssueOrders_def pg_user_order_storage_def split: prod.splits sum.splits if_splits)
  then have "order_step sample_env sample_shop w'" by (intro order_step.issue [of 3000]) simp_all
  then have step: "system_step sample_env sample_send ?S (sample_system w')"
    using system_step.request [of sample_env ?S w' sample_send] by (simp add: sample_system_def db_step.order)
  have "stored_orders w' ''b'' = Some (issued_order sample_env 3000 (row_order (sample_row 2 ''b'' ''u'')))"
    using issue.transaction_spec [OF _ i [unfolded UserOrderStorage_IssueOrders_def]] by (auto simp: batch_spec_def)
  with system_status [OF sample_env_ok run step, of "''b''" "row_order (sample_row 2 ''b'' ''u'')"] run step show ?thesis
    by (intro exI [of _ ?S] exI [of _ "sample_system w'"]) (simp add: sample_system_def issued_order_def sample_env_def)
qed

end
