(* ===== verification/Startup.thy ===== *)
theory Startup
  imports Order_Service
begin

text \<open>
  What the programs do before they serve: the configuration (\<^verbatim>\<open>internal/config\<close>), tracing
  (\<^verbatim>\<open>internal/tracing\<close>), the pool of the database (\<^verbatim>\<open>internal/db\<close>), the Redis client
  (\<^verbatim>\<open>internal/cache/redis.go\<close>) and the options of the two Kafka clients
  (\<^verbatim>\<open>internal/kafka/producer.go\<close>, \<^verbatim>\<open>cmd/consumer/consumer.go\<close>). The libraries that open
  connections are arguments; what the program asks of them is the value they are called with.
\<close>

section \<open>Configuration\<close>

text \<open>The environment of the process. \<open>dotenv\<close> is \<^verbatim>\<open>godotenv.Load\<close>: it reads the file
  \<^verbatim>\<open>.env\<close> into the environment or fails.\<close>

type_synonym environ = "string \<rightharpoonup> string"

record config =
  DatabaseURL :: string
  HTTPPort :: string
  AuditFilter :: string
  CacheURL :: string
  CachePassword :: string
  KafkaBrokers :: "string list"
  KafkaConsumerGroup :: string
  KafkaTopic :: string
  GRPCPort :: string
  JaegerServiceName :: string
  JaegerURL :: string

definition getEnv :: "environ \<Rightarrow> string \<Rightarrow> string \<Rightarrow> string" where
  "getEnv env key defaultValue = (case env key of None \<Rightarrow> defaultValue | Some v \<Rightarrow> v)"

text \<open>The end of a process by \<^verbatim>\<open>log.Fatalf\<close> or its kin: the text before the error, and the error.\<close>

datatype fatal = Fatal string goerror

definition text_env_failed :: string where
  "text_env_failed = u8 [1054, 1096, 1080, 1073, 1082, 1072, 32, 1079, 1072, 1075, 1088, 1091, 1079, 1082, 1080, 32, 46,
     101, 110, 118, 32, 1092, 1072, 1081, 1083, 1072, 58, 32]"

definition config_of :: "environ \<Rightarrow> config" where
  "config_of env = \<lparr>DatabaseURL = getEnv env ''DATABASE_URL'' [], HTTPPort = getEnv env ''HTTP_PORT'' '':9000'',
     AuditFilter = getEnv env ''AUDIT_FILTER'' [], CacheURL = getEnv env ''CACHE_URL'' [],
     CachePassword = getEnv env ''CACHE_PASSWORD'' [],
     KafkaBrokers = split_on (CHR '','') (getEnv env ''KAFKA_BROKERS'' []),
     KafkaConsumerGroup = getEnv env ''KAFKA_CONSUMER_GROUP'' [], KafkaTopic = getEnv env ''KAFKA_TOPIC'' [],
     GRPCPort = getEnv env ''GRPC_PORT'' '':8000'', JaegerServiceName = getEnv env ''JAEGER_SERVICE_NAME'' [],
     JaegerURL = getEnv env ''JAEGER_URL'' []\<rparr>"

definition Load :: "(environ \<Rightarrow> goerror + environ) \<Rightarrow> environ \<Rightarrow> fatal + config" where
  "Load dotenv env = (case dotenv env of Inl err \<Rightarrow> Inl (Fatal text_env_failed err) | Inr env' \<Rightarrow> Inr (config_of env'))"

section \<open>Tracing\<close>

record exporter_options =
  exp_Endpoint :: string
  exp_Insecure :: bool
  exp_URLPath :: string

text \<open>The provider: its exporter, the attributes of the resource, and that it samples everything; it is also
  installed for the whole process, with the propagators of trace context and baggage.\<close>

record 'x tracer_provider =
  tp_exporter :: 'x
  tp_ServiceName :: string
  tp_DeploymentEnvironment :: string
  tp_AlwaysSample :: bool
  tp_propagators :: "string list"

definition InitTracer :: "(exporter_options \<Rightarrow> goerror + 'x) \<Rightarrow> string \<Rightarrow> string \<Rightarrow> goerror + 'x tracer_provider" where
  "InitTracer newExporter serviceName connStr =
     (case newExporter \<lparr>exp_Endpoint = connStr, exp_Insecure = True, exp_URLPath = ''/v1/traces''\<rparr> of
        Inl err \<Rightarrow> Inl err
      | Inr exporter \<Rightarrow> Inr \<lparr>tp_exporter = exporter, tp_ServiceName = serviceName,
          tp_DeploymentEnvironment = ''production'', tp_AlwaysSample = True, tp_propagators = [''tracecontext'', ''baggage'']\<rparr>)"

section \<open>The database\<close>

text \<open>\<open>parseConfig\<close> and \<open>newWithConfig\<close> are calls of pgxpool; the flag is the tracer for statements,
  which trims their text in the names of spans.\<close>

definition NewDatabase :: "(string \<Rightarrow> goerror + 'c) \<Rightarrow> ('c \<times> bool \<Rightarrow> goerror + 'p) \<Rightarrow> string \<Rightarrow> goerror + 'p" where
  "NewDatabase parseConfig newWithConfig connStr =
     (case parseConfig connStr of Inl err \<Rightarrow> Inl err | Inr cfg \<Rightarrow>
        (case newWithConfig (cfg, True) of Inl err \<Rightarrow> Inl err | Inr db \<Rightarrow> Inr db))"

section \<open>Redis\<close>

text \<open>The client is made once for the process, by the first call (\<^verbatim>\<open>sync.Once\<close>); an error of the
  tracing is only logged. The state is the package variable.\<close>

definition GetRedisClient ::
    "(string \<times> string \<Rightarrow> 'c) \<Rightarrow> ('c \<Rightarrow> goerror option) \<Rightarrow> string \<Rightarrow> string \<Rightarrow> 'c option \<Rightarrow> ('c \<times> goerror option) \<times> 'c option" where
  "GetRedisClient newClient instrument addr password redisClient =
     (case redisClient of
        Some client \<Rightarrow> ((client, None), redisClient)
      | None \<Rightarrow> (let client = newClient (addr, password) in ((client, instrument client), Some client)))"

section \<open>Kafka\<close>

record producer_options =
  po_SeedBrokers :: "string list"
  po_TransactionalID :: string
  po_AllowAutoTopicCreation :: bool
  po_ProduceRequestTimeout :: duration
  po_ProducerBatchMaxBytes :: int
  po_ProducerLinger :: duration

text \<open>The linger is given as the bare number 100, that is 100 nanoseconds.\<close>

definition producer_opts :: "string list \<Rightarrow> producer_options" where
  "producer_opts brokers = \<lparr>po_SeedBrokers = brokers, po_TransactionalID = ''audit-producer-v1'',
     po_AllowAutoTopicCreation = True, po_ProduceRequestTimeout = 3 * second,
     po_ProducerBatchMaxBytes = 10 * 2 ^ 20, po_ProducerLinger = 100\<rparr>"

definition NewProducer :: "(producer_options \<Rightarrow> goerror + 'k) \<Rightarrow> string list \<Rightarrow> goerror + 'k" where
  "NewProducer newClient brokers = (case newClient (producer_opts brokers) of Inl err \<Rightarrow> Inl err | Inr client \<Rightarrow> Inr client)"

record consumer_options =
  co_SeedBrokers :: "string list"
  co_ConsumerGroup :: string
  co_ConsumeTopics :: "string list"
  co_ReadCommitted :: bool
  co_DisableAutoCommit :: bool
  co_ResetOffsetAtEnd :: bool
  co_SessionTimeout :: duration
  co_HeartbeatInterval :: duration

definition consumer_opts :: "string list \<Rightarrow> string \<Rightarrow> string \<Rightarrow> consumer_options" where
  "consumer_opts brokers groupID topic = \<lparr>co_SeedBrokers = brokers, co_ConsumerGroup = groupID, co_ConsumeTopics = [topic],
     co_ReadCommitted = True, co_DisableAutoCommit = True, co_ResetOffsetAtEnd = True,
     co_SessionTimeout = 30 * second, co_HeartbeatInterval = 5 * second\<rparr>"

definition NewConsumer ::
    "(consumer_options \<Rightarrow> goerror + 'c) \<Rightarrow> string list \<Rightarrow> string \<Rightarrow> string \<Rightarrow> goerror + 'c" where
  "NewConsumer newClient brokers groupID topic =
     (case newClient (consumer_opts brokers groupID topic) of
        Inl err \<Rightarrow> Inl (WrapPre ''failed to init Kafka Client'' err)
      | Inr client \<Rightarrow> Inr client)"

end
