(* ===== verification/Consumer.thy ===== *)
theory Consumer
  imports Domain
begin

text \<open>
  The consumer of audit events, \<^verbatim>\<open>cmd/consumer/consumer.go\<close>. The Kafka client is a library: what
  \<^verbatim>\<open>PollFetches\<close> returns, round by round, is the argument of the loop, and the loop is the list of
  what it does: log lines and calls of the client. A list of polls that ends before the loop does is a loop
  that still runs, the value \<open>None\<close>.
\<close>

record kafka_record =
  rec_Topic :: string
  rec_Partition :: int
  rec_Offset :: int
  rec_Value :: string

text \<open>One round of the loop: the context has ended, the client is closed, the fetch had errors, or it brought
  records; the last comes with the answer to the commit.\<close>

datatype poll =
    CtxDone
  | ClientClosed
  | FetchErrors "(string \<times> int \<times> goerror) list"
  | Fetched "kafka_record list" "goerror option"

datatype consumer_act =
    LogRecord kafka_record
  | MarkCommitRecords kafka_record
  | LogRecordError kafka_record goerror
  | LogFetchError string int goerror
  | CommitUncommittedOffsets
  | LogCommitError goerror
  | LogRebalanceError goerror
  | LogStopped goerror

definition Consumer_processRecord :: "kafka_record \<Rightarrow> consumer_act list \<times> goerror option" where
  "Consumer_processRecord r = ([LogRecord r], None)"

definition each_record :: "kafka_record \<Rightarrow> consumer_act list" where
  "each_record r = (case Consumer_processRecord r of
      (acts, Some err) \<Rightarrow> acts @ [LogRecordError r err]
    | (acts, None) \<Rightarrow> acts @ [MarkCommitRecords r])"

text \<open>\<^verbatim>\<open>fmt.Errorf\<close> makes the error of a closed client; nil is the end of the context.\<close>

fun Consumer_run :: "poll list \<Rightarrow> (goerror option \<times> consumer_act list) option" where
  "Consumer_run [] = None"
| "Consumer_run (CtxDone # ps) = Some (None, [])"
| "Consumer_run (ClientClosed # ps) = Some (Some (ErrText ''client is closed''), [])"
| "Consumer_run (FetchErrors errs # ps) =
     map_option (apsnd ((@) (map (\<lambda>(topic, partition, err). LogFetchError topic partition err) errs))) (Consumer_run ps)"
| "Consumer_run (Fetched rs err # ps) =
     map_option (apsnd ((@) (concat (map each_record rs) @ [CommitUncommittedOffsets] @
       (case err of None \<Rightarrow> [] | Some e \<Rightarrow> [LogCommitError e])))) (Consumer_run ps)"

text \<open>The callback for partitions that are taken away; the argument is the answer to the commit. The one for
  assigned partitions only logs.\<close>

definition OnPartitionsRevoked :: "goerror option \<Rightarrow> consumer_act list" where
  "OnPartitionsRevoked err = CommitUncommittedOffsets # (case err of None \<Rightarrow> [] | Some e \<Rightarrow> [LogRebalanceError e])"

text \<open>The goroutine of the consumer: what it did when it has ended, which is what \<^verbatim>\<open>Wait\<close> waits for.\<close>

definition Consumer_Start :: "poll list \<Rightarrow> consumer_act list option" where
  "Consumer_Start ps = (case Consumer_run ps of
      None \<Rightarrow> None
    | Some (None, acts) \<Rightarrow> Some acts
    | Some (Some err, acts) \<Rightarrow> Some (acts @ [LogStopped err]))"

text \<open>The records that were fetched before the loop ended.\<close>

fun ends :: "poll \<Rightarrow> bool" where
  "ends CtxDone = True"
| "ends ClientClosed = True"
| "ends _ = False"

fun records_of :: "poll \<Rightarrow> kafka_record list" where
  "records_of (Fetched rs err) = rs"
| "records_of _ = []"

definition logged :: "consumer_act list \<Rightarrow> kafka_record list" where
  "logged acts = List.map_filter (\<lambda>a. case a of LogRecord r \<Rightarrow> Some r | _ \<Rightarrow> None) acts"

definition marked :: "consumer_act list \<Rightarrow> kafka_record list" where
  "marked acts = List.map_filter (\<lambda>a. case a of MarkCommitRecords r \<Rightarrow> Some r | _ \<Rightarrow> None) acts"

lemma logged_append [simp]: "logged (xs @ ys) = logged xs @ logged ys" "marked (xs @ ys) = marked xs @ marked ys"
  by (simp_all add: logged_def marked_def map_filter_def)

lemma logged_records [simp]: "logged (concat (map each_record rs)) = rs" "marked (concat (map each_record rs)) = rs"
  by (induction rs) (simp_all add: each_record_def Consumer_processRecord_def, simp_all add: logged_def marked_def map_filter_simps)

lemma logged_errors [simp]:
  "logged (map (\<lambda>(topic, partition, err). LogFetchError topic partition err) errs) = []"
  "marked (map (\<lambda>(topic, partition, err). LogFetchError topic partition err) errs) = []"
  by (induction errs) (auto simp: logged_def marked_def map_filter_simps)

lemma logged_commit [simp]:
  "logged (CommitUncommittedOffsets # xs) = logged xs" "marked (CommitUncommittedOffsets # xs) = marked xs"
  "logged [LogCommitError e] = []" "marked [LogCommitError e] = []" "logged [] = []" "marked [] = []"
  by (simp_all add: logged_def marked_def map_filter_simps)

section \<open>Properties\<close>

text \<open>
  The loop of the consumer ends exactly if the context ends or the client is closed, with an error only in
  the second case; until then every record that was fetched is logged exactly once, in order, and marked for
  the commit after it was logged.
\<close>

theorem Consumer_run_ends:
  "(case Consumer_run ps of
      None \<Rightarrow> list_all (\<lambda>p. \<not> ends p) ps
    | Some (err, acts) \<Rightarrow> list_ex ends ps \<and> (err = None \<longleftrightarrow> hd (dropWhile (\<lambda>p. \<not> ends p) ps) = CtxDone) \<and>
        logged acts = concat (map records_of (takeWhile (\<lambda>p. \<not> ends p) ps)) \<and> marked acts = logged acts)"
  by (induction ps rule: Consumer_run.induct) (auto split: option.splits)

end
