(* ===== verification/Programs.thy ===== *)
theory Programs
  imports System Startup Consumer
begin

text \<open>
  The two main programs, \<^verbatim>\<open>cmd/api/main.go\<close> and \<^verbatim>\<open>cmd/consumer/main.go\<close>: the order in
  which they start their parts, where they give up, and the state they reach. Everything that can fail outside
  the program is a field of a record of libraries.
\<close>

section \<open>The servers\<close>

text \<open>\<open>lib_logger\<close> is the error of \<^verbatim>\<open>zap.NewProduction\<close>, if any; \<open>lib_connect\<close> gives the
  database behind the pool, \<open>lib_redis\<close> the state of the cache server.\<close>

record ('x, 'c, 'r, 'g, 'k) api_libs =
  lib_dotenv :: "environ \<Rightarrow> goerror + environ"
  lib_logger :: "goerror option"
  lib_exporter :: "exporter_options \<Rightarrow> goerror + 'x"
  lib_parse_config :: "string \<Rightarrow> goerror + 'c"
  lib_connect :: "'c \<times> bool \<Rightarrow> goerror + pg"
  lib_redis :: "string \<times> string \<Rightarrow> 'r"
  lib_instrument :: "'r \<Rightarrow> goerror option"
  lib_register :: "collector \<Rightarrow> 'g \<Rightarrow> goerror option \<times> 'g"
  lib_kafka :: "producer_options \<Rightarrow> goerror + 'k"

datatype goroutine =
    OutboxWorker_go
  | Worker_go nat chan_kind
  | CacheRefresh_go
  | HttpServer_go string
  | GrpcServer_go string

text \<open>The goroutines of a pool: first the worker for requests and answers, then the one for changes of status.\<close>

definition WorkerPool_StartWorkers :: "nat \<Rightarrow> goroutine list" where
  "WorkerPool_StartWorkers i = [Worker_go i Api_chan, Worker_go i Status_chan]"

definition Pipeline_StartWorkers :: "goroutine list" where
  "Pipeline_StartWorkers = WorkerPool_StartWorkers 0 @ WorkerPool_StartWorkers 1"

record ('r, 'g, 'k) running =
  run_config :: config
  run_system :: "'k system"
  run_cache :: 'r
  run_registry :: 'g
  run_goroutines :: "goroutine list"
  run_log :: "goerror list"

text \<open>
  The program up to the point where it waits for the signal to stop. A failed registration of metrics is only
  logged. A logger that cannot be made ends the program one way or the other: the program calls a method of
  the missing logger before it looks at the error. \<open>now\<close> and the clocks are read while the cache is
  filled. The middleware that \<^verbatim>\<open>main\<close> adds to the router after \<^verbatim>\<open>SetupRouter\<close> reaches no route, since
  all of them are registered by then.
\<close>

definition api_main ::
    "('x, 'c, 'r, 'g, 'k) api_libs \<Rightarrow> pg_env \<Rightarrow> 'r redis_client \<Rightarrow> time \<times> (nat \<Rightarrow> time) \<times> (nat \<Rightarrow> time) \<Rightarrow> environ \<Rightarrow> 'g \<Rightarrow>
     fatal + ('r, 'g, 'k) running" where
  "api_main L E C clocks env registry =
     (case Load (lib_dotenv L) env of
        Inl f \<Rightarrow> Inl f
      | Inr cfg \<Rightarrow>
     (case lib_logger L of
        Some err \<Rightarrow> Inl (Fatal ''failed to init logger'' err)
      | None \<Rightarrow>
     (case InitTracer (lib_exporter L) (JaegerServiceName cfg) (JaegerURL cfg) of
        Inl err \<Rightarrow> Inl (Fatal ''failed to init tracer'' err)
      | Inr tp \<Rightarrow>
     (case NewDatabase (lib_parse_config L) (lib_connect L) (DatabaseURL cfg) of
        Inl err \<Rightarrow> Inl (Fatal ''failed to init database'' err)
      | Inr db \<Rightarrow>
     (let ((cache, traceErr), redisClient) = GetRedisClient (lib_redis L) (lib_instrument L) (CacheURL cfg) (CachePassword cfg) None;
          (metricsErr, registry') = RegisterMetrics (lib_register L) registry;
          SV = NewOrderService E C
      in case NewProducer (lib_kafka L) (KafkaBrokers cfg) of
        Inl err \<Rightarrow> Inl (Fatal ''failed to init Kafka Producer'' err)
      | Inr producer \<Rightarrow>
     (case clocks of (now, clock1, clock2) \<Rightarrow>
      case orderService_InitCache SV now clock1 clock2 (db, cache) of (db', cache') \<Rightarrow>
        Inr \<lparr>run_config = cfg,
          run_system = \<lparr>sys_db = db', sys_goroutines = [], sys_pools = [NewWorkerPool, NewWorkerPool],
            sys_workers = (\<lambda>i k. NewWorker), sys_broker = (producer, []), sys_fetched = [],
            sys_sent = [], sys_saved = [], sys_lost = []\<rparr>,
          run_cache = cache', run_registry = registry',
          run_goroutines = [OutboxWorker_go] @ Pipeline_StartWorkers @ [CacheRefresh_go, HttpServer_go (HTTPPort cfg), GrpcServer_go (GRPCPort cfg)],
          run_log = (case traceErr of None \<Rightarrow> [] | Some e \<Rightarrow> [e]) @ (case metricsErr of None \<Rightarrow> [] | Some e \<Rightarrow> [e])\<rparr>))))))"

section \<open>The consumer\<close>

record 'c consumer_libs =
  clib_dotenv :: "environ \<Rightarrow> goerror + environ"
  clib_logger :: "goerror option"
  clib_kafka :: "consumer_options \<Rightarrow> goerror + 'c"

text \<open>
  The program ends only when a signal has come and the goroutine of the consumer has ended; the signal is what
  cancels the context. The result is what the consumer did so far, as far as it has ended, and whether
  the program has ended.
\<close>

definition consumer_main ::
    "'c consumer_libs \<Rightarrow> environ \<Rightarrow> bool \<Rightarrow> poll list \<Rightarrow> fatal + consumer_act list option \<times> bool" where
  "consumer_main L env signalled ps =
     (case clib_logger L of
        Some err \<Rightarrow> Inl (Fatal ''failed to init logger'' err)
      | None \<Rightarrow>
     (case Load (clib_dotenv L) env of
        Inl f \<Rightarrow> Inl f
      | Inr cfg \<Rightarrow>
     (case NewConsumer (clib_kafka L) (KafkaBrokers cfg) (KafkaConsumerGroup cfg) (KafkaTopic cfg) of
        Inl err \<Rightarrow> Inl (Fatal ''failed to init Kafka Consumer'' err)
      | Inr client \<Rightarrow>
          (let acts = Consumer_Start ps in Inr (acts, signalled \<and> acts \<noteq> None)))))"

section \<open>Facts\<close>

text \<open>
  Where the program comes up on a consistent database without audit tasks, it is in a start state of the
  system, so that everything shown of the runs of the system holds from then on; filling the cache has changed
  no table.
\<close>

lemma api_main_started:
  assumes "pg_env_ok E" "api_main L E C clocks env registry = Inr run"
    and "\<And>c db. lib_connect L c = Inr db \<Longrightarrow> db_ok E db \<and> audit_tasks db = []"
  shows "\<exists>producer. started E producer (run_system run)"
proof -
  obtain now clock1 clock2 where c: "clocks = (now, clock1, clock2)" by (metis prod.exhaust)
  from assms(2) obtain c' db db' cache cache' producer where m: "lib_connect L c' = Inr db"
    "orderService_InitCache (NewOrderService E C) now clock1 clock2 (db, cache) = (db', cache')"
    "run_system run = \<lparr>sys_db = db', sys_goroutines = [], sys_pools = [NewWorkerPool, NewWorkerPool],
       sys_workers = (\<lambda>i k. NewWorker), sys_broker = (producer, []), sys_fetched = [], sys_sent = [], sys_saved = [], sys_lost = []\<rparr>"
    by (auto simp: api_main_def c NewDatabase_def Let_def split: sum.splits option.splits prod.splits)
  have "quiet db db'" using InitCache_quiet [of "(db, cache)" E C now clock1 clock2] m(2) by simp
  moreover from this have "db_ok E db'" using db_step_ok [OF assms(1) db_step.query] assms(3) [OF m(1)] by blast
  ultimately show ?thesis using assms(3) [OF m(1)] m(3) by (auto simp: started_def quiet_def same_tables_def)
qed

text \<open>
  The consumer program: it ends exactly if a signal has come and its loop has ended; when the client of Kafka is
  closed on its own, the loop ends, and the program waits for a signal without consuming.
\<close>

lemma Consumer_run_ended: "Consumer_run ps \<noteq> None \<longleftrightarrow> list_ex ends ps"
  by (induction ps rule: Consumer_run.induct) auto

lemma consumer_main_ends:
  assumes "consumer_main L env signalled ps = Inr (acts, ended)"
  shows "(ended \<longleftrightarrow> signalled \<and> list_ex ends ps) \<and> (acts = None \<longleftrightarrow> \<not> list_ex ends ps)"
  using assms Consumer_run_ended [of ps]
  by (auto simp: consumer_main_def Consumer_Start_def Let_def split: option.splits sum.splits)

text \<open>The list of brokers in the environment is read back as it was written, if it is not empty and no address
  has a comma.\<close>

lemma brokers_roundtrip:
  assumes "env ''KAFKA_BROKERS'' = Some (join_with (CHR '','') bs)" "bs \<noteq> []" "\<And>b. b \<in> set bs \<Longrightarrow> CHR '','' \<notin> set b"
  shows "KafkaBrokers (config_of env) = bs"
  using assms by (simp add: config_of_def getEnv_def split_on_join)

end
