(* ===== verification/Spec2Isabelle.thy ===== *)
theory Spec2Isabelle
  imports Http_Pages Programs
begin

text \<open>
  \<^bold>\<open>The program.\<close> The repository is the back end of a pick-up point for parcels. Couriers bring
  orders, users collect them and may bring them back, and the point gives expired orders back to the
  courier. It consists of two servers over one service layer (HTTP with gin, and gRPC), a PostgreSQL
  database, a Redis cache, metrics, and an audit trail that goes through a pipeline of workers into an outbox
  table, from there to Kafka and to a consumer program.

  \<^bold>\<open>Parts and theories.\<close> A theory follows its source from top to bottom; definitions keep the names of
  the Go functions, with the receiver in front of a method.
    \<^item> \<open>Prelude\<close>: collections of facts and lemmas on lists and keyset pages.
    \<^item> \<open>Go_Lib\<close>, \<open>Go_Time\<close>, \<open>Time_Parse\<close>, \<open>Go_Json\<close>: what the sources use of Go's
      library: splitting strings, numbers as text, the calendar, printing and reading times, JSON trees.
    \<^item> \<open>Domain\<close>, \<open>Packaging\<close>: \<^verbatim>\<open>internal/domain\<close> and
      \<^verbatim>\<open>internal/repository/repoutils\<close>: orders, errors with \<^verbatim>\<open>errors.Is\<close>, users,
      audit events, packaging strategies and their parser.
    \<^item> \<open>Pg\<close>: the tables of \<^verbatim>\<open>migrations\<close> and one round trip to the server.
    \<^item> \<open>Order_Storage\<close>, \<open>Order_Repo\<close>: \<^verbatim>\<open>orderstorage\<close>,
      \<^verbatim>\<open>storageutils\<close> and \<^verbatim>\<open>orderrepo\<close>: saving, deleting and finding orders; taking
      them in and giving them back.
    \<^item> \<open>User_Order_Storage\<close>: \<^verbatim>\<open>userorderstorage\<close> and
      \<^verbatim>\<open>userorderrepo\<close>: the two batch transactions, issue and refund.
    \<^item> \<open>Report_Storage\<close>, \<open>Report_Repo\<close>: \<^verbatim>\<open>reportorderstorage\<close> and
      \<^verbatim>\<open>reportrepo\<close>: paged reports and lists of ids.
    \<^item> \<open>Lifecycle\<close>: the step relation of all transactions on the table of orders, whose clock
      readings come in any order, since the code reads the clock before it takes a lock.
    \<^item> \<open>Cache\<close>: \<^verbatim>\<open>internal/cache\<close>; \<open>Order_Service\<close>:
      \<^verbatim>\<open>internal/service/storage_service.go\<close> over the repositories and the cache.
    \<^item> \<open>Auth\<close>: \<^verbatim>\<open>authstorage\<close>, \<^verbatim>\<open>authrepo\<close> and
      \<^verbatim>\<open>auth_service.go\<close>.
    \<^item> \<open>Audit_Log\<close>, \<open>Outbox\<close>, \<open>Pipeline\<close>, \<open>Consumer\<close>: the audit trail:
      \<^verbatim>\<open>auditlogstorage\<close>, \<^verbatim>\<open>auditlogrepo\<close>,
      \<^verbatim>\<open>audit_log_service.go\<close>, \<^verbatim>\<open>internal/audit\<close>,
      \<^verbatim>\<open>internal/kafka\<close> and \<^verbatim>\<open>cmd/consumer\<close>.
    \<^item> \<open>Api_Texts\<close>, \<open>Http_Api\<close>, \<open>Http_Server\<close>, \<open>Http_Pages\<close>:
      \<^verbatim>\<open>internal/api\<close>, \<^verbatim>\<open>internal/router\<close> and
      \<^verbatim>\<open>internal/middleware\<close>.
    \<^item> \<open>Grpc_Api\<close>, \<open>Grpc_Server\<close>: the handlers, interceptors and their chain in
      \<^verbatim>\<open>internal/transport/grpc\<close>, and the server with all its methods.
    \<^item> \<open>Metrics\<close>: \<^verbatim>\<open>internal/metrics\<close>: the collectors, their registration and the
      calls the other parts make.
    \<^item> \<open>Db_Steps\<close>: what a request of either server does to the database, as a sequence of
      transactions. \<open>System\<close>: the running program, the step relation of requests, goroutines, pipeline
      workers and outbox worker on one database, in which the process may die and start again at any point.
    \<^item> \<open>Startup\<close>, \<open>Programs\<close>: \<^verbatim>\<open>internal/config\<close>,
      \<^verbatim>\<open>internal/tracing\<close>, \<^verbatim>\<open>internal/db\<close>, the options of the Redis and Kafka clients,
      and the two \<^verbatim>\<open>main\<close> functions under \<^verbatim>\<open>cmd\<close>.

  \<^bold>\<open>State.\<close> The database is a record of tables and sequences (\<open>pg\<close>), threaded through every call.
  Its field \<open>script\<close> says for each round trip whether the server answers, refuses or breaks off a
  result, and \<open>pg_env\<close> how it rounds values and in which order it returns unsorted rows; a theorem for
  every script holds under every pattern of failures. A Go interface is a record of operations
  (\<open>order_storage\<close>, \<open>user_order_storage\<close>, \<open>report_storage\<close>, \<open>auth_storage\<close>,
  \<open>order_cache\<close>), an error is a value of \<open>goerror\<close> on the left of a sum, a nil dereference is
  \<open>Panic\<close>. Each reading of the clock is an argument. A goroutine of the service is a \<open>cache_job\<close>
  that runs later, one of the pipeline a \<open>sending\<close>. A call of a metric is a value in the result of the operation that makes
  it (\<open>metric_call\<close>). \<open>system\<close> puts the database, the channels, the workers and the broker
  together, with the events sent, saved and lost so far as a history that nothing depends on. A time is the number of nanoseconds since the
  first day of year 1 in UTC, a string the list of its bytes in UTF-8, a \<^verbatim>\<open>float64\<close> an exact
  rational, an infinity or not-a-number (the program only compares and adds small whole prices), and
  \<^verbatim>\<open>int32\<close> fields are words.

  \<^bold>\<open>Libraries.\<close> bcrypt, the token library, the Redis and Kafka clients, gin's decoding of request
  bodies, the registration of Prometheus, the interceptor of OpenTelemetry, and what opens connections or
  reads the file \<^verbatim>\<open>.env\<close> are arguments of the definitions that use them. What the program relies
  on is a predicate, a hypothesis or a locale that a witness instantiates: \<open>bcrypt_ok\<close>,
  \<open>pg_env_ok\<close>, the store in memory \<open>mem_client\<close>, a registry of names \<open>name_registry\<close>,
  an interceptor that calls its handler. \<open>kafka_ok\<close> says what is documented of transactions in Kafka: a
  record enters the topic at most once for each time it is produced and stays there, a commit without an error has
  delivered what was pending, and one with an error may have; the broker \<open>sample_kafka\<close>, which loses its first acknowledgement, satisfies it.

  \<^bold>\<open>Interfaces.\<close> The contracts between components are locales, each interpreted on the definitions of the
  program: \<open>order_store\<close> (what the repository relies on in the storage of orders),
  \<open>order_batch\<close> and \<open>order_change\<close> (the common form of issue and refund, interpreted for
  both), \<open>keyset_report\<close> (a paged report; the proof that following its cursors visits every row once
  is done once and interpreted for the reports by row number and for the history),
  \<open>user_store\<close>, \<open>redis_server\<close> (what is documented of Redis), \<open>cache_laws\<close> (what the service
  relies on in the cache) and \<open>shop\<close> (storage, cache and the lists of active orders together); the last two follow for every
  \<open>redis_server\<close> by \<^theory_text>\<open>sublocale\<close>.

  \<^bold>\<open>What is shown.\<close>
    \<^item> The running program: in every interleaving of requests, workers, failures and ends of the process
      the tables, the channels and the open batches stay consistent and no order moves back; every event sent is on
      its way, saved or lost, exactly once, and Kafka has only documents of saved events, at most three copies for
      each save, and one at least if its task is finished; every request of either server is a sequence of such steps.
    \<^item> Orders: after any interleaving of transactions and failures ids are unique, every order has been stored
      and is refunded only if it was issued; issue and refund refine a specification of
      batches on the map of stored orders; taking in and giving back have exact decision tables; the
      conditions in SQL agree with the methods of the domain exactly on the orders whose stamps are in order,
      and an issue and a refund that race leave an order whose stamps are not.
    \<^item> Reports: following cursors ends and visits every matching order once, also end to end over HTTP
      with the cursor printed into the answer and read back; a broken result is taken for a complete one.
    \<^item> Service and cache: what is cached is read back, where listed orders come from, what a return does
      while other requests run between its transactions (\<open>interrupted_service\<close>), and three situations in which
      the cache hides orders.
    \<^item> Users: registration and login; an unknown address panics.
    \<^item> Audit: a task is sent at most three times and its document is in Kafka at most as often, final states
      are final, a poll takes exactly the tasks that are due, oldest first, workers and the pipeline lose nothing, the consumer logs every record.
    \<^item> Servers: without a valid token no order changes; which statuses, events and metrics a request of
      the HTTP server can lead to; the gauge of running requests returns to zero; what each answer means for
      the table; both servers have the same effects and matching answers.
    \<^item> Start: collectors register once and not twice; the state in which \<^verbatim>\<open>main\<close> leaves the program
      is a start of the system.
    \<^item> This theory: the whole life of one order across the repositories.

  \<^bold>\<open>Bounds and fuel.\<close> All functions are total. Only the clients that read a report page by page
  (\<open>follow_cursors\<close>, \<open>read_pages\<close>) have fuel: one more than the number of rows is enough,
  because every page but the last has at least one row. Loops that wait for events (the workers, the cache
  refresh, the consumer) are functions of the list of what they receive. Cursors are read back for
  years of four digits, which is what their text can hold.

  \<^bold>\<open>Not modelled.\<close> The generated protocol code (but for the names of the methods) and what the
  libraries do inside: connections and pools, spans of a trace, the exposition of metrics, the matching of
  paths to routes, the byte text of JSON and the wire formats. Log lines have no effect on the rest and are
  left out, but for the consumer, whose only effect they are. Label values that are not valid UTF-8, which
  Prometheus refuses, are left out, and so are the graceful shutdown at the end of \<^verbatim>\<open>main\<close> and the
  answer 500 that the exposition of metrics may give by itself. A statement or commit that PostgreSQL reports as
  failed is taken to have had no effect: a commit that is done and whose acknowledgement is lost is modelled for
  Kafka and not for the database. There is one outbox worker, as \<^verbatim>\<open>main\<close> starts one and the
  transactional id of its producer is fixed; rows that others hold appear as locked rows. Concurrent transactions are taken one after the other, which row locks and the isolation of
  PostgreSQL give for the statements used; the interleaving of whole transactions, jobs and batches is
  modelled. \<open>System\<close> follows the database and not the cache: no transaction depends on it, and what the
  jobs that write to it lead to is shown in \<open>Order_Service\<close>.
  \<^verbatim>\<open>time.Now\<close> is taken to be in UTC.
\<close>

section \<open>The life of one order\<close>

lemma accept_step:
  assumes "orders_ok w" "script w = []" "fst (orderRepository_AcceptOrder (pg_order_storage E) t0 t1 o1 w) = None"
  shows "\<exists>w'. orderRepository_AcceptOrder (pg_order_storage E) t0 t1 o1 w = (None, w') \<and> orders_ok w' \<and> script w' = [] \<and>
    (\<exists>p. stored_orders w' (ID o1) = Some (pg_kept E (taken_in p t1 o1)))"
proof -
  obtain w' where a: "orderRepository_AcceptOrder (pg_order_storage E) t0 t1 o1 w = (None, w')"
    using assms(3) by (cases "orderRepository_AcceptOrder (pg_order_storage E) t0 t1 o1 w") simp
  from pg_orders.accept_success [OF assms(1) a] obtain p where
    p: "orders_ok w'" "stored_orders w' = (stored_orders w)(ID o1 \<mapsto> pg_kept E (taken_in p t1 o1))" by blast
  from a have "\<exists>p. OrderStorage_SaveOrder E (taken_in p t1 o1) w = (None, w')"
    by (auto simp: orderRepository_AcceptOrder_def pg_order_storage_def FindOrderByID_calm [OF assms(2)] taken_in_def
        split: if_splits option.splits sum.splits prod.splits)
  then obtain p' where s: "OrderStorage_SaveOrder E (taken_in p' t1 o1) w = (None, w')" by blast
  have "script w' = []" by (rule SaveOrder_script [OF assms(2) s])
  with a p show ?thesis by auto
qed

text \<open>
  (C7) The whole life of an order, without server failures: an order that is accepted can be issued to its
  recipient until its time is over and refunded for 48 hours after that, each call reports exactly this
  order, and its status in the table goes from stored to issued to refunded.
\<close>

theorem order_life:
  assumes "pg_env_ok E" "orders_ok w" "script w = []" "IssuedAt o1 = None" "RefundedAt o1 = None" "1000 \<le> t1"
    and "fst (orderRepository_AcceptOrder (pg_order_storage E) t0 t1 o1 w) = None"
    and "t1 \<le> t2" "t2 \<le> pg_timestamp E (Expiry o1)" "t2 \<le> t3" "t3 - pg_timestamp E t2 \<le> 48 * hour"
  shows "\<exists>w1 w2 w3 a b c res. res = \<lparr>UserID = RecipientID o1, OrderIDs = [ID o1], Failed = [], ProcError = None\<rparr> \<and>
    orderRepository_AcceptOrder (pg_order_storage E) t0 t1 o1 w = (None, w1) \<and>
    userOrderRepository_IssueOrders (pg_user_order_storage E) t2 (RecipientID o1) [ID o1] w1 = (Inr res, w2) \<and>
    userOrderRepository_RefundOrders (pg_user_order_storage E) t3 (RecipientID o1) [ID o1] w2 = (Inr res, w3) \<and>
    stored_orders w1 (ID o1) = Some a \<and> Status a = StatusStored \<and>
    stored_orders w2 (ID o1) = Some b \<and> Status b = StatusIssued \<and>
    stored_orders w3 (ID o1) = Some c \<and> Status c = StatusRefunded"
proof -
  let ?res = "\<lparr>UserID = RecipientID o1, OrderIDs = [ID o1], Failed = [], ProcError = None\<rparr>"
  note ts = pg_timestamp_props [OF assms(1)]
  from accept_step [OF assms(2,3,7)] obtain w1 p where
    w1: "orderRepository_AcceptOrder (pg_order_storage E) t0 t1 o1 w = (None, w1)" "orders_ok w1" "script w1 = []"
    "stored_orders w1 (ID o1) = Some (pg_kept E (taken_in p t1 o1))" by blast
  define a where "a = pg_kept E (taken_in p t1 o1)"
  define b where "b = issued_order E t2 a"
  define c where "c = refunded_order E t3 b"
  have a: "StoredAt a = Some (pg_timestamp E t1)" "IssuedAt a = None" "RefundedAt a = None"
    "RecipientID a = RecipientID o1" "Expiry a = pg_timestamp E (Expiry o1)"
    using assms(4,5) by (simp_all add: a_def pg_kept_def taken_in_def)
  have order: "0 < pg_timestamp E t1" "pg_timestamp E t1 \<le> pg_timestamp E t2" "pg_timestamp E t2 \<le> pg_timestamp E t3"
    using assms(6,8,10) ts by simp_all
  have tl: "timeline a" "timeline b" "timeline c"
    using a order by (simp_all add: timeline_def b_def issued_order_def c_def refunded_order_def)
  have st: "Status a = StatusStored" "Status b = StatusIssued" "Status c = StatusRefunded"
    using tl a by (simp_all add: Status_timeline) (simp_all add: b_def issued_order_def c_def refunded_order_def a)
  have "\<exists>x. stored_orders w1 i = Some x \<and> validateOrderForIssue x (RecipientID o1) t2 = None" if "i \<in> set [ID o1]" for i
    using that w1(4) a st(1) assms(9) by (simp add: a_def [symmetric] validateOrderForIssue_None)
  from issue.transaction_complete [OF w1(2,3) _ this, where E = E and ids = "[ID o1]"] obtain w2 where
    w2: "UserOrderStorage_IssueOrders E t2 (RecipientID o1) [ID o1] w1 = (Inr ?res, w2)"
    "orders w2 = stamp_rows (mark_issued E t2) {ID o1} (orders w1)" "orders_ok w2" "script w2 = []"
    by (auto simp: UserOrderStorage_IssueOrders_def)
  have b: "stored_orders w2 (ID o1) = Some b"
    using issue.stored_put [OF w2(2)] w1(4) by (simp add: b_def a_def)
  have "\<exists>x. stored_orders w2 i = Some x \<and> validateOrderForRefund x (RecipientID o1) t3 = None" if "i \<in> set [ID o1]" for i
    using that b a st(2) assms(11) by (simp add: validateOrderForRefund_None) (simp add: b_def issued_order_def)
  from refund.transaction_complete [OF w2(3,4) _ this, where E = E and ids = "[ID o1]"] obtain w3 where
    w3: "UserOrderStorage_RefundOrders E t3 (RecipientID o1) [ID o1] w2 = (Inr ?res, w3)"
    "orders w3 = stamp_rows (mark_refunded E t3) {ID o1} (orders w2)"
    by (auto simp: UserOrderStorage_RefundOrders_def)
  have c: "stored_orders w3 (ID o1) = Some c"
    using refund.stored_put [OF w3(2)] b by (simp add: c_def)
  show ?thesis
    using w1(1,4) w2(1) w3(1) b c st
    by (auto simp: a_def [symmetric] userOrderRepository_IssueOrders_def userOrderRepository_RefundOrders_def
        pg_user_order_storage_def)
qed

theorem order_life_witness:
  "\<exists>w1 w2 w3 c. orderRepository_AcceptOrder (pg_order_storage sample_env) 1000 2000 (sample_order ''a'' ''u'') sample_db = (None, w1) \<and>
    snd (userOrderRepository_IssueOrders (pg_user_order_storage sample_env) 5000 ''u'' [''a''] w1) = w2 \<and>
    snd (userOrderRepository_RefundOrders (pg_user_order_storage sample_env) 9000 ''u'' [''a''] w2) = w3 \<and>
    stored_orders w3 ''a'' = Some c \<and> Status c = StatusRefunded"
proof -
  have "fst (orderRepository_AcceptOrder (pg_order_storage sample_env) 1000 2000 (sample_order ''a'' ''u'') sample_db) = None"
    by (simp add: accept_table script_sample_db stored_sample_db sample_order_film sample_order_fields)
  from order_life [OF sample_env_ok orders_ok_sample script_sample_db _ _ _ this, of 5000 9000] show ?thesis
    by (auto simp: sample_order_fields) (auto simp: sample_env_def)
qed

end
